(* ===== verification/Prelude.thy ===== *)
theory Prelude
  imports Complex_Main "HOL-Library.Sublist" "HOL-Library.Char_ord" "HOL-Library.Word"
begin

text \<open>
  Shared vocabulary of the development: the type synonyms that name Go's types, the
  generic facts on lists, maps and 64-bit counters that several components use, and the
  named collections the component theories extend.

  A Go string and a \<open>[]byte\<close> are both a list of \<open>char\<close>: Isabelle's \<open>char\<close> is one
  byte, and Go's \<open>len\<close> and slicing count bytes too. \<open>uint64\<close> counters are 64-bit words.
\<close>

type_synonym bytes = "char list"
type_synonym u64 = "64 word"
type_synonym u32 = "32 word"

text \<open>\<open>go_defs\<close> collects unfolding equations of small helpers; \<open>step_inv\<close> collects
  the preservation lemmas of step relations.\<close>

named_theorems go_defs "unfolding equations of small Go helpers"
named_theorems step_inv "one preservation lemma per operation of a component"

text \<open>What the Go runtime raises in the operations modelled here.\<close>

datatype go_panic = CloseOfClosedChannel | NilDereference

subsection \<open>Lists\<close>

lemma take_append_eq [simp]: "n = length xs \<Longrightarrow> take n (xs @ ys) = xs"
  by simp

lemma drop_append_eq [simp]: "n = length xs \<Longrightarrow> drop n (xs @ ys) = ys"
  by simp

lemma last_drop_suffix:
  assumes "n \<le> length xs"
  shows "length (drop (length xs - n) xs) = n"
  using assms by simp

lemma fold_invariant:
  assumes "P s" and "\<And>x s. x \<in> set xs \<Longrightarrow> P s \<Longrightarrow> P (f x s)"
  shows "P (fold f xs s)"
  using assms by (induction xs arbitrary: s) auto

text \<open>Position of an element, the first one that matches.\<close>

fun pos_in :: "'a \<Rightarrow> 'a list \<Rightarrow> nat option" where
  "pos_in x [] = None"
| "pos_in x (y # ys) = (if x = y then Some 0 else map_option Suc (pos_in x ys))"

lemma pos_in_nth: "distinct xs \<Longrightarrow> i < length xs \<Longrightarrow> pos_in (xs ! i) xs = Some i"
  by (induction xs arbitrary: i) (auto simp: nth_Cons' dest: nth_mem split: if_splits)

lemma pos_in_None [simp]: "pos_in x xs = None \<longleftrightarrow> x \<notin> set xs"
  by (induction xs) auto

lemma pos_in_Some: "pos_in x xs = Some i \<Longrightarrow> i < length xs \<and> xs ! i = x"
  by (induction xs arbitrary: i) (auto split: if_splits)

subsection \<open>Association lists read as maps\<close>

lemma map_of_map_prod_snd: "map_of (map (map_prod id f) kvs) k = map_option f (map_of kvs k)"
  by (induction kvs) (auto simp: id_def)

lemma map_fst_map_prod [simp]: "map fst (map (map_prod id f) kvs) = map fst kvs"
  by (induction kvs) auto

subsection \<open>Words as counters\<close>

lemma unat_succ_u64: "unat (a :: u64) + 1 < 2 ^ 64 \<Longrightarrow> unat (a + 1) = unat a + 1"
  by (simp add: unat_word_ariths)

lemma u64_less_succ: "unat (c :: u64) + 1 < 2 ^ 64 \<Longrightarrow> (a \<le> c + 1) = (a \<le> c \<or> a = c + 1)"
  by (auto simp: word_le_nat_alt unat_succ_u64 le_Suc_eq word_unat_eq_iff)

subsection \<open>Finite maps under update\<close>

lemma dom_upd_insert [simp]: "dom (m(k \<mapsto> v)) = insert k (dom m)"
  by auto

lemma map_restrict_none: "(m(k := None)) j = (if j = k then None else m j)"
  by simp

end
