(* ===== verification/GoStrings.thy ===== *)
theory GoStrings
  imports Prelude
begin

text \<open>
  The part of Go's standard library that the program uses on strings and bytes: package
  \<open>strings\<close> (\<open>HasPrefix\<close>, \<open>TrimPrefix\<close>, \<open>CutPrefix\<close>, \<open>Index\<close>, \<open>Contains\<close>, \<open>Cut\<close>,
  \<open>Split\<close>, \<open>SplitN\<close>, \<open>Join\<close>, \<open>TrimSpace\<close>); numbers and encodings are in
  \<open>Encoding\<close>. These are models of
  library functions, so they have no entry in the source map; the component theories
  build on them.
\<close>

subsection \<open>Prefixes and search\<close>

definition HasPrefix :: "bytes \<Rightarrow> bytes \<Rightarrow> bool" where
  "HasPrefix s p \<longleftrightarrow> length p \<le> length s \<and> take (length p) s = p"

lemma HasPrefix_prefix: "HasPrefix s p = prefix p s"
  by (auto simp: HasPrefix_def prefix_def) (metis append_take_drop_id)

lemma HasPrefix_append [simp]: "HasPrefix (p @ s) p"
  by (simp add: HasPrefix_prefix)

lemma HasPrefix_Nil [simp]: "HasPrefix s []"
  by (simp add: HasPrefix_def)

lemma HasPrefix_of_Nil [simp]: "HasPrefix [] p \<longleftrightarrow> p = []"
  by (auto simp: HasPrefix_def)

lemma HasPrefix_Cons_Cons [simp]: "HasPrefix (a # s) (b # p) \<longleftrightarrow> a = b \<and> HasPrefix s p"
  by (auto simp: HasPrefix_def)

lemma HasPrefix_trans: "HasPrefix s p \<Longrightarrow> HasPrefix p q \<Longrightarrow> HasPrefix s q"
  by (auto simp: HasPrefix_prefix)

definition TrimPrefix :: "bytes \<Rightarrow> bytes \<Rightarrow> bytes" where
  "TrimPrefix s p = (if HasPrefix s p then drop (length p) s else s)"

definition CutPrefix :: "bytes \<Rightarrow> bytes \<Rightarrow> bytes option" where
  "CutPrefix s p = (if HasPrefix s p then Some (drop (length p) s) else None)"

lemma CutPrefix_append [simp]: "CutPrefix (p @ v) p = Some v"
  by (simp add: CutPrefix_def)

lemma CutPrefix_Some: "CutPrefix s p = Some v \<longleftrightarrow> s = p @ v"
  by (auto simp: CutPrefix_def HasPrefix_prefix prefix_def)

text \<open>\<open>strings.Index\<close>; \<open>None\<close> stands for Go's \<open>-1\<close>.\<close>

fun Index :: "bytes \<Rightarrow> bytes \<Rightarrow> nat option" where
  "Index [] sub = (if sub = [] then Some 0 else None)"
| "Index (c # cs) sub =
     (if HasPrefix (c # cs) sub then Some 0 else map_option Suc (Index cs sub))"

definition Contains :: "bytes \<Rightarrow> bytes \<Rightarrow> bool" where
  "Contains s sub \<longleftrightarrow> Index s sub \<noteq> None"

lemma Index_Some:
  "Index s sub = Some i \<Longrightarrow> i + length sub \<le> length s \<and> s = take i s @ sub @ drop (i + length sub) s"
proof (induction s arbitrary: i)
  case Nil
  then show ?case by (auto split: if_splits)
next
  case (Cons c cs)
  show ?case
  proof (cases "HasPrefix (c # cs) sub")
    case True
    with Cons.prems have "i = 0" by simp
    with True show ?thesis by (auto simp: HasPrefix_def) (metis append_take_drop_id)
  next
    case False
    with Cons show ?thesis by auto
  qed
qed

lemma Index_of_prefix: "HasPrefix s sub \<Longrightarrow> Index s sub = Some 0"
  by (cases s) auto

lemma Index_append_Some: "Index (a @ sub @ b) sub \<noteq> None"
proof (induction a)
  case Nil
  then show ?case by (simp add: Index_of_prefix)
next
  case (Cons c cs)
  then show ?case by (simp del: not_None_eq)
qed

lemma Contains_iff: "Contains s sub \<longleftrightarrow> (\<exists>a b. s = a @ sub @ b)"
  using Index_Some Index_append_Some unfolding Contains_def
  by (metis option.exhaust)

lemma Index_char_None [simp]: "Index s [c] = None \<longleftrightarrow> c \<notin> set s"
  by (induction s) auto

lemma Index_char_append: "c \<notin> set a \<Longrightarrow> Index (a @ c # b) [c] = Some (length a)"
  by (induction a) auto

lemma Index_char_Some:
  "Index s [c] = Some i \<Longrightarrow> i < length s \<and> s = take i s @ c # drop (Suc i) s \<and> c \<notin> set (take i s)"
proof (induction s arbitrary: i)
  case Nil
  then show ?case by simp
next
  case (Cons x xs)
  then show ?case by (auto split: if_splits)
qed

subsection \<open>Cut, Split, Join\<close>

text \<open>\<open>strings.Cut\<close> on a one-byte separator: before, after.\<close>

definition Cut :: "bytes \<Rightarrow> char \<Rightarrow> (bytes \<times> bytes) option" where
  "Cut s c = map_option (\<lambda>i. (take i s, drop (Suc i) s)) (Index s [c])"

lemma Cut_append [simp]: "c \<notin> set a \<Longrightarrow> Cut (a @ c # b) c = Some (a, b)"
  by (simp add: Cut_def Index_char_append)

lemma Cut_None [simp]: "Cut s c = None \<longleftrightarrow> c \<notin> set s"
  by (simp add: Cut_def)

lemma Cut_Some: "Cut s c = Some (a, b) \<longleftrightarrow> s = a @ c # b \<and> c \<notin> set a"
proof
  assume "Cut s c = Some (a, b)"
  then show "s = a @ c # b \<and> c \<notin> set a"
    by (auto simp: Cut_def dest: Index_char_Some)
qed auto

fun splitAux :: "bytes \<Rightarrow> bytes \<Rightarrow> bytes \<Rightarrow> bytes list" where
  "splitAux sep acc [] = [rev acc]"
| "splitAux sep acc (c # cs) =
     (if HasPrefix (c # cs) sep
      then rev acc # splitAux sep [] (drop (length sep - 1) cs)
      else splitAux sep (c # acc) cs)"

text \<open>\<open>strings.Split\<close> for a non-empty separator (the only kind the program uses).\<close>

definition Split :: "bytes \<Rightarrow> bytes \<Rightarrow> bytes list" where
  "Split s sep = splitAux sep [] s"

fun Join :: "bytes list \<Rightarrow> bytes \<Rightarrow> bytes" where
  "Join [] sep = []"
| "Join [x] sep = x"
| "Join (x # y # ys) sep = x @ sep @ Join (y # ys) sep"

lemma splitAux_not_Nil [simp]: "splitAux sep acc s \<noteq> []"
  by (induction sep acc s rule: splitAux.induct) auto

lemma Split_not_Nil [simp]: "Split s sep \<noteq> []"
  by (simp add: Split_def)

lemma Join_Cons: "xs \<noteq> [] \<Longrightarrow> Join (x # xs) sep = x @ sep @ Join xs sep"
  by (cases xs) auto

lemma Join_snoc: "xs \<noteq> [] \<Longrightarrow> Join (xs @ [x]) sep = Join xs sep @ sep @ x"
  by (induction xs rule: list_nonempty_induct) (auto simp: Join_Cons)

lemma Join_splitAux: "sep \<noteq> [] \<Longrightarrow> Join (splitAux sep acc s) sep = rev acc @ s"
proof (induction sep acc s rule: splitAux.induct)
  case (1 sep acc)
  then show ?case by simp
next
  case (2 sep acc c cs)
  then show ?case
    by (cases sep) (auto simp: Join_Cons HasPrefix_prefix prefix_def)
qed

lemma Join_Split: "sep \<noteq> [] \<Longrightarrow> Join (Split s sep) sep = s"
  by (simp add: Split_def Join_splitAux)

lemma in_set_Join: "x \<in> set xs \<Longrightarrow> c \<in> set x \<Longrightarrow> c \<in> set (Join xs sep)"
  by (induction xs rule: induct_list012) (auto simp: Join_Cons)

lemma splitAux_char_absent: "c \<notin> set s \<Longrightarrow> splitAux [c] acc s = [rev acc @ s]"
  by (induction s arbitrary: acc) auto

lemma splitAux_char_append:
  "c \<notin> set a \<Longrightarrow> splitAux [c] acc (a @ c # b) = (rev acc @ a) # splitAux [c] [] b"
  by (induction a arbitrary: acc) auto

lemma Split_Join_char:
  assumes "xs \<noteq> []" and "\<forall>x \<in> set xs. c \<notin> set x"
  shows "Split (Join xs [c]) [c] = xs"
  using assms
  by (induction xs rule: list_nonempty_induct)
     (auto simp: Split_def splitAux_char_absent splitAux_char_append Join_Cons)

lemma splitAux_pieces: "c \<notin> set acc \<Longrightarrow> x \<in> set (splitAux [c] acc s) \<Longrightarrow> c \<notin> set x"
proof (induction s arbitrary: acc)
  case Nil
  then show ?case by simp
next
  case (Cons a s)
  show ?case
  proof (cases "a = c")
    case True
    with Cons.prems have "x = rev acc \<or> x \<in> set (splitAux [c] [] s)" by simp
    with Cons.prems(1) Cons.IH [of "[]"] show ?thesis by auto
  next
    case False
    with Cons.prems have "c \<notin> set (a # acc)" "x \<in> set (splitAux [c] (a # acc) s)" by auto
    then show ?thesis by (rule Cons.IH)
  qed
qed

lemma Split_pieces: "x \<in> set (Split s [c]) \<Longrightarrow> c \<notin> set x"
  using splitAux_pieces [of c "[]"] by (simp add: Split_def)

text \<open>\<open>strings.SplitN (s, sep, 2)\<close> on a one-byte separator.\<close>

definition SplitN2 :: "bytes \<Rightarrow> char \<Rightarrow> bytes list" where
  "SplitN2 s c = (case Cut s c of None \<Rightarrow> [s] | Some (a, b) \<Rightarrow> [a, b])"

subsection \<open>TrimSpace\<close>

text \<open>The UTF-8 encodings of the code points \<open>unicode.IsSpace\<close> accepts.\<close>

definition space_encodings :: "bytes list" where
  "space_encodings = map (map char_of)
     ([[9], [10], [11], [12], [13], [32], [0xC2, 0x85], [0xC2, 0xA0], [0xE1, 0x9A, 0x80],
       [0xE2, 0x80, 0xA8], [0xE2, 0x80, 0xA9], [0xE2, 0x80, 0xAF], [0xE2, 0x81, 0x9F],
       [0xE3, 0x80, 0x80]] @ map (\<lambda>n. [0xE2, 0x80, n]) [(0x80 :: nat)..<0x8B])"

function trimWith :: "bytes list \<Rightarrow> bytes \<Rightarrow> bytes" where
  "trimWith encs s =
     (case find (\<lambda>e. e \<noteq> [] \<and> HasPrefix s e) encs of
        None \<Rightarrow> s
      | Some e \<Rightarrow> trimWith encs (drop (length e) s))"
  by pat_completeness auto
termination
proof (relation "measure (\<lambda>(encs, s). length s)")
  show "wf (measure (\<lambda>(encs, s). length s))" by simp
next
  fix encs s and e :: bytes
  assume "find (\<lambda>e. e \<noteq> [] \<and> HasPrefix s e) encs = Some e"
  then have "e \<noteq> []" "HasPrefix s e" by (auto simp: find_Some_iff)
  then have "0 < length e" "length e \<le> length s" by (auto simp: HasPrefix_def)
  then have "length s - length e < length s" by linarith
  then show "((encs, drop (length e) s), encs, s) \<in> measure (\<lambda>(encs, s). length s)"
    by simp
qed

declare trimWith.simps [simp del]

definition TrimSpace :: "bytes \<Rightarrow> bytes" where
  "TrimSpace s = rev (trimWith (map rev space_encodings) (rev (trimWith space_encodings s)))"

lemma trimWith_id: "find (\<lambda>e. e \<noteq> [] \<and> HasPrefix s e) encs = None \<Longrightarrow> trimWith encs s = s"
  by (subst trimWith.simps) simp

lemma trimWith_suffix: "suffix (trimWith encs s) s"
proof (induction encs s rule: trimWith.induct)
  case (1 encs s)
  show ?case
  proof (cases "find (\<lambda>e. e \<noteq> [] \<and> HasPrefix s e) encs")
    case None
    then show ?thesis by (simp add: trimWith_id)
  next
    case (Some e)
    then have "suffix (trimWith encs (drop (length e) s)) (drop (length e) s)" by (rule 1)
    with Some show ?thesis
      by (subst trimWith.simps) (auto intro: suffix_order.trans suffix_drop)
  qed
qed

lemma TrimSpace_plain:
  "find (\<lambda>e. e \<noteq> [] \<and> HasPrefix s e) space_encodings = None \<Longrightarrow>
   find (\<lambda>e. e \<noteq> [] \<and> HasPrefix (rev s) e) (map rev space_encodings) = None \<Longrightarrow> TrimSpace s = s"
  by (simp add: TrimSpace_def trimWith_id)

text \<open>Printable ASCII other than the blank has no white space.\<close>

definition visible :: "char set" where
  "visible = {c. 33 \<le> (of_char c :: nat) \<and> of_char c \<le> (126 :: nat)}"

lemma space_encodings_ends:
  "list_all (\<lambda>e. e \<noteq> [] \<and> hd e \<notin> visible \<and> last e \<notin> visible) space_encodings"
proof -
  have "list_all (\<lambda>ns. ns \<noteq> [] \<and> \<not> (33 \<le> hd ns \<and> hd ns \<le> 126) \<and> \<not> (33 \<le> last ns \<and> last ns \<le> 126) \<and>
        hd ns < 256 \<and> last ns < 256)
     ([[9], [10], [11], [12], [13], [32], [0xC2, 0x85], [0xC2, 0xA0], [0xE1, 0x9A, 0x80],
       [0xE2, 0x80, 0xA8], [0xE2, 0x80, 0xA9], [0xE2, 0x80, 0xAF], [0xE2, 0x81, 0x9F],
       [0xE3, 0x80, 0x80]] @ map (\<lambda>n. [0xE2, 0x80, n]) [(0x80 :: nat)..<0x8B])"
    by (simp add: upt_rec)
  then show ?thesis
    unfolding space_encodings_def list_all_iff by (fastforce simp: hd_map last_map visible_def)
qed

lemma HasPrefix_hd: "HasPrefix s e \<Longrightarrow> e \<noteq> [] \<Longrightarrow> s \<noteq> [] \<and> hd e = hd s"
  by (cases e; cases s) auto

lemma trimWith_visible:
  assumes "list_all (\<lambda>e. hd e \<notin> visible) encs" and "hd s \<in> visible \<or> s = []"
  shows "trimWith encs s = s"
  using assms by (intro trimWith_id) (auto simp: find_None_iff list_all_iff dest!: HasPrefix_hd)

lemma visible_heads:
  "list_all (\<lambda>e. hd e \<notin> visible) space_encodings" "list_all (\<lambda>e. hd e \<notin> visible) (map rev space_encodings)"
  using space_encodings_ends by (auto simp: list_all_iff hd_rev)

lemma visible_ends: "set s \<subseteq> visible \<Longrightarrow> s \<noteq> [] \<Longrightarrow> hd s \<in> visible \<and> last s \<in> visible"
  by (meson hd_in_set last_in_set subsetD)

lemma TrimSpace_visible: "set s \<subseteq> visible \<Longrightarrow> TrimSpace s = s"
  using visible_ends [of s]
  by (cases "s = []") (simp_all add: TrimSpace_def trimWith_visible visible_heads hd_rev)

lemma space_encodings_head: "space_encodings = [[CHR 0x09], [CHR 0x0A]] @ drop 2 space_encodings"
  by (simp add: space_encodings_def char_of_eq_iff)

lemma TrimSpace_newline:
  assumes "set s \<subseteq> visible" and "s \<noteq> []"
  shows "TrimSpace (s @ [CHR 0x0A]) = s"
proof -
  note ends = visible_ends [OF assms]
  have "trimWith space_encodings (s @ [CHR 0x0A]) = s @ [CHR 0x0A]"
    using ends assms(2) by (simp add: trimWith_visible visible_heads hd_append)
  moreover have "trimWith (map rev space_encodings) (rev s) = rev s"
    using ends assms(2) by (simp add: trimWith_visible visible_heads hd_rev)
  moreover have "find (\<lambda>e. e \<noteq> [] \<and> HasPrefix (CHR 0x0A # rev s) e) (map rev space_encodings) = Some [CHR 0x0A]"
    by (subst space_encodings_head) simp
  ultimately show ?thesis
    by (simp add: TrimSpace_def) (subst trimWith.simps, simp)
qed

end
