(* ===== verification/Encoding.thy ===== *)
theory Encoding
  imports GoStrings
begin

text \<open>
  Numbers and binary data as text, again models of Go's standard library: \<open>%d\<close> of a
  natural number, \<open>strconv.ParseUint\<close>, \<open>hex.EncodeToString\<close> and \<open>hex.DecodeString\<close>,
  \<open>base64.StdEncoding\<close>. Each printer comes with the parser it round-trips with.
\<close>

subsection \<open>Codecs\<close>

text \<open>The contract of a printer and its parser, which the four pairs below keep: what was printed
  is read back, so nothing is lost in print.\<close>

locale text_codec =
  fixes enc :: "'a \<Rightarrow> bytes" and dec :: "bytes \<Rightarrow> 'a option"
  assumes dec_enc: "dec (enc x) = Some x"
begin

lemma enc_eq_iff: "enc x = enc y \<longleftrightarrow> x = y"
  by (metis dec_enc option.inject)

lemma enc_not_Nil: "dec [] \<noteq> Some x \<Longrightarrow> enc x \<noteq> []"
  using dec_enc [of x] by auto

end

subsection \<open>Decimal printing\<close>

definition digit_chars :: bytes where
  "digit_chars = ''0123456789abcdef''"

definition digit_char :: "nat \<Rightarrow> char" where
  "digit_char n = digit_chars ! n"

fun show_nat :: "nat \<Rightarrow> bytes" where
  "show_nat n = (if n < 10 then [digit_char n] else show_nat (n div 10) @ [digit_char (n mod 10)])"

declare show_nat.simps [simp del]

definition decimal_chars :: "char set" where
  "decimal_chars = set ''0123456789''"

lemma less_16_cases:
  assumes "(n :: nat) < 16"
  shows "n \<in> {0, 1, 2, 3, 4, 5, 6, 7, 8, 9, 10, 11, 12, 13, 14, 15}"
  using assms unfolding insert_iff empty_iff by presburger

lemma less_10_cases:
  assumes "(n :: nat) < 10"
  shows "n \<in> {0, 1, 2, 3, 4, 5, 6, 7, 8, 9}"
  using assms unfolding insert_iff empty_iff by presburger

lemma digit_char_decimal: "n < 10 \<Longrightarrow> digit_char n \<in> decimal_chars"
  by (auto dest!: less_10_cases simp: digit_char_def digit_chars_def decimal_chars_def)

lemma show_nat_decimal: "set (show_nat n) \<subseteq> decimal_chars"
proof (induction n rule: show_nat.induct)
  case (1 n)
  then show ?case
    by (subst show_nat.simps) (auto simp: digit_char_decimal)
qed

lemma show_nat_not_Nil [simp]: "show_nat n \<noteq> []"
  by (subst show_nat.simps) simp

lemma length_show_nat: "n < 10 ^ k \<Longrightarrow> 0 < k \<Longrightarrow> length (show_nat n) \<le> k"
proof (induction n arbitrary: k rule: show_nat.induct)
  case (1 n)
  show ?case
  proof (cases "n < 10")
    case True
    with 1 show ?thesis by (subst show_nat.simps) simp
  next
    case False
    with "1.prems" obtain j where k: "k = Suc j" "0 < j"
      by (cases k; cases "k - 1") auto
    with "1.prems" have "n div 10 < 10 ^ j" by (simp add: less_mult_imp_div_less mult.commute)
    with False k have "length (show_nat (n div 10)) \<le> j" by (intro "1.IH")
    with False k show ?thesis by (subst show_nat.simps) simp
  qed
qed

subsection \<open>Digits and ParseUint\<close>

definition digit_val :: "char \<Rightarrow> nat option" where
  "digit_val c =
     (let n = of_char c in
      if 48 \<le> n \<and> n \<le> 57 then Some (n - 48)
      else if 97 \<le> n \<and> n \<le> 122 then Some (n - 87)
      else if 65 \<le> n \<and> n \<le> 90 then Some (n - 55)
      else None)"

lemma digit_val_digit_char: "n < 16 \<Longrightarrow> digit_val (digit_char n) = Some n"
  by (auto dest!: less_16_cases simp: digit_char_def digit_chars_def digit_val_def)

text \<open>Value of a digit string read from the left; \<open>None\<close> on a character that is no digit
  of the base.\<close>

fun digits_val :: "nat \<Rightarrow> nat \<Rightarrow> bytes \<Rightarrow> nat option" where
  "digits_val base acc [] = Some acc"
| "digits_val base acc (c # cs) =
     (case digit_val c of
        None \<Rightarrow> None
      | Some d \<Rightarrow> if base \<le> d then None else digits_val base (acc * base + d) cs)"

lemma digits_val_append:
  "digits_val base acc (xs @ ys) =
     (case digits_val base acc xs of None \<Rightarrow> None | Some v \<Rightarrow> digits_val base v ys)"
  by (induction xs arbitrary: acc) (auto split: option.splits)

lemma digits_val_show_nat: "digits_val 10 0 (show_nat n) = Some n"
proof (induction n rule: show_nat.induct)
  case (1 n)
  show ?case
  proof (cases "n < 10")
    case True
    then show ?thesis by (subst show_nat.simps) (simp add: digit_val_digit_char)
  next
    case False
    with 1 show ?thesis
      by (subst show_nat.simps) (simp add: digits_val_append digit_val_digit_char)
  qed
qed

interpretation decimal: text_codec show_nat "digits_val 10 0"
  by unfold_locales (rule digits_val_show_nat)

text \<open>\<open>strconv.ParseUint (s, base, 64)\<close> for bases 10 and 16: the empty string, a character
  that is no digit and a value of \<open>2 ^ 64\<close> or more are errors.\<close>

definition ParseUint :: "nat \<Rightarrow> bytes \<Rightarrow> u64 option" where
  "ParseUint base s =
     (if s = [] then None
      else case digits_val base 0 s of
        None \<Rightarrow> None
      | Some v \<Rightarrow> if v < 2 ^ 64 then Some (of_nat v) else None)"

lemma ParseUint_show_nat: "n < 2 ^ 64 \<Longrightarrow> ParseUint 10 (show_nat n) = Some (of_nat n)"
  by (simp add: ParseUint_def digits_val_show_nat)

text \<open>Printing in hexadecimal, the inverse of \<open>ParseUint 16\<close>.\<close>

fun show_hex :: "nat \<Rightarrow> bytes" where
  "show_hex n = (if n < 16 then [digit_char n] else show_hex (n div 16) @ [digit_char (n mod 16)])"

declare show_hex.simps [simp del]

lemma show_hex_not_Nil [simp]: "show_hex n \<noteq> []"
  by (subst show_hex.simps) simp

lemma digits_val_show_hex: "digits_val 16 0 (show_hex n) = Some n"
proof (induction n rule: show_hex.induct)
  case (1 n)
  show ?case
  proof (cases "n < 16")
    case True
    then show ?thesis by (subst show_hex.simps) (simp add: digit_val_digit_char)
  next
    case False
    with 1 show ?thesis
      by (subst show_hex.simps) (simp add: digits_val_append digit_val_digit_char)
  qed
qed

interpretation hexadecimal: text_codec show_hex "digits_val 16 0"
  by unfold_locales (rule digits_val_show_hex)

subsection \<open>encoding/hex\<close>

definition hex_byte :: "char \<Rightarrow> bytes" where
  "hex_byte c = [digit_char (of_char c div 16), digit_char (of_char c mod 16)]"

definition hex_encode :: "bytes \<Rightarrow> bytes" where
  "hex_encode bs = concat (map hex_byte bs)"

definition hex_digit :: "char \<Rightarrow> nat option" where
  "hex_digit c = (case digit_val c of None \<Rightarrow> None | Some d \<Rightarrow> if d < 16 then Some d else None)"

fun hex_decode :: "bytes \<Rightarrow> bytes option" where
  "hex_decode [] = Some []"
| "hex_decode [c] = None"
| "hex_decode (a # b # cs) =
     (case (hex_digit a, hex_digit b) of
        (Some x, Some y) \<Rightarrow> map_option (Cons (char_of (16 * x + y))) (hex_decode cs)
      | _ \<Rightarrow> None)"

lemma of_char_bound: "of_char (c :: char) < (256 :: nat)"
  by simp

lemma length_hex_encode [simp]: "length (hex_encode bs) = 2 * length bs"
  by (induction bs) (auto simp: hex_encode_def hex_byte_def)

lemma hex_encode_simps [simp]:
  "hex_encode [] = []" "hex_encode (b # bs) = hex_byte b @ hex_encode bs"
  by (simp_all add: hex_encode_def)

lemma hex_encode_append [simp]: "hex_encode (xs @ ys) = hex_encode xs @ hex_encode ys"
  by (simp add: hex_encode_def)

lemma hex_encode_take: "take (2 * n) (hex_encode bs) = hex_encode (take n bs)"
proof (induction bs arbitrary: n)
  case Nil
  then show ?case by simp
next
  case (Cons b bs)
  then show ?case by (cases n) (auto simp: hex_byte_def)
qed

lemma hex_encode_drop: "drop (2 * n) (hex_encode bs) = hex_encode (drop n bs)"
proof (induction bs arbitrary: n)
  case Nil
  then show ?case by simp
next
  case (Cons b bs)
  then show ?case by (cases n) (auto simp: hex_byte_def)
qed

lemma nat_div_bound: "(x :: nat) < k * m \<Longrightarrow> x div m < k"
  by (rule less_mult_imp_div_less)

lemma byte_nibbles: "of_char (b :: char) div 16 < (16 :: nat)" "of_char b mod 16 < (16 :: nat)"
  using of_char_bound [of b] by (simp_all add: nat_div_bound)

lemma hex_decode_encode: "hex_decode (hex_encode bs) = Some bs"
  by (induction bs)
     (simp_all add: hex_byte_def hex_digit_def digit_val_digit_char byte_nibbles)

interpretation hex: text_codec hex_encode hex_decode
  by unfold_locales (rule hex_decode_encode)

subsection \<open>encoding/base64, StdEncoding\<close>

definition b64_alphabet :: bytes where
  "b64_alphabet = ''ABCDEFGHIJKLMNOPQRSTUVWXYZabcdefghijklmnopqrstuvwxyz0123456789+/''"

definition b64_char :: "nat \<Rightarrow> char" where
  "b64_char n = b64_alphabet ! n"

definition b64_val :: "char \<Rightarrow> nat option" where
  "b64_val c = pos_in c b64_alphabet"

definition b64_pad :: char where
  "b64_pad = CHR ''=''"

fun b64_encode :: "bytes \<Rightarrow> bytes" where
  "b64_encode [] = []"
| "b64_encode [a] =
     (let x = of_char a :: nat in
      [b64_char (x div 4), b64_char (x mod 4 * 16), b64_pad, b64_pad])"
| "b64_encode [a, b] =
     (let x = of_char a :: nat; y = of_char b in
      [b64_char (x div 4), b64_char (x mod 4 * 16 + y div 16), b64_char (y mod 16 * 4), b64_pad])"
| "b64_encode (a # b # c # cs) =
     (let x = of_char a :: nat; y = of_char b; z = of_char c in
      b64_char (x div 4) # b64_char (x mod 4 * 16 + y div 16) #
      b64_char (y mod 16 * 4 + z div 64) # b64_char (z mod 64) # b64_encode cs)"

text \<open>
  \<open>DecodeString\<close> skips CR and LF; padding is accepted at the end of the last quantum only
  and the unused bits of a padded quantum are ignored (the encoding is not strict).
\<close>

fun b64_quanta :: "bytes \<Rightarrow> bytes option" where
  "b64_quanta [] = Some []"
| "b64_quanta (a # b # c # d # rest) =
     (case (b64_val a, b64_val b) of
        (Some w, Some x) \<Rightarrow>
          (case b64_val c of
             None \<Rightarrow>
               if c = b64_pad \<and> d = b64_pad \<and> rest = []
               then Some [char_of (w * 4 + x div 16)] else None
           | Some y \<Rightarrow>
               (case b64_val d of
                  None \<Rightarrow>
                    if d = b64_pad \<and> rest = []
                    then Some [char_of (w * 4 + x div 16), char_of (x mod 16 * 16 + y div 4)]
                    else None
                | Some z \<Rightarrow>
                    map_option
                      (\<lambda>r. char_of (w * 4 + x div 16) # char_of (x mod 16 * 16 + y div 4) #
                           char_of (y mod 4 * 64 + z) # r)
                      (b64_quanta rest)))
      | _ \<Rightarrow> None)"
| "b64_quanta _ = None"

definition b64_decode :: "bytes \<Rightarrow> bytes option" where
  "b64_decode s = b64_quanta (filter (\<lambda>c. c \<noteq> CHR 10 \<and> c \<noteq> CHR 13) s)"

lemma b64_alphabet_facts:
  "distinct b64_alphabet" "length b64_alphabet = 64" "b64_pad \<notin> set b64_alphabet"
  "CHR 10 \<notin> set b64_alphabet" "CHR 13 \<notin> set b64_alphabet"
  by (simp_all add: b64_alphabet_def b64_pad_def)

lemma b64_val_char [simp]: "n < 64 \<Longrightarrow> b64_val (b64_char n) = Some n"
  by (simp add: b64_val_def b64_char_def pos_in_nth b64_alphabet_facts)

lemma b64_val_pad [simp]: "b64_val b64_pad = None"
  by (simp add: b64_val_def b64_alphabet_facts)

lemma digit_pair:
  assumes "(b :: nat) < k"
  shows "(a * k + b) div k = a" "(a * k + b) mod k = b"
  using assms by simp_all

lemma digit_pair_bound:
  assumes "(a :: nat) < m" "b < k"
  shows "a * k + b < m * k"
proof -
  from assms(2) have "a * k + b < Suc a * k" by simp
  also have "\<dots> \<le> m * k" using assms(1) by (intro mult_le_mono1) simp
  finally show ?thesis .
qed

lemma byte_split:
  fixes x :: nat
  assumes "x < 256"
  shows "x div 4 < 64" "x mod 4 < 4" "x div 16 < 16" "x mod 16 < 16" "x div 64 < 4" "x mod 64 < 64"
  using assms by (simp_all add: nat_div_bound)

lemma b64_sextets:
  fixes x y :: nat
  assumes "x < 256" "y < 256"
  shows "x div 4 < 64" "x mod 4 * 16 < 64" "x mod 4 * 16 + y div 16 < 64"
    "x mod 16 * 4 < 64" "x mod 16 * 4 + y div 64 < 64" "x mod 64 < 64"
  using byte_split [OF assms(1)] byte_split [OF assms(2)]
    digit_pair_bound [of "x mod 4" 4 "y div 16" 16] digit_pair_bound [of "x mod 16" 16 "y div 64" 4]
  by simp_all

lemma b64_regroup:
  fixes x y z :: nat
  assumes "y < 256" "z < 256"
  shows "x div 4 * 4 + (x mod 4 * 16 + y div 16) div 16 = x"
    "x div 4 * 4 + x mod 4 * 16 div 16 = x"
    "(x mod 4 * 16 + y div 16) mod 16 * 16 + (y mod 16 * 4 + z div 64) div 4 = y"
    "(x mod 4 * 16 + y div 16) mod 16 * 16 + y mod 16 * 4 div 4 = y"
    "(y mod 16 * 4 + z div 64) mod 4 * 64 + z mod 64 = z"
  using byte_split [OF assms(1)] byte_split [OF assms(2)] by (simp_all only: digit_pair) simp_all

lemmas b64_byte_facts = byte_split [OF of_char_bound] b64_sextets [OF of_char_bound of_char_bound]
  b64_regroup [OF of_char_bound of_char_bound]

lemma b64_quanta_encode: "b64_quanta (b64_encode bs) = Some bs"
proof (induction bs rule: b64_encode.induct)
  case (2 a)
  show ?case
    by (simp add: Let_def b64_byte_facts del: One_nat_def)
next
  case (3 a b)
  show ?case
    by (simp add: Let_def b64_byte_facts del: One_nat_def)
next
  case (4 a b c cs)
  then show ?case
    by (simp add: Let_def b64_byte_facts del: One_nat_def)
qed simp

lemma b64_char_in: "n < 64 \<Longrightarrow> b64_char n \<in> set b64_alphabet"
  by (simp add: b64_char_def b64_alphabet_facts)

lemma b64_encode_alphabet: "set (b64_encode bs) \<subseteq> insert b64_pad (set b64_alphabet)"
  by (induction bs rule: b64_encode.induct) (auto simp: Let_def b64_byte_facts intro!: b64_char_in)

lemma b64_decode_encode: "b64_decode (b64_encode bs) = Some bs"
proof -
  have "c \<noteq> CHR 10 \<and> c \<noteq> CHR 13" if "c \<in> set (b64_encode bs)" for c
    using that b64_encode_alphabet [of bs] b64_alphabet_facts(4,5)
    by (auto simp: b64_pad_def)
  then have "filter (\<lambda>c. c \<noteq> CHR 10 \<and> c \<noteq> CHR 13) (b64_encode bs) = b64_encode bs"
    by (simp add: filter_id_conv)
  then show ?thesis by (simp add: b64_decode_def b64_quanta_encode)
qed

interpretation b64: text_codec b64_encode b64_decode
  by unfold_locales (rule b64_decode_encode)

end
