(* ===== verification/XatuConfig.thy ===== *)
theory XatuConfig
  imports Encoding
begin

text \<open>
  Configuration: \<open>xatu/config.go\<close> in full, and from \<open>cmd/snooper/main.go\<close> the arguments, their
  defaults from the environment and \<open>buildXatuConfig\<close>. Errors are constructors that carry what
  the message prints. Durations are nanoseconds. The flag library is outside (see \<open>Startup\<close>), and
  so is \<open>time.ParseDuration\<close>, whose fractions are floating point: it is a field of the environment.
\<close>

subsection \<open>The Xatu configuration\<close>

record keepalive_config =
  kaEnabled :: bool
  kaTime :: int
  kaTimeout :: int

record output_config =
  ocType :: bytes
  ocAddress :: bytes

record xatu_config =
  xcEnabled :: bool
  xcName :: bytes
  xcNetworkName :: bytes
  xcNetworkID :: u64
  xcLabels :: "bytes \<rightharpoonup> bytes"
  xcOutputs :: "output_config list"
  xcTLS :: bool
  xcHeaders :: "bytes \<rightharpoonup> bytes"
  xcMaxQueueSize :: int
  xcMaxExportBatchSize :: int
  xcWorkers :: int
  xcBatchTimeout :: int
  xcExportTimeout :: int
  xcKeepAlive :: keepalive_config

datatype config_error =
    NameRequired
  | NetworkNameRequired
  | NetworkIDRequired
  | OutputRequired
  | AddressRequired bytes
  | UnknownOutputType bytes
  | AtOutput nat config_error
  | EmptyFlag bytes
  | InvalidFormat bytes bytes
  | EmptyKey bytes
  | InFlag bytes bytes config_error

definition OutputTypeStdout :: bytes where "OutputTypeStdout = ''stdout''"
definition OutputTypeHTTP :: bytes where "OutputTypeHTTP = ''http''"
definition OutputTypeXatu :: bytes where "OutputTypeXatu = ''xatu''"
definition OutputTypeKafka :: bytes where "OutputTypeKafka = ''kafka''"

lemmas output_types = OutputTypeStdout_def OutputTypeHTTP_def OutputTypeXatu_def OutputTypeKafka_def

definition OutputConfig_Validate :: "output_config \<Rightarrow> config_error option" where
  "OutputConfig_Validate out =
     (if ocType out = OutputTypeStdout then None
      else if ocType out \<in> {OutputTypeHTTP, OutputTypeXatu, OutputTypeKafka}
      then (if ocAddress out = [] then Some (AddressRequired (ocType out)) else None)
      else Some (UnknownOutputType (ocType out)))"

fun validateOutputs :: "nat \<Rightarrow> output_config list \<Rightarrow> config_error option" where
  "validateOutputs i [] = None"
| "validateOutputs i (out # outs) =
     (case OutputConfig_Validate out of
        Some err \<Rightarrow> Some (AtOutput i err)
      | None \<Rightarrow> validateOutputs (i + 1) outs)"

definition Validate :: "xatu_config \<Rightarrow> config_error option" where
  "Validate c =
     (if \<not> xcEnabled c then None
      else if xcName c = [] then Some NameRequired
      else if xcNetworkName c = [] then Some NetworkNameRequired
      else if xcNetworkID c = 0 then Some NetworkIDRequired
      else if length (xcOutputs c) = 0 then Some OutputRequired
      else validateOutputs 0 (xcOutputs c))"

definition ParseOutputFlag :: "bytes \<Rightarrow> config_error + output_config" where
  "ParseOutputFlag s0 =
     (let s = TrimSpace s0
      in if s = [] then Inl (EmptyFlag ''output'')
         else if s = OutputTypeStdout then Inr \<lparr>ocType = OutputTypeStdout, ocAddress = []\<rparr>
         else case Index s '':'' of
                None \<Rightarrow> Inl (InvalidFormat ''output'' s)
              | Some idx \<Rightarrow> Inr \<lparr>ocType = take idx s, ocAddress = drop (idx + 1) s\<rparr>)"

definition parseKeyValueFlag :: "bytes \<Rightarrow> bytes \<Rightarrow> config_error + (bytes \<times> bytes)" where
  "parseKeyValueFlag s0 flagType =
     (let s = TrimSpace s0
      in if s = [] then Inl (EmptyFlag flagType)
         else case Cut s (CHR ''='') of
                None \<Rightarrow> Inl (InvalidFormat flagType s)
              | Some (key, val) \<Rightarrow> if key = [] then Inl (EmptyKey flagType) else Inr (key, val))"

definition ParseLabelFlag :: "bytes \<Rightarrow> config_error + (bytes \<times> bytes)" where
  "ParseLabelFlag s = parseKeyValueFlag s ''label''"

definition ParseHeaderFlag :: "bytes \<Rightarrow> config_error + (bytes \<times> bytes)" where
  "ParseHeaderFlag s = parseKeyValueFlag s ''header''"

subsection \<open>The environment\<close>

record environment =
  getenv :: "bytes \<Rightarrow> bytes"
  parseDuration :: "bytes \<Rightarrow> int option"

definition parseBool :: "bytes \<Rightarrow> bool option" where
  "parseBool s =
     (if s \<in> {''1'', ''t'', ''T'', ''true'', ''TRUE'', ''True''} then Some True
      else if s \<in> {''0'', ''f'', ''F'', ''false'', ''FALSE'', ''False''} then Some False
      else None)"

text \<open>\<open>strconv.Atoi\<close> on a 64-bit machine.\<close>

definition Atoi :: "bytes \<Rightarrow> int option" where
  "Atoi s =
     (let (neg, ds) = (case s of [] \<Rightarrow> (False, [])
                       | c # cs \<Rightarrow> if c = CHR ''-'' then (True, cs) else if c = CHR ''+'' then (False, cs) else (False, s))
      in if ds = [] then None
         else case digits_val 10 0 ds of
                None \<Rightarrow> None
              | Some n \<Rightarrow>
                  if neg then (if int n \<le> 2 ^ 63 then Some (- int n) else None)
                  else if int n < 2 ^ 63 then Some (int n) else None)"

definition getEnv :: "environment \<Rightarrow> (bytes \<Rightarrow> 'a option) \<Rightarrow> bytes \<Rightarrow> 'a \<Rightarrow> 'a" where
  "getEnv en parse key defaultValue =
     (if getenv en key \<noteq> []
      then (case parse (getenv en key) of None \<Rightarrow> defaultValue | Some parsed \<Rightarrow> parsed)
      else defaultValue)"

definition getEnvBool :: "environment \<Rightarrow> bytes \<Rightarrow> bool \<Rightarrow> bool" where
  "getEnvBool en = getEnv en parseBool"

definition getEnvString :: "environment \<Rightarrow> bytes \<Rightarrow> bytes \<Rightarrow> bytes" where
  "getEnvString en = getEnv en Some"

definition getEnvInt :: "environment \<Rightarrow> bytes \<Rightarrow> int \<Rightarrow> int" where
  "getEnvInt en = getEnv en Atoi"

definition getEnvUint64 :: "environment \<Rightarrow> bytes \<Rightarrow> u64 \<Rightarrow> u64" where
  "getEnvUint64 en = getEnv en (ParseUint 10)"

definition getEnvStringSlice :: "environment \<Rightarrow> bytes \<Rightarrow> bytes list" where
  "getEnvStringSlice en key = (if getenv en key \<noteq> [] then Split (getenv en key) '','' else [])"

definition getEnvDuration :: "environment \<Rightarrow> bytes \<Rightarrow> int \<Rightarrow> int" where
  "getEnvDuration en = getEnv en (parseDuration en)"

subsection \<open>Arguments\<close>

record cli_args =
  argVerbose :: bool
  argVersion :: bool
  argHelp :: bool
  argTarget :: bytes
  argBind :: bytes
  argPort :: int
  argNocolor :: bool
  argTruncate :: bool
  argNoapi :: bool
  argApiPort :: int
  argApiBind :: bytes
  argApiAuth :: bytes
  argMetricsPort :: int
  argMetricsBind :: bytes
  xatuEnabled :: bool
  xatuName :: bytes
  xatuNetworkName :: bytes
  xatuNetworkID :: u64
  xatuOutputs :: "bytes list"
  xatuLabels :: "bytes list"
  xatuTLS :: bool
  xatuHeaders :: "bytes list"
  xatuMaxQueueSize :: int
  xatuMaxExportBatchSize :: int
  xatuWorkers :: int
  xatuBatchTimeout :: int
  xatuExportTimeout :: int
  xatuKeepAliveEnabled :: bool
  xatuKeepAliveTime :: int
  xatuKeepAliveTimeout :: int
  argHideBodies :: bool
  argJwtSecret :: bytes

definition environmentArgs :: "environment \<Rightarrow> cli_args" where
  "environmentArgs en =
     \<lparr>argVerbose = getEnvBool en ''SNOOPER_VERBOSE'' False,
      argVersion = getEnvBool en ''SNOOPER_VERSION'' False,
      argHelp = getEnvBool en ''SNOOPER_HELP'' False,
      argTarget = [],
      argBind = getEnvString en ''SNOOPER_BIND_ADDRESS'' ''127.0.0.1'',
      argPort = getEnvInt en ''SNOOPER_PORT'' 3000,
      argNocolor = getEnvBool en ''SNOOPER_NO_COLOR'' False,
      argTruncate = getEnvBool en ''SNOOPER_TRUNCATE'' True,
      argNoapi = getEnvBool en ''SNOOPER_NO_API'' False,
      argApiPort = getEnvInt en ''SNOOPER_API_PORT'' 0,
      argApiBind = getEnvString en ''SNOOPER_API_BIND'' ''0.0.0.0'',
      argApiAuth = getEnvString en ''SNOOPER_API_AUTH'' [],
      argMetricsPort = getEnvInt en ''SNOOPER_METRICS_PORT'' 0,
      argMetricsBind = getEnvString en ''SNOOPER_METRICS_BIND'' ''127.0.0.1'',
      xatuEnabled = getEnvBool en ''SNOOPER_XATU_ENABLED'' False,
      xatuName = getEnvString en ''SNOOPER_XATU_NAME'' [],
      xatuNetworkName = getEnvString en ''SNOOPER_XATU_NETWORK_NAME'' [],
      xatuNetworkID = getEnvUint64 en ''SNOOPER_XATU_NETWORK_ID'' 0,
      xatuOutputs = getEnvStringSlice en ''SNOOPER_XATU_OUTPUTS'',
      xatuLabels = getEnvStringSlice en ''SNOOPER_XATU_LABELS'',
      xatuTLS = getEnvBool en ''SNOOPER_XATU_TLS'' False,
      xatuHeaders = getEnvStringSlice en ''SNOOPER_XATU_HEADERS'',
      xatuMaxQueueSize = getEnvInt en ''SNOOPER_XATU_MAX_QUEUE_SIZE'' 0,
      xatuMaxExportBatchSize = getEnvInt en ''SNOOPER_XATU_MAX_EXPORT_BATCH_SIZE'' 0,
      xatuWorkers = getEnvInt en ''SNOOPER_XATU_WORKERS'' 0,
      xatuBatchTimeout = getEnvDuration en ''SNOOPER_XATU_BATCH_TIMEOUT'' 0,
      xatuExportTimeout = getEnvDuration en ''SNOOPER_XATU_EXPORT_TIMEOUT'' 0,
      xatuKeepAliveEnabled = getEnvBool en ''SNOOPER_XATU_KEEPALIVE_ENABLED'' False,
      xatuKeepAliveTime = getEnvDuration en ''SNOOPER_XATU_KEEPALIVE_TIME'' 0,
      xatuKeepAliveTimeout = getEnvDuration en ''SNOOPER_XATU_KEEPALIVE_TIMEOUT'' 0,
      argHideBodies = getEnvBool en ''SNOOPER_HIDE_BODIES'' False,
      argJwtSecret = getEnvString en ''SNOOPER_JWT_SECRET'' []\<rparr>"

subsection \<open>From arguments to a configuration\<close>

text \<open>The loops over repeated flags; the first bad value is the error.\<close>

fun parseAll :: "bytes \<Rightarrow> (bytes \<Rightarrow> config_error + 'a) \<Rightarrow> bytes list \<Rightarrow> config_error + 'a list" where
  "parseAll what parse [] = Inr []"
| "parseAll what parse (s # ss) =
     (case parse s of
        Inl err \<Rightarrow> Inl (InFlag what s err)
      | Inr v \<Rightarrow> (case parseAll what parse ss of Inl err \<Rightarrow> Inl err | Inr vs \<Rightarrow> Inr (v # vs)))"

definition put_all :: "(bytes \<times> bytes) list \<Rightarrow> (bytes \<rightharpoonup> bytes)" where
  "put_all kvs = fold (\<lambda>(k, v) m. m(k \<mapsto> v)) kvs Map.empty"

text \<open>The zero value of a configuration.\<close>

definition disabled_config :: xatu_config where
  "disabled_config =
     \<lparr>xcEnabled = False, xcName = [], xcNetworkName = [], xcNetworkID = 0, xcLabels = Map.empty, xcOutputs = [],
      xcTLS = False, xcHeaders = Map.empty, xcMaxQueueSize = 0, xcMaxExportBatchSize = 0, xcWorkers = 0,
      xcBatchTimeout = 0, xcExportTimeout = 0,
      xcKeepAlive = \<lparr>kaEnabled = False, kaTime = 0, kaTimeout = 0\<rparr>\<rparr>"

definition buildXatuConfig :: "cli_args \<Rightarrow> config_error + xatu_config" where
  "buildXatuConfig a =
     (if \<not> xatuEnabled a then Inr disabled_config
      else case parseAll ''output'' ParseOutputFlag (xatuOutputs a) of
             Inl err \<Rightarrow> Inl err
           | Inr outs \<Rightarrow>
               (case parseAll ''label'' ParseLabelFlag (xatuLabels a) of
                  Inl err \<Rightarrow> Inl err
                | Inr labels \<Rightarrow>
                    (case parseAll ''header'' ParseHeaderFlag (xatuHeaders a) of
                       Inl err \<Rightarrow> Inl err
                     | Inr headers \<Rightarrow> Inr
                         \<lparr>xcEnabled = True, xcName = xatuName a, xcNetworkName = xatuNetworkName a,
                          xcNetworkID = xatuNetworkID a, xcLabels = put_all labels, xcOutputs = outs,
                          xcTLS = xatuTLS a, xcHeaders = put_all headers,
                          xcMaxQueueSize = xatuMaxQueueSize a,
                          xcMaxExportBatchSize = xatuMaxExportBatchSize a, xcWorkers = xatuWorkers a,
                          xcBatchTimeout = xatuBatchTimeout a, xcExportTimeout = xatuExportTimeout a,
                          xcKeepAlive = \<lparr>kaEnabled = xatuKeepAliveEnabled a, kaTime = xatuKeepAliveTime a,
                            kaTimeout = xatuKeepAliveTimeout a\<rparr>\<rparr>)))"

subsection \<open>Lemmas\<close>

lemma validateOutputs_None: "validateOutputs i outs = None \<longleftrightarrow> list_all (\<lambda>out. OutputConfig_Validate out = None) outs"
  by (induction outs arbitrary: i) (auto split: option.splits)

lemma validateOutputs_append:
  "list_all (\<lambda>out. OutputConfig_Validate out = None) outs \<Longrightarrow> OutputConfig_Validate out = Some err \<Longrightarrow>
     validateOutputs i (outs @ out # outs') = Some (AtOutput (i + length outs) err)"
  by (induction outs arbitrary: i) auto

lemma buildXatuConfig_outputs:
  assumes "buildXatuConfig a = Inr c" and "xcEnabled c"
  shows "parseAll ''output'' ParseOutputFlag (xatuOutputs a) = Inr (xcOutputs c)"
  using assms by (auto simp: buildXatuConfig_def disabled_config_def split: if_splits sum.splits)

text \<open>A text that survives trimming and splitting at commas.\<close>

definition clean :: "bytes \<Rightarrow> bool" where
  "clean s \<longleftrightarrow> TrimSpace s = s \<and> CHR '','' \<notin> set s"

definition show_output :: "output_config \<Rightarrow> bytes" where
  "show_output out =
     (if ocType out = OutputTypeStdout \<and> ocAddress out = [] then OutputTypeStdout
      else ocType out @ '':'' @ ocAddress out)"

definition show_pair :: "bytes \<times> bytes \<Rightarrow> bytes" where
  "show_pair kv = fst kv @ ''='' @ snd kv"

lemma colon_not_stdout: "a @ CHR '':'' # b \<noteq> OutputTypeStdout"
proof
  assume "a @ CHR '':'' # b = OutputTypeStdout"
  then have "CHR '':'' \<in> set OutputTypeStdout" by (metis in_set_conv_decomp)
  then show False by (simp add: output_types)
qed

lemma ParseOutputFlag_typed:
  assumes "TrimSpace (t @ CHR '':'' # a) = t @ CHR '':'' # a" and "CHR '':'' \<notin> set t"
  shows "ParseOutputFlag (t @ CHR '':'' # a) = Inr \<lparr>ocType = t, ocAddress = a\<rparr>"
  using assms(2) colon_not_stdout by (simp add: ParseOutputFlag_def assms(1) Index_char_append)

lemma ParseOutputFlag_show:
  assumes "clean (show_output out)" and "CHR '':'' \<notin> set (ocType out)"
  shows "ParseOutputFlag (show_output out) = Inr out"
proof (cases "ocType out = OutputTypeStdout \<and> ocAddress out = []")
  case True
  with assms show ?thesis by (simp add: ParseOutputFlag_def clean_def show_output_def output_types)
next
  case False
  then have s: "show_output out = ocType out @ CHR '':'' # ocAddress out" by (simp add: show_output_def)
  with assms have "TrimSpace (ocType out @ CHR '':'' # ocAddress out) = ocType out @ CHR '':'' # ocAddress out"
    by (simp add: clean_def)
  with assms(2) show ?thesis by (simp add: s ParseOutputFlag_typed)
qed

lemma parseKeyValueFlag_show:
  assumes "clean (show_pair kv)" and "CHR ''='' \<notin> set (fst kv)" and "fst kv \<noteq> []"
  shows "parseKeyValueFlag (show_pair kv) what = Inr kv"
  using assms by (cases kv) (simp add: parseKeyValueFlag_def clean_def show_pair_def)

lemma parseAll_map:
  "list_all (\<lambda>x. parse (f x) = Inr x) xs \<Longrightarrow> parseAll what parse (map f xs) = Inr xs"
  by (induction xs) auto

lemma getEnvStringSlice_Join:
  assumes "getenv en key = Join (map f xs) '',''" and "list_all (\<lambda>x. clean (f x) \<and> f x \<noteq> []) xs"
  shows "getEnvStringSlice en key = map f xs"
proof (cases "xs = []")
  case False
  then have "Join (map f xs) '','' \<noteq> []"
    using assms(2) by (cases xs; cases "tl xs") auto
  moreover have "Split (Join (map f xs) '','') '','' = map f xs"
    using assms(2) False by (intro Split_Join_char) (auto simp: clean_def list_all_iff)
  ultimately show ?thesis using assms(1) by (simp add: getEnvStringSlice_def)
qed (use assms in \<open>simp add: getEnvStringSlice_def\<close>)

subsection \<open>Properties\<close>

text \<open>What \<open>Validate\<close> accepts: a disabled configuration, or one with a name, a network name, a
  network id and outputs that are all of a known type with an address, which only stdout may
  lack.\<close>

theorem validate_accepts:
  "Validate c = None \<longleftrightarrow>
    (if xcEnabled c
     then xcName c \<noteq> [] \<and> xcNetworkName c \<noteq> [] \<and> xcNetworkID c \<noteq> 0 \<and> xcOutputs c \<noteq> [] \<and>
       list_all (\<lambda>out. ocType out = ''stdout'' \<or> ocType out \<in> {''http'', ''xatu'', ''kafka''} \<and> ocAddress out \<noteq> [])
         (xcOutputs c)
     else True)"
proof -
  have "OutputConfig_Validate out = None \<longleftrightarrow>
      ocType out = ''stdout'' \<or> ocType out \<in> {''http'', ''xatu'', ''kafka''} \<and> ocAddress out \<noteq> []" for out
    by (auto simp: OutputConfig_Validate_def output_types)
  then show ?thesis by (simp add: Validate_def validateOutputs_None)
qed

definition good_output :: "output_config \<Rightarrow> bool" where
  "good_output out \<longleftrightarrow> clean (show_output out) \<and> CHR '':'' \<notin> set (ocType out)"

definition good_pair :: "bytes \<times> bytes \<Rightarrow> bool" where
  "good_pair kv \<longleftrightarrow> clean (show_pair kv) \<and> CHR ''='' \<notin> set (fst kv) \<and> fst kv \<noteq> []"

lemma good_output_parse: "good_output out \<Longrightarrow> ParseOutputFlag (show_output out) = Inr out"
  by (simp add: good_output_def ParseOutputFlag_show)

lemma good_pair_parse: "good_pair kv \<Longrightarrow> parseKeyValueFlag (show_pair kv) what = Inr kv"
  by (simp add: good_pair_def parseKeyValueFlag_show)

text \<open>C22: Outputs, labels and headers written as comma lists into the environment come back as the
  configuration's lists and maps, as long as no item has a comma or outer white space, no type
  a colon and no key an equals sign.\<close>

theorem configuration_roundtrip:
  assumes "getEnvBool en ''SNOOPER_XATU_ENABLED'' False"
    and "getenv en ''SNOOPER_XATU_OUTPUTS'' = Join (map show_output outs) '',''"
    and "getenv en ''SNOOPER_XATU_LABELS'' = Join (map show_pair labels) '',''"
    and "getenv en ''SNOOPER_XATU_HEADERS'' = Join (map show_pair headers) '',''"
    and "list_all good_output outs" and "list_all good_pair labels" and "list_all good_pair headers"
  shows "\<exists>c. buildXatuConfig (environmentArgs en) = Inr c \<and> xcEnabled c \<and> xcOutputs c = outs \<and>
    xcLabels c = put_all labels \<and> xcHeaders c = put_all headers"
proof -
  have o: "getEnvStringSlice en ''SNOOPER_XATU_OUTPUTS'' = map show_output outs"
    using assms(5) by (intro getEnvStringSlice_Join [OF assms(2)])
      (auto simp: list_all_iff good_output_def show_output_def output_types)
  have l: "getEnvStringSlice en ''SNOOPER_XATU_LABELS'' = map show_pair labels"
    using assms(6) by (intro getEnvStringSlice_Join [OF assms(3)])
      (auto simp: list_all_iff good_pair_def show_pair_def)
  have h: "getEnvStringSlice en ''SNOOPER_XATU_HEADERS'' = map show_pair headers"
    using assms(7) by (intro getEnvStringSlice_Join [OF assms(4)])
      (auto simp: list_all_iff good_pair_def show_pair_def)
  have "parseAll w ParseOutputFlag (map show_output outs) = Inr outs" for w
    using assms(5) by (intro parseAll_map) (auto simp: list_all_iff good_output_parse)
  moreover have "parseAll w (\<lambda>s. parseKeyValueFlag s v) (map show_pair labels) = Inr labels" for w v
    using assms(6) by (intro parseAll_map) (auto simp: list_all_iff good_pair_parse)
  moreover have "parseAll w (\<lambda>s. parseKeyValueFlag s v) (map show_pair headers) = Inr headers" for w v
    using assms(7) by (intro parseAll_map) (auto simp: list_all_iff good_pair_parse)
  ultimately show ?thesis
    using assms(1)
    by (simp add: buildXatuConfig_def environmentArgs_def o l h ParseLabelFlag_def [abs_def] ParseHeaderFlag_def [abs_def])
qed

definition sample_environment :: environment where
  "sample_environment =
     \<lparr>getenv = (\<lambda>k. if k = ''SNOOPER_XATU_ENABLED'' then ''true''
        else if k = ''SNOOPER_XATU_OUTPUTS'' then ''stdout,xatu:x.org:8080''
        else if k = ''SNOOPER_XATU_LABELS'' then ''client=geth'' else []),
      parseDuration = (\<lambda>_. None)\<rparr>"

theorem configuration_roundtrip_witness:
  "\<exists>c. buildXatuConfig (environmentArgs sample_environment) = Inr c \<and> xcEnabled c \<and>
     xcOutputs c = [\<lparr>ocType = ''stdout'', ocAddress = []\<rparr>, \<lparr>ocType = ''xatu'', ocAddress = ''x.org:8080''\<rparr>] \<and>
     xcLabels c = [''client'' \<mapsto> ''geth''] \<and> xcHeaders c = Map.empty"
proof -
  have t: "TrimSpace ''stdout'' = ''stdout''" "TrimSpace ''xatu:x.org:8080'' = ''xatu:x.org:8080''"
    "TrimSpace ''client=geth'' = ''client=geth''"
    by (simp_all add: TrimSpace_visible visible_def)
  show ?thesis
    using configuration_roundtrip [of sample_environment
        "[\<lparr>ocType = ''stdout'', ocAddress = []\<rparr>, \<lparr>ocType = ''xatu'', ocAddress = ''x.org:8080''\<rparr>]"
        "[(''client'', ''geth'')]" "[]"]
    by (simp add: sample_environment_def getEnvBool_def getEnv_def parseBool_def show_output_def output_types
        show_pair_def good_output_def good_pair_def clean_def t put_all_def)
qed

text \<open>A Kafka output with two brokers cannot be given through the environment: the comma
  between them ends the output, the rest is read as an output of its own whose type is the
  second broker's host, and the configuration is rejected.\<close>

theorem kafka_brokers_are_split:
  assumes "getenv en ''SNOOPER_XATU_OUTPUTS'' = ''kafka:'' @ broker1 @ '','' @ host @ '':'' @ port"
    and "CHR '','' \<notin> set (broker1 @ host @ port)" and "CHR '':'' \<notin> set host" and "broker1 \<noteq> []"
    and "TrimSpace (''kafka:'' @ broker1) = ''kafka:'' @ broker1"
    and "TrimSpace (host @ '':'' @ port) = host @ '':'' @ port"
    and "OutputConfig_Validate \<lparr>ocType = host, ocAddress = port\<rparr> = Some err"
    and "buildXatuConfig (environmentArgs en) = Inr c" and "xcEnabled c"
    and "xcName c \<noteq> []" "xcNetworkName c \<noteq> []" "xcNetworkID c \<noteq> 0"
  shows "xcOutputs c = [\<lparr>ocType = ''kafka'', ocAddress = broker1\<rparr>, \<lparr>ocType = host, ocAddress = port\<rparr>] \<and>
    Validate c = Some (AtOutput 1 err)"
proof -
  let ?o1 = "\<lparr>ocType = ''kafka'', ocAddress = broker1\<rparr>" and ?o2 = "\<lparr>ocType = host, ocAddress = port\<rparr>"
  let ?k = "''kafka'' @ CHR '':'' # broker1" and ?h = "host @ CHR '':'' # port"
  have c: "CHR '','' \<notin> set ?k" "CHR '','' \<notin> set ?h" using assms(2) by auto
  have "Split (?k @ CHR '','' # ?h) '','' = [?k, ?h]"
    unfolding Split_def splitAux_char_append [OF c(1)] splitAux_char_absent [OF c(2)] by simp
  then have split: "getEnvStringSlice en ''SNOOPER_XATU_OUTPUTS'' = [?k, ?h]"
    using assms(1) by (simp add: getEnvStringSlice_def)
  have "TrimSpace ?k = ?k" using assms(5) by simp
  then have o1: "ParseOutputFlag ?k = Inr ?o1" by (rule ParseOutputFlag_typed) simp
  have "TrimSpace ?h = ?h" using assms(6) by simp
  then have o2: "ParseOutputFlag ?h = Inr ?o2" using assms(3) by (rule ParseOutputFlag_typed)
  have "parseAll ''output'' ParseOutputFlag [?k, ?h] = Inr [?o1, ?o2]"
    by (simp only: parseAll.simps o1 o2 sum.case)
  moreover have "xatuOutputs (environmentArgs en) = [?k, ?h]"
    by (simp only: environmentArgs_def cli_args.simps split)
  ultimately have outs: "xcOutputs c = [?o1, ?o2]"
    using buildXatuConfig_outputs [OF assms(8,9)] by simp
  have "OutputConfig_Validate ?o1 = None"
    using assms(4) by (simp add: OutputConfig_Validate_def output_types)
  with outs assms(7,9-12) show ?thesis by (simp add: Validate_def)
qed

definition kafka_environment :: environment where
  "kafka_environment =
     \<lparr>getenv = (\<lambda>k. if k = ''SNOOPER_XATU_ENABLED'' then ''true''
        else if k = ''SNOOPER_XATU_OUTPUTS'' then ''kafka:b1:9092,b2:9092/topic''
        else if k = ''SNOOPER_XATU_NETWORK_ID'' then ''1''
        else if k = ''SNOOPER_XATU_LABELS'' \<or> k = ''SNOOPER_XATU_HEADERS'' then [] else ''x''),
      parseDuration = (\<lambda>_. None)\<rparr>"

theorem kafka_brokers_are_split_witness:
  "\<exists>c. buildXatuConfig (environmentArgs kafka_environment) = Inr c \<and>
     Validate c = Some (AtOutput 1 (UnknownOutputType ''b2''))"
proof -
  have t: "TrimSpace ''kafka:b1:9092'' = ''kafka:b1:9092''" "TrimSpace ''b2:9092/topic'' = ''b2:9092/topic''"
    by (simp_all add: TrimSpace_visible visible_def)
  have e: "xatuOutputs (environmentArgs kafka_environment) = [''kafka:b1:9092'', ''b2:9092/topic'']"
    "xatuEnabled (environmentArgs kafka_environment)" "xatuNetworkID (environmentArgs kafka_environment) = 1"
    "xatuName (environmentArgs kafka_environment) = ''x''" "xatuNetworkName (environmentArgs kafka_environment) = ''x''"
    "xatuLabels (environmentArgs kafka_environment) = []" "xatuHeaders (environmentArgs kafka_environment) = []"
    by (simp_all add: environmentArgs_def kafka_environment_def getEnvStringSlice_def Split_def getEnvBool_def
        getEnvUint64_def getEnvString_def getEnv_def parseBool_def ParseUint_def digit_val_def of_char_def)
  obtain c where c: "buildXatuConfig (environmentArgs kafka_environment) = Inr c" "xcEnabled c" "xcName c = ''x''"
      "xcNetworkName c = ''x''" "xcNetworkID c = 1"
    by (simp add: buildXatuConfig_def e ParseOutputFlag_def t output_types)
  have v: "OutputConfig_Validate \<lparr>ocType = ''b2'', ocAddress = ''9092/topic''\<rparr> = Some (UnknownOutputType ''b2'')"
    by (simp add: OutputConfig_Validate_def output_types)
  have g: "getenv kafka_environment ''SNOOPER_XATU_OUTPUTS'' =
      ''kafka:'' @ ''b1:9092'' @ '','' @ ''b2'' @ '':'' @ ''9092/topic''"
    by (simp add: kafka_environment_def)
  have "Validate c = Some (AtOutput 1 (UnknownOutputType ''b2''))"
    using kafka_brokers_are_split [OF g _ _ _ _ _ v c(1,2)] t by (simp add: c)
  with c(1) show ?thesis by blast
qed

end
