(* ===== verification/Json.thy ===== *)
theory Json
  imports Encoding
begin

text \<open>
  The values \<open>encoding/json\<close> decodes into an \<open>any\<close>: \<open>nil\<close>, \<open>bool\<close>, \<open>float64\<close>, \<open>string\<close>,
  \<open>[]any\<close> and \<open>map[string]any\<close>. A finite \<open>float64\<close> is a rational number. A
  \<open>map[string]any\<close> is an association list; reading it goes through \<open>map_of\<close>, and
  \<open>wf_json\<close> says that no object has a key twice, as in every decoded map. A Go type
  assertion \<open>v, ok := x.(T)\<close> is a function into \<open>option\<close>.
\<close>

datatype json =
    JNull
  | JBool bool
  | JNum rat
  | JStr bytes
  | JArr "json list"
  | JObj "(bytes \<times> json) list"

subsection \<open>Type assertions\<close>

fun as_bool :: "json \<Rightarrow> bool option" where
  "as_bool (JBool b) = Some b"
| "as_bool _ = None"

fun as_num :: "json \<Rightarrow> rat option" where
  "as_num (JNum q) = Some q"
| "as_num _ = None"

fun as_str :: "json \<Rightarrow> bytes option" where
  "as_str (JStr s) = Some s"
| "as_str _ = None"

fun as_arr :: "json \<Rightarrow> json list option" where
  "as_arr (JArr xs) = Some xs"
| "as_arr _ = None"

fun as_obj :: "json \<Rightarrow> (bytes \<times> json) list option" where
  "as_obj (JObj kvs) = Some kvs"
| "as_obj _ = None"

lemma as_Some [simp]:
  "as_bool v = Some b \<longleftrightarrow> v = JBool b"
  "as_num v = Some q \<longleftrightarrow> v = JNum q"
  "as_str v = Some s \<longleftrightarrow> v = JStr s"
  "as_arr v = Some xs \<longleftrightarrow> v = JArr xs"
  "as_obj v = Some kvs \<longleftrightarrow> v = JObj kvs"
  by (cases v; auto)+

text \<open>Reading \<open>m[k]\<close> of a \<open>map[string]any\<close>: \<open>nil\<close> when the key is missing.\<close>

definition field :: "(bytes \<times> json) list \<Rightarrow> bytes \<Rightarrow> json" where
  "field kvs k = (case map_of kvs k of None \<Rightarrow> JNull | Some v \<Rightarrow> v)"

text \<open>\<open>m[k].(string)\<close> and its kin, with \<open>m\<close> an object.\<close>

definition str_field :: "(bytes \<times> json) list \<Rightarrow> bytes \<Rightarrow> bytes option" where
  "str_field kvs k = as_str (field kvs k)"

definition arr_field :: "(bytes \<times> json) list \<Rightarrow> bytes \<Rightarrow> json list option" where
  "arr_field kvs k = as_arr (field kvs k)"

definition obj_field :: "(bytes \<times> json) list \<Rightarrow> bytes \<Rightarrow> (bytes \<times> json) list option" where
  "obj_field kvs k = as_obj (field kvs k)"

definition num_field :: "(bytes \<times> json) list \<Rightarrow> bytes \<Rightarrow> rat option" where
  "num_field kvs k = as_num (field kvs k)"

definition bool_field :: "(bytes \<times> json) list \<Rightarrow> bytes \<Rightarrow> bool option" where
  "bool_field kvs k = as_bool (field kvs k)"

lemmas typed_field_defs [go_defs] =
  str_field_def arr_field_def obj_field_def num_field_def bool_field_def

text \<open>Go's conversion \<open>int(f)\<close> of a \<open>float64\<close> in the range of \<open>int\<close>: towards zero.\<close>

definition trunc_rat :: "rat \<Rightarrow> int" where
  "trunc_rat q = (if q < 0 then - \<lfloor>- q\<rfloor> else \<lfloor>q\<rfloor>)"

lemma trunc_rat_int [simp]: "trunc_rat (of_int i) = i"
  by (auto simp: trunc_rat_def simp flip: of_int_minus)

subsection \<open>Shape of a value\<close>

primrec wf_json :: "json \<Rightarrow> bool" where
  "wf_json JNull = True"
| "wf_json (JBool b) = True"
| "wf_json (JNum q) = True"
| "wf_json (JStr s) = True"
| "wf_json (JArr xs) = list_all id (map wf_json xs)"
| "wf_json (JObj kvs) =
     (distinct (map fst kvs) \<and> list_all snd (map (map_prod id wf_json) kvs))"

text \<open>All strings that occur as values.\<close>

primrec json_strings :: "json \<Rightarrow> bytes list" where
  "json_strings JNull = []"
| "json_strings (JBool b) = []"
| "json_strings (JNum q) = []"
| "json_strings (JStr s) = [s]"
| "json_strings (JArr xs) = concat (map json_strings xs)"
| "json_strings (JObj kvs) = concat (map snd (map (map_prod id json_strings) kvs))"

text \<open>A function applied to every string value.\<close>

primrec map_strings :: "(bytes \<Rightarrow> bytes) \<Rightarrow> json \<Rightarrow> json" where
  "map_strings f JNull = JNull"
| "map_strings f (JBool b) = JBool b"
| "map_strings f (JNum q) = JNum q"
| "map_strings f (JStr s) = JStr (f s)"
| "map_strings f (JArr xs) = JArr (map (map_strings f) xs)"
| "map_strings f (JObj kvs) = JObj (map (map_prod id (map_strings f)) kvs)"

lemma json_strings_map: "json_strings (map_strings f v) = map f (json_strings v)"
proof (induction v)
  case (JArr xs)
  then show ?case by (induction xs) auto
next
  case (JObj kvs)
  then show ?case by (induction kvs) fastforce+
qed auto

lemma map_strings_cong: "(\<And>s. s \<in> set (json_strings v) \<Longrightarrow> f s = g s) \<Longrightarrow> map_strings f v = map_strings g v"
proof (induction v)
  case (JObj kvs)
  then show ?case by (fastforce intro!: map_cong)
qed auto

lemma map_strings_comp: "map_strings f (map_strings g v) = map_strings (\<lambda>s. f (g s)) v"
proof (induction v)
  case (JObj kvs)
  then show ?case by (fastforce intro!: map_cong)
qed auto

lemma wf_map_strings: "wf_json (map_strings f v) = wf_json v"
proof (induction v)
  case (JArr xs)
  then show ?case by (induction xs) auto
next
  case (JObj kvs)
  then have "list_all snd (map (map_prod id wf_json) (map (map_prod id (map_strings f)) kvs)) =
      list_all snd (map (map_prod id wf_json) kvs)"
    by (induction kvs) fastforce+
  then show ?case by simp
qed auto

lemma map_strings_id: "map_strings (\<lambda>s. s) v = v"
proof (induction v)
  case (JArr xs)
  then show ?case by (induction xs) auto
next
  case (JObj kvs)
  then show ?case by (induction kvs) fastforce+
qed auto

end
