(* ===== verification/Http.thy ===== *)
theory Http
  imports Json
begin

text \<open>
  The part of \<open>net/http\<close> the program uses: \<open>http.Header\<close> with its canonical keys, a parsed
  request, and the \<open>ResponseWriter\<close>. The writer keeps the header map a handler edits
  (\<open>live\<close>) apart from the status and header already on the wire (\<open>sent\<close>): the first
  \<open>WriteHeader\<close> or \<open>Write\<close> takes a snapshot, and whatever a handler does to the map or the
  status afterwards changes nothing the client sees. A body is the list of writes; a
  JSON document written by an encoder is kept as a value. Models of the library, so
  without entries in the source map.
\<close>

subsection \<open>Headers\<close>

definition token_punct :: "char set" where
  "token_punct = set ''!#$%&*+-.^_`|~'' \<union> {CHR 39}"

definition lower_letters :: bytes where
  "lower_letters = ''abcdefghijklmnopqrstuvwxyz''"

definition upper_letters :: bytes where
  "upper_letters = ''ABCDEFGHIJKLMNOPQRSTUVWXYZ''"

definition is_digit :: "char \<Rightarrow> bool" where
  "is_digit c \<longleftrightarrow> CHR ''0'' \<le> c \<and> c \<le> CHR ''9''"

definition is_token_char :: "char \<Rightarrow> bool" where
  "is_token_char c \<longleftrightarrow>
     c \<in> set lower_letters \<or> c \<in> set upper_letters \<or> is_digit c \<or> c \<in> token_punct"

definition to_upper :: "char \<Rightarrow> char" where
  "to_upper c = (case pos_in c lower_letters of None \<Rightarrow> c | Some i \<Rightarrow> upper_letters ! i)"

definition to_lower :: "char \<Rightarrow> char" where
  "to_lower c = (case pos_in c upper_letters of None \<Rightarrow> c | Some i \<Rightarrow> lower_letters ! i)"

fun canon_from :: "bool \<Rightarrow> bytes \<Rightarrow> bytes" where
  "canon_from up [] = []"
| "canon_from up (c # cs) =
     (if up then to_upper c else to_lower c) # canon_from (c = CHR ''-'') cs"

definition canonicalKey :: "bytes \<Rightarrow> bytes" where
  "canonicalKey k = (if list_all is_token_char k then canon_from True k else k)"

text \<open>\<open>http.Header\<close>: canonical key to values. \<open>Get\<close> reads the first value.\<close>

type_synonym header = "bytes \<rightharpoonup> bytes list"

definition header_get :: "header \<Rightarrow> bytes \<Rightarrow> bytes" where
  "header_get h k = (case h (canonicalKey k) of Some (v # vs) \<Rightarrow> v | _ \<Rightarrow> [])"

definition header_set :: "bytes \<Rightarrow> bytes \<Rightarrow> header \<Rightarrow> header" where
  "header_set k v h = h(canonicalKey k \<mapsto> [v])"

definition header_add :: "bytes \<Rightarrow> bytes \<Rightarrow> header \<Rightarrow> header" where
  "header_add k v h =
     h(canonicalKey k \<mapsto> (case h (canonicalKey k) of None \<Rightarrow> [v] | Some vs \<Rightarrow> vs @ [v]))"

lemma header_get_set [simp]: "header_get (header_set k v h) k = v"
  by (simp add: header_get_def header_set_def)

lemma header_set_other: "canonicalKey j \<noteq> canonicalKey k \<Longrightarrow> header_get (header_set k v h) j = header_get h j"
  by (simp add: header_get_def header_set_def)

text \<open>The loop that copies one header map into another,
  \<open>for k, vs := range src { for _, v := range vs { dst.Add(k, v) } }\<close>. The source map is
  given as the list of its entries in the order the loop meets them.\<close>

type_synonym header_list = "(bytes \<times> bytes list) list"

definition add_values :: "bytes \<Rightarrow> bytes list \<Rightarrow> header \<Rightarrow> header" where
  "add_values k vs h = fold (header_add k) vs h"

definition copy_header :: "header_list \<Rightarrow> header \<Rightarrow> header" where
  "copy_header kvs h = fold (\<lambda>(k, vs). add_values k vs) kvs h"

text \<open>What a header map parsed or built through the API looks like: canonical keys, each
  with at least one value, no key twice.\<close>

definition wf_header_list :: "header_list \<Rightarrow> bool" where
  "wf_header_list kvs \<longleftrightarrow>
     distinct (map fst kvs) \<and> (\<forall>(k, vs) \<in> set kvs. canonicalKey k = k \<and> vs \<noteq> [])"

lemma add_values_eq:
  "vs \<noteq> [] \<Longrightarrow> add_values k vs h = h(canonicalKey k \<mapsto>
     (case h (canonicalKey k) of None \<Rightarrow> vs | Some us \<Rightarrow> us @ vs))"
proof (induction vs arbitrary: h rule: list_nonempty_induct)
  case (single v)
  then show ?case by (auto simp: add_values_def header_add_def split: option.splits)
next
  case (cons v vs)
  have "add_values k (v # vs) h = add_values k vs (header_add k v h)"
    by (simp add: add_values_def)
  also have "\<dots> = h(canonicalKey k \<mapsto> (case h (canonicalKey k) of None \<Rightarrow> v # vs | Some us \<Rightarrow> us @ v # vs))"
    unfolding cons.IH by (auto simp: header_add_def split: option.splits)
  finally show ?case .
qed

lemma copy_header_other: "k \<notin> fst ` set kvs \<Longrightarrow> wf_header_list kvs \<Longrightarrow> copy_header kvs h k = h k"
proof (induction kvs arbitrary: h)
  case Nil
  then show ?case by (simp add: copy_header_def)
next
  case (Cons kv kvs)
  then have wf: "wf_header_list kvs" "canonicalKey (fst kv) = fst kv" "snd kv \<noteq> []"
    by (auto simp: wf_header_list_def)
  with Cons show ?case
    by (cases kv) (auto simp: copy_header_def add_values_eq)
qed

lemma copy_header_map_of:
  assumes "wf_header_list kvs" and "\<And>k. k \<in> fst ` set kvs \<Longrightarrow> h k = None"
  shows "copy_header kvs h k = (case map_of kvs k of None \<Rightarrow> h k | Some vs \<Rightarrow> Some vs)"
  using assms
proof (induction kvs arbitrary: h)
  case Nil
  then show ?case by (simp add: copy_header_def)
next
  case (Cons kv kvs)
  obtain j vs where kv: "kv = (j, vs)" by (cases kv)
  with Cons.prems have wf: "wf_header_list kvs" "canonicalKey j = j" "vs \<noteq> []" "h j = None"
    and fresh: "j \<notin> fst ` set kvs"
    by (auto simp: wf_header_list_def)
  let ?h = "add_values j vs h"
  have h': "?h = h(j \<mapsto> vs)" using wf by (simp add: add_values_eq)
  have step: "copy_header (kv # kvs) h = copy_header kvs ?h" by (simp add: copy_header_def kv)
  show ?case
  proof (cases "k = j")
    case True
    then have "copy_header (kv # kvs) h k = Some vs"
      using copy_header_other [OF fresh wf(1), of ?h] by (simp only: step) (simp add: h')
    with True show ?thesis by (simp add: kv)
  next
    case False
    have "copy_header kvs ?h k = (case map_of kvs k of None \<Rightarrow> ?h k | Some vs \<Rightarrow> Some vs)"
      by (rule Cons.IH) (use wf(1) fresh Cons.prems(2) in \<open>auto simp: h'\<close>)
    moreover have "?h k = h k" using False by (simp add: h')
    ultimately show ?thesis
      unfolding step using False by (simp add: kv split: option.split)
  qed
qed

subsection \<open>Requests\<close>

text \<open>A request as the server hands it over: the URL is parsed (\<open>rPath\<close> decoded,
  \<open>rEscapedPath\<close> as \<open>URL.EscapedPath()\<close>, \<open>rQuery\<close> as \<open>URL.Query()\<close>).\<close>

record http_request =
  rMethod :: bytes
  rURLHost :: bytes
  rPath :: bytes
  rEscapedPath :: bytes
  rRawQuery :: bytes
  rQuery :: "bytes \<rightharpoonup> bytes list"
  rHeader :: header_list
  rRemoteAddr :: bytes
  rContentLength :: int
  rClose :: bool

definition query_get :: "http_request \<Rightarrow> bytes \<Rightarrow> bytes" where
  "query_get r k = (case rQuery r k of Some (v # vs) \<Rightarrow> v | _ \<Rightarrow> [])"

definition req_header_get :: "http_request \<Rightarrow> bytes \<Rightarrow> bytes" where
  "req_header_get r k = header_get (map_of (rHeader r)) k"

subsection \<open>The response writer\<close>

datatype chunk = Raw bytes | Json json

record rw =
  live :: header
  sent :: "(int \<times> header) option"
  written :: "chunk list"

definition rw_new :: rw where
  "rw_new = \<lparr>live = Map.empty, sent = None, written = []\<rparr>"

definition on_header :: "(header \<Rightarrow> header) \<Rightarrow> rw \<Rightarrow> rw" where
  "on_header f w = w\<lparr>live := f (live w)\<rparr>"

definition WriteHeader :: "int \<Rightarrow> rw \<Rightarrow> rw" where
  "WriteHeader code w = (case sent w of None \<Rightarrow> w\<lparr>sent := Some (code, live w)\<rparr> | Some _ \<Rightarrow> w)"

definition rw_write :: "chunk \<Rightarrow> rw \<Rightarrow> rw" where
  "rw_write c w = (WriteHeader 200 w)\<lparr>written := written w @ [c]\<rparr>"

definition status_of :: "rw \<Rightarrow> int option" where
  "status_of w = map_option fst (sent w)"

definition sent_header :: "rw \<Rightarrow> bytes \<Rightarrow> bytes" where
  "sent_header w k = (case sent w of None \<Rightarrow> [] | Some (_, h) \<Rightarrow> header_get h k)"

lemma rw_simps [simp]:
  "sent (on_header f w) = sent w" "written (on_header f w) = written w"
  "live (on_header f w) = f (live w)"
  "live (WriteHeader c w) = live w" "written (WriteHeader c w) = written w"
  "sent (WriteHeader c w) = (case sent w of None \<Rightarrow> Some (c, live w) | Some s \<Rightarrow> Some s)"
  "live (rw_write d w) = live w" "written (rw_write d w) = written w @ [d]"
  "sent (rw_write d w) = (case sent w of None \<Rightarrow> Some (200, live w) | Some s \<Rightarrow> Some s)"
  "live rw_new = Map.empty" "sent rw_new = None" "written rw_new = []"
  by (simp_all add: on_header_def WriteHeader_def rw_write_def rw_new_def split: option.splits)

text \<open>The two constants every handler uses; \<open>Content-Type\<close> is canonical as it stands.\<close>

abbreviation "content_type \<equiv> ''Content-Type''"
abbreviation "application_json \<equiv> ''application/json''"

lemma canonical_constants [simp]:
  "canonicalKey ''Content-Type'' = ''Content-Type''"
  "canonicalKey ''Www-Authenticate'' = ''Www-Authenticate''"
  "canonicalKey ''WWW-Authenticate'' = ''Www-Authenticate''"
  "canonicalKey ''X-Forwarded-For'' = ''X-Forwarded-For''"
  "canonicalKey ''X-Accel-Buffering'' = ''X-Accel-Buffering''"
  "canonicalKey ''Authorization'' = ''Authorization''"
  "canonicalKey ''Content-Encoding'' = ''Content-Encoding''"
  by (simp_all add: canonicalKey_def is_token_char_def lower_letters_def upper_letters_def
      is_digit_def token_punct_def to_upper_def to_lower_def less_eq_char_def)

lemma sent_superfluous [simp]: "sent w = Some s \<Longrightarrow> WriteHeader c w = w"
  by (simp add: WriteHeader_def)

end
