(* ===== verification/Unmarshal.thy ===== *)
theory Unmarshal
  imports Http "HOL-Library.List_Lexorder"
begin

text \<open>
  Decoding a JSON value into a Go struct, as \<open>json.Unmarshal (json.Marshal v)\<close> does it: the
  marshalled object has its keys in byte order, every key is matched with a field name up to
  Unicode case folding, \<open>null\<close> leaves the field alone, a value of the wrong type is an error,
  unknown keys are skipped and a later match overwrites an earlier one. Models of the
  library, so without entries in the source map.
\<close>

subsection \<open>Case folding\<close>

text \<open>Folding to ASCII. Besides the other case of a letter, two non-ASCII runes fold to ASCII:
  the Kelvin sign (E2 84 AA) to \<open>k\<close> and the long s (C5 BF) to \<open>s\<close>.\<close>

definition kelvin_sign :: bytes where
  "kelvin_sign = [CHR 0xE2, CHR 0x84, CHR 0xAA]"

definition long_s :: bytes where
  "long_s = [CHR 0xC5, CHR 0xBF]"

definition fold_rune :: "bytes \<Rightarrow> (char \<times> bytes) option" where
  "fold_rune t =
     (if t = [] then None
      else if HasPrefix t kelvin_sign then Some (CHR ''k'', drop 3 t)
      else if HasPrefix t long_s then Some (CHR ''s'', drop 2 t)
      else Some (to_lower (hd t), tl t))"

lemma fold_rune_shorter: "fold_rune t = Some (c, t') \<Longrightarrow> length t' < length t"
  by (cases t) (auto simp: fold_rune_def split: if_splits)

function fold_name :: "bytes \<Rightarrow> bytes" where
  "fold_name t = (case fold_rune t of None \<Rightarrow> [] | Some (c, t') \<Rightarrow> c # fold_name t')"
  by pat_completeness auto
termination by (relation "measure length") (auto dest: fold_rune_shorter)

declare fold_name.simps [simp del]

text \<open>\<open>strings.EqualFold\<close> with an ASCII string on the left.\<close>

fun EqualFold :: "bytes \<Rightarrow> bytes \<Rightarrow> bool" where
  "EqualFold [] t = (t = [])"
| "EqualFold (c # s) t =
     (case fold_rune t of None \<Rightarrow> False | Some (d, t') \<Rightarrow> to_lower c = d \<and> EqualFold s t')"

lemma fold_rune_None [simp]: "fold_rune t = None \<longleftrightarrow> t = []"
  by (simp add: fold_rune_def)

lemma fold_rune_Nil [simp]: "fold_rune [] = None"
  by (simp add: fold_rune_def)

lemma EqualFold_fold_name: "EqualFold s t \<longleftrightarrow> map to_lower s = fold_name t"
proof (induction s t rule: EqualFold.induct)
  case (1 t)
  then show ?case by (subst fold_name.simps) (auto split: option.splits simp: fold_rune_def)
next
  case (2 c s t)
  then show ?case
    by (subst fold_name.simps) (auto split: option.splits)
qed

lemma fold_name_ascii:
  assumes "set t \<inter> {CHR 0xE2, CHR 0xC5} = {}"
  shows "fold_name t = map to_lower t"
  using assms
proof (induction t)
  case (Cons c t)
  then have "fold_rune (c # t) = Some (to_lower c, t)"
    by (auto simp: fold_rune_def kelvin_sign_def long_s_def)
  with Cons show ?case by (subst fold_name.simps) simp
qed (simp add: fold_name.simps fold_rune_def)

lemma EqualFold_ascii:
  "set t \<inter> {CHR 0xE2, CHR 0xC5} = {} \<Longrightarrow> EqualFold s t \<longleftrightarrow> map to_lower s = map to_lower t"
  by (simp add: EqualFold_fold_name fold_name_ascii)

subsection \<open>Fields\<close>

text \<open>The values an object gives to a field, in the order the decoder meets them.\<close>

definition field_values :: "(bytes \<times> json) list \<Rightarrow> bytes \<Rightarrow> json list" where
  "field_values kvs name = map snd (filter (\<lambda>(k, v). fold_name k = name) (sort_key fst kvs))"

text \<open>A field of type \<open>string\<close> (the zero value is the empty string, \<open>null\<close> is skipped) and one
  of type \<open>map[string]any\<close> (the zero value is the empty map, \<open>null\<close> resets it, later objects
  are merged in). \<open>None\<close> is the type error.\<close>

definition string_of_field :: "(bytes \<times> json) list \<Rightarrow> bytes \<Rightarrow> bytes option" where
  "string_of_field kvs name =
     (let vs = filter (\<lambda>v. v \<noteq> JNull) (field_values kvs name)
      in if list_all (\<lambda>v. as_str v \<noteq> None) vs
         then Some (if vs = [] then [] else the (as_str (last vs))) else None)"

definition map_of_field :: "(bytes \<times> json) list \<Rightarrow> bytes \<Rightarrow> (bytes \<times> json) list option" where
  "map_of_field kvs name =
     (let vs = field_values kvs name
      in if list_all (\<lambda>v. v = JNull \<or> as_obj v \<noteq> None) vs
         then Some (concat (map (\<lambda>v. the (as_obj v)) (takeWhile (\<lambda>v. v \<noteq> JNull) (rev vs))))
         else None)"

lemma field_values_absent:
  "(\<And>k. k \<in> fst ` set kvs \<Longrightarrow> fold_name k \<noteq> name) \<Longrightarrow> field_values kvs name = []"
  by (fastforce simp: field_values_def filter_empty_conv)

text \<open>A value that decodes into a \<open>uint64\<close>: \<open>null\<close> leaves zero, a number must be an integer
  in range. (A \<open>float64\<close> above \<open>2^53\<close> is printed rounded to its shortest digits, which
  this does not model; ids are far below.)\<close>

fun uint64_of_json :: "json \<Rightarrow> u64 option" where
  "uint64_of_json JNull = Some 0"
| "uint64_of_json (JNum q) =
     (if q = of_int \<lfloor>q\<rfloor> \<and> 0 \<le> \<lfloor>q\<rfloor> \<and> \<lfloor>q\<rfloor> < 2 ^ 64 then Some (of_int \<lfloor>q\<rfloor>) else None)"
| "uint64_of_json _ = None"

lemma uint64_of_nat [simp]: "n < 2 ^ 64 \<Longrightarrow> uint64_of_json (JNum (of_nat n)) = Some (of_nat n)"
  by simp

end
