(* ===== verification/XatuHandlers.thy ===== *)
theory XatuHandlers
  imports Unmarshal
begin

text \<open>
  The correlating event handlers of package \<open>xatu\<close>: \<open>handler.go\<close>, \<open>engine_newpayload.go\<close> and
  \<open>engine_getblobs.go\<close>; the third handler and the router are in \<open>ClientVersion\<close>. Times and
  durations are in nanoseconds. A handler operation returns the new handler and the events
  it hands to \<open>publisher.Publish\<close>; whether publishing succeeds only changes a log line. The
  generated protobuf messages are records of the fields the code fills; the event id (a
  fresh UUID) and \<open>ClientMeta\<close> of the publisher are arguments. Correlating a response with its
  request is the same contract in two handlers, the locale \<open>correlating_handler\<close>.
\<close>

record rpc_error =
  errCode :: int
  errMessage :: bytes

record request_event =
  rqeCallID :: u64
  rqeTimestamp :: int
  rqeMethod :: bytes
  rqeParams :: "json list"
  rqeBodyBytes :: bytes

record response_event =
  rseCallID :: u64
  rseTimestamp :: int
  rseDuration :: int
  rseResult :: json
  rseError :: "rpc_error option"
  rseBodyBytes :: bytes

text \<open>\<open>time.Duration.Milliseconds\<close> truncates towards zero.\<close>

definition milliseconds :: "int \<Rightarrow> int" where
  "milliseconds d = (if d < 0 then - (- d div 1000000) else d div 1000000)"

definition staleAfter :: int where
  "staleAfter = 30 * 1000000000"

subsection \<open>Numbers\<close>

definition hexToUint64 :: "bytes \<Rightarrow> u64" where
  "hexToUint64 s0 =
     (let s1 = TrimPrefix s0 ''0x''; s = TrimPrefix s1 ''0X''
      in if s = [] then 0
         else case ParseUint 16 s of None \<Rightarrow> 0 | Some val \<Rightarrow> val)"

subsection \<open>engine_newPayload\<close>

record new_payload_call =
  npCallID :: u64
  npRequestTimestamp :: int
  npMethodVersion :: bytes
  npBlockNumber :: u64
  npBlockHash :: bytes
  npParentHash :: bytes
  npGasUsed :: u64
  npGasLimit :: u64
  npTxCount :: u32
  npBlobCount :: u32

definition extractNewPayloadMethodVersion :: "bytes \<Rightarrow> bytes" where
  "extractNewPayloadMethodVersion meth =
     (case CutPrefix meth ''engine_newPayload'' of
        Some version \<Rightarrow> if version \<noteq> [] then version else []
      | None \<Rightarrow> [])"

definition string_or_empty :: "(bytes \<times> json) list \<Rightarrow> bytes \<Rightarrow> bytes" where
  "string_or_empty kvs k = (case str_field kvs k of None \<Rightarrow> [] | Some s \<Rightarrow> s)"

definition hex_or_zero :: "(bytes \<times> json) list \<Rightarrow> bytes \<Rightarrow> u64" where
  "hex_or_zero kvs k = (case str_field kvs k of None \<Rightarrow> 0 | Some s \<Rightarrow> hexToUint64 s)"

definition extractPayloadData :: "request_event \<Rightarrow> new_payload_call" where
  "extractPayloadData event =
     (let pending =
        \<lparr>npCallID = rqeCallID event, npRequestTimestamp = rqeTimestamp event,
         npMethodVersion = extractNewPayloadMethodVersion (rqeMethod event), npBlockNumber = 0,
         npBlockHash = [], npParentHash = [], npGasUsed = 0, npGasLimit = 0, npTxCount = 0,
         npBlobCount = 0\<rparr>
      in case rqeParams event of
           [] \<Rightarrow> pending
         | p0 # rest \<Rightarrow>
             (case as_obj p0 of
                None \<Rightarrow> pending
              | Some payload \<Rightarrow>
                  pending\<lparr>
                    npBlockNumber := hex_or_zero payload ''blockNumber'',
                    npBlockHash := string_or_empty payload ''blockHash'',
                    npParentHash := string_or_empty payload ''parentHash'',
                    npGasUsed := hex_or_zero payload ''gasUsed'',
                    npGasLimit := hex_or_zero payload ''gasLimit'',
                    npTxCount := (case arr_field payload ''transactions'' of None \<Rightarrow> 0
                                  | Some txs \<Rightarrow> of_nat (length txs)),
                    npBlobCount := (case rest of [] \<Rightarrow> 0
                                    | p1 # _ \<Rightarrow> (case as_arr p1 of None \<Rightarrow> 0
                                               | Some hs \<Rightarrow> of_nat (length hs)))\<rparr>))"

definition extractNewPayloadResponseData :: "response_event \<Rightarrow> bytes \<times> bytes \<times> bytes" where
  "extractNewPayloadResponseData resp =
     (case rseError resp of
        Some e \<Rightarrow> (''ERROR'', [], errMessage e)
      | None \<Rightarrow>
          (case as_obj (rseResult resp) of
             None \<Rightarrow> (''UNKNOWN'', [], [])
           | Some result \<Rightarrow>
               ((case str_field result ''status'' of Some s \<Rightarrow> s | None \<Rightarrow> ''UNKNOWN''),
                string_or_empty result ''latestValidHash'',
                string_or_empty result ''validationError'')))"

subsection \<open>engine_getBlobs\<close>

record get_blobs_call =
  gbCallID :: u64
  gbRequestTimestamp :: int
  gbVersionedHashes :: "bytes list"
  gbMethodVersion :: bytes

definition extractMethodVersion :: "bytes \<Rightarrow> bytes" where
  "extractMethodVersion meth =
     (case CutPrefix meth ''engine_getBlobs'' of
        Some version \<Rightarrow> if version \<noteq> [] then version else []
      | None \<Rightarrow> [])"

definition extractVersionedHashes :: "json list \<Rightarrow> bytes list" where
  "extractVersionedHashes params =
     (case params of
        [] \<Rightarrow> []
      | p0 # _ \<Rightarrow> (case as_arr p0 of None \<Rightarrow> [] | Some hashList \<Rightarrow> List.map_filter as_str hashList))"

text \<open>The loop over the result: the count of non-null blobs and their indexes, as \<open>uint32\<close>.\<close>

fun countBlobs :: "nat \<Rightarrow> json list \<Rightarrow> u32 \<times> u32 list \<Rightarrow> u32 \<times> u32 list" where
  "countBlobs i [] acc = acc"
| "countBlobs i (blob # blobs) (count, indexes) =
     countBlobs (Suc i) blobs
       (if blob \<noteq> JNull then (count + 1, indexes @ [of_nat i]) else (count, indexes))"

definition extractGetBlobsResponseData :: "response_event \<Rightarrow> u32 \<times> u32 list \<times> bytes \<times> bytes" where
  "extractGetBlobsResponseData resp =
     (case rseError resp of
        Some e \<Rightarrow> (0, [], ''ERROR'', errMessage e)
      | None \<Rightarrow>
          (case as_arr (rseResult resp) of
             None \<Rightarrow> (0, [], ''UNSUPPORTED'', [])
           | Some resultList \<Rightarrow>
               (let (nonNullCount, returnedIndexes) = countBlobs 0 resultList (0, []);
                    resultLen = of_nat (length resultList) :: u32;
                    status = (if nonNullCount = 0 then ''EMPTY''
                              else if nonNullCount < resultLen then ''PARTIAL''
                              else ''SUCCESS'')
                in (nonNullCount, returnedIndexes, status, []))))"

subsection \<open>Published events\<close>

record new_payload_data =
  ndRequestedAt :: int
  ndDurationMs :: u64
  ndCall :: new_payload_call
  ndStatus :: bytes
  ndLatestValidHash :: bytes
  ndValidationError :: bytes

record get_blobs_data =
  gdRequestedAt :: int
  gdDurationMs :: u64
  gdRequestedCount :: u32
  gdVersionedHashes :: "bytes list"
  gdReturnedCount :: u32
  gdReturnedBlobIndexes :: "u32 list"
  gdStatus :: bytes
  gdErrorMessage :: bytes
  gdMethodVersion :: bytes

datatype event_data = ExecutionEngineNewPayload new_payload_data | ExecutionEngineGetBlobs get_blobs_data

record 'm decorated_event =
  evDateTime :: int
  evId :: bytes
  evClient :: 'm
  evData :: event_data

definition duration_ms :: "response_event \<Rightarrow> u64" where
  "duration_ms resp = of_int (max (milliseconds (rseDuration resp)) 0)"

definition newPayload_buildDecoratedEvent ::
  "bytes \<Rightarrow> 'm \<Rightarrow> new_payload_call \<Rightarrow> response_event \<Rightarrow> 'm decorated_event" where
  "newPayload_buildDecoratedEvent uuid meta pending resp =
     (let (status, latestValidHash, validationError) = extractNewPayloadResponseData resp
      in \<lparr>evDateTime = rseTimestamp resp, evId = uuid, evClient = meta,
          evData = ExecutionEngineNewPayload
            \<lparr>ndRequestedAt = npRequestTimestamp pending, ndDurationMs = duration_ms resp,
             ndCall = pending, ndStatus = status, ndLatestValidHash = latestValidHash,
             ndValidationError = validationError\<rparr>\<rparr>)"

definition getBlobs_buildDecoratedEvent ::
  "bytes \<Rightarrow> 'm \<Rightarrow> get_blobs_call \<Rightarrow> response_event \<Rightarrow> 'm decorated_event" where
  "getBlobs_buildDecoratedEvent uuid meta pending resp =
     (let (returnedCount, returnedIndexes, status, errorMsg) = extractGetBlobsResponseData resp
      in \<lparr>evDateTime = rseTimestamp resp, evId = uuid, evClient = meta,
          evData = ExecutionEngineGetBlobs
            \<lparr>gdRequestedAt = gbRequestTimestamp pending, gdDurationMs = duration_ms resp,
             gdRequestedCount = of_nat (length (gbVersionedHashes pending)),
             gdVersionedHashes = gbVersionedHashes pending, gdReturnedCount = returnedCount,
             gdReturnedBlobIndexes = returnedIndexes, gdStatus = status, gdErrorMessage = errorMsg,
             gdMethodVersion = gbMethodVersion pending\<rparr>\<rparr>)"

subsection \<open>Handler operations\<close>

record new_payload_handler =
  npPending :: "u64 \<rightharpoonup> new_payload_call"

record get_blobs_handler =
  gbPending :: "u64 \<rightharpoonup> get_blobs_call"

definition newPayload_cleanupStale :: "int \<Rightarrow> (u64 \<rightharpoonup> new_payload_call) \<Rightarrow> (u64 \<rightharpoonup> new_payload_call)" where
  "newPayload_cleanupStale now pending =
     (let cutoff = now - staleAfter
      in (\<lambda>i. case pending i of
                 None \<Rightarrow> None
               | Some p \<Rightarrow> if npRequestTimestamp p < cutoff then None else Some p))"

definition getBlobs_cleanupStale :: "int \<Rightarrow> (u64 \<rightharpoonup> get_blobs_call) \<Rightarrow> (u64 \<rightharpoonup> get_blobs_call)" where
  "getBlobs_cleanupStale now pending =
     (let cutoff = now - staleAfter
      in (\<lambda>i. case pending i of
                 None \<Rightarrow> None
               | Some p \<Rightarrow> if gbRequestTimestamp p < cutoff then None else Some p))"

definition newPayload_HandleRequest ::
  "int \<Rightarrow> request_event \<Rightarrow> new_payload_handler \<Rightarrow> new_payload_handler \<times> bool" where
  "newPayload_HandleRequest now event h =
     (let pending = extractPayloadData event
      in (h\<lparr>npPending := (newPayload_cleanupStale now (npPending h))(rqeCallID event \<mapsto> pending)\<rparr>, True))"

definition newPayload_HandleResponse ::
  "bytes \<Rightarrow> 'm \<Rightarrow> response_event \<Rightarrow> new_payload_handler \<Rightarrow> new_payload_handler \<times> 'm decorated_event list" where
  "newPayload_HandleResponse uuid meta event h =
     (case npPending h (rseCallID event) of
        None \<Rightarrow> (h, [])
      | Some pending \<Rightarrow>
          (h\<lparr>npPending := (npPending h)(rseCallID event := None)\<rparr>,
           [newPayload_buildDecoratedEvent uuid meta pending event]))"

definition getBlobs_HandleRequest ::
  "int \<Rightarrow> request_event \<Rightarrow> get_blobs_handler \<Rightarrow> get_blobs_handler \<times> bool" where
  "getBlobs_HandleRequest now event h =
     (let hashes = extractVersionedHashes (rqeParams event);
          version = extractMethodVersion (rqeMethod event)
      in (h\<lparr>gbPending := (getBlobs_cleanupStale now (gbPending h))
             (rqeCallID event \<mapsto>
                \<lparr>gbCallID = rqeCallID event, gbRequestTimestamp = rqeTimestamp event,
                 gbVersionedHashes = hashes, gbMethodVersion = version\<rparr>)\<rparr>, True))"

definition getBlobs_HandleResponse ::
  "bytes \<Rightarrow> 'm \<Rightarrow> response_event \<Rightarrow> get_blobs_handler \<Rightarrow> get_blobs_handler \<times> 'm decorated_event list" where
  "getBlobs_HandleResponse uuid meta event h =
     (case gbPending h (rseCallID event) of
        None \<Rightarrow> (h, [])
      | Some pending \<Rightarrow>
          (h\<lparr>gbPending := (gbPending h)(rseCallID event := None)\<rparr>,
           [getBlobs_buildDecoratedEvent uuid meta pending event]))"

subsection \<open>Correlation\<close>

text \<open>What a handler sees over time: requests with the time they are handled at, and responses
  with the id and client metadata their event would carry.\<close>

datatype 'm handler_event = Request int request_event | Response bytes 'm response_event

fun event_call :: "'m handler_event \<Rightarrow> u64" where
  "event_call (Request now e) = rqeCallID e"
| "event_call (Response u m r) = rseCallID r"

fun cleans_after :: "int \<Rightarrow> 'm handler_event \<Rightarrow> bool" where
  "cleans_after t (Request now e) = (t < now - staleAfter)"
| "cleans_after t (Response u m r) = False"

fun handler_run ::
  "(int \<Rightarrow> request_event \<Rightarrow> 'h \<Rightarrow> 'h \<times> bool) \<Rightarrow> (bytes \<Rightarrow> 'm \<Rightarrow> response_event \<Rightarrow> 'h \<Rightarrow> 'h \<times> 'e list) \<Rightarrow>
   'm handler_event list \<Rightarrow> 'h \<Rightarrow> 'h" where
  "handler_run rq rs [] h = h"
| "handler_run rq rs (Request now e # es) h = handler_run rq rs es (fst (rq now e h))"
| "handler_run rq rs (Response u m r # es) h = handler_run rq rs es (fst (rs u m r h))"

locale correlating_handler =
  fixes pend :: "'h \<Rightarrow> u64 \<Rightarrow> 'p option"
    and on_request :: "int \<Rightarrow> request_event \<Rightarrow> 'h \<Rightarrow> 'h \<times> bool"
    and on_response :: "bytes \<Rightarrow> 'm \<Rightarrow> response_event \<Rightarrow> 'h \<Rightarrow> 'h \<times> 'e list"
    and extr :: "request_event \<Rightarrow> 'p"
    and stamp :: "'p \<Rightarrow> int"
    and build_event :: "bytes \<Rightarrow> 'm \<Rightarrow> 'p \<Rightarrow> response_event \<Rightarrow> 'e"
  assumes request_wanted: "snd (on_request now e h)"
    and request_pend: "pend (fst (on_request now e h)) i =
      (if i = rqeCallID e then Some (extr e)
       else case pend h i of None \<Rightarrow> None
            | Some p \<Rightarrow> if stamp p < now - staleAfter then None else Some p)"
    and response_pend: "pend (fst (on_response u m r h)) i = (if i = rseCallID r then None else pend h i)"
    and response_events: "snd (on_response u m r h) =
      (case pend h (rseCallID r) of None \<Rightarrow> [] | Some p \<Rightarrow> [build_event u m p r])"
    and stamp_extract: "stamp (extr e) = rqeTimestamp e"
begin

lemma absent_stays:
  assumes "pend h i = None" and "i \<notin> event_call ` set tr"
  shows "pend (handler_run on_request on_response tr h) i = None"
  using assms
proof (induction tr arbitrary: h)
  case (Cons ev tr)
  then show ?case by (cases ev) (simp_all add: request_pend response_pend)
qed simp

lemma pending_fate:
  assumes "pend h i = Some p" and "i \<notin> event_call ` set tr"
  shows "pend (handler_run on_request on_response tr h) i =
    (if list_ex (cleans_after (stamp p)) tr then None else Some p)"
  using assms
proof (induction tr arbitrary: h)
  case (Cons ev tr)
  show ?case
  proof (cases ev)
    case (Request now e)
    with Cons show ?thesis
      by (cases "stamp p < now - staleAfter") (simp_all add: request_pend absent_stays)
  qed (use Cons in \<open>simp add: response_pend\<close>)
qed simp

text \<open>What the response of a call publishes, given what happened since its request.\<close>

lemma response_publishes:
  assumes "rqeCallID e \<notin> event_call ` set tr" and "rseCallID r = rqeCallID e"
  shows "snd (on_response u m r (handler_run on_request on_response (Request now e # tr) h)) =
    (if list_ex (cleans_after (rqeTimestamp e)) tr then [] else [build_event u m (extr e) r])"
proof -
  have "pend (fst (on_request now e h)) (rqeCallID e) = Some (extr e)"
    by (simp add: request_pend)
  from pending_fate [OF this assms(1)] assms(2) show ?thesis
    by (simp add: response_events stamp_extract)
qed

text \<open>A second response to the same call publishes nothing.\<close>

lemma second_response_silent:
  assumes "rseCallID r \<notin> event_call ` set tr" and "rseCallID r' = rseCallID r"
  shows "snd (on_response u' m' r' (handler_run on_request on_response (Response u m r # tr) h)) = []"
proof -
  have "pend (fst (on_response u m r h)) (rseCallID r) = None" by (simp add: response_pend)
  from absent_stays [OF this assms(1)] assms(2) show ?thesis by (simp add: response_events)
qed

end

interpretation np: correlating_handler npPending newPayload_HandleRequest newPayload_HandleResponse
  extractPayloadData npRequestTimestamp newPayload_buildDecoratedEvent
  by unfold_locales
     (auto simp: newPayload_HandleRequest_def newPayload_HandleResponse_def newPayload_cleanupStale_def
       extractPayloadData_def Let_def split: option.split list.split)

interpretation gb: correlating_handler gbPending getBlobs_HandleRequest getBlobs_HandleResponse
  "\<lambda>e. \<lparr>gbCallID = rqeCallID e, gbRequestTimestamp = rqeTimestamp e,
        gbVersionedHashes = extractVersionedHashes (rqeParams e),
        gbMethodVersion = extractMethodVersion (rqeMethod e)\<rparr>"
  gbRequestTimestamp getBlobs_buildDecoratedEvent
  by unfold_locales
     (auto simp: getBlobs_HandleRequest_def getBlobs_HandleResponse_def getBlobs_cleanupStale_def
       Let_def split: option.split list.split)

subsection \<open>Lemmas\<close>

lemma TrimPrefix_append [simp]: "TrimPrefix (p @ s) p = s"
  by (simp add: TrimPrefix_def)

lemma show_hex_no_X: "CHR ''X'' \<notin> set (show_hex n)"
proof (induction n rule: show_hex.induct)
  case (1 n)
  have "digit_char m \<noteq> CHR ''X''" if "m < 16" for m
    using less_16_cases [OF that] by (auto simp: digit_char_def digit_chars_def)
  from this [of "n mod 16"] this [of n] 1 show ?case by (subst show_hex.simps) (auto dest: sym)
qed

lemma show_hex_no_x: "CHR ''x'' \<notin> set (show_hex n)"
proof (induction n rule: show_hex.induct)
  case (1 n)
  have "digit_char m \<noteq> CHR ''x''" if "m < 16" for m
    using less_16_cases [OF that] by (auto simp: digit_char_def digit_chars_def)
  from this [of "n mod 16"] this [of n] 1 show ?case by (subst show_hex.simps) (auto dest: sym)
qed

lemma TrimPrefix_absent: "c \<in> set p \<Longrightarrow> c \<notin> set s \<Longrightarrow> TrimPrefix s p = s"
  by (auto simp: TrimPrefix_def HasPrefix_prefix prefix_def)

lemma ParseUint_show_hex:
  "ParseUint 16 (show_hex n) = (if n < 2 ^ 64 then Some (of_nat n) else None)"
  by (simp add: ParseUint_def digits_val_show_hex)

lemma countBlobs_eq:
  "countBlobs i xs (c, ix) =
     (c + of_nat (length (filter (\<lambda>v. v \<noteq> JNull) xs)),
      ix @ map of_nat (filter (\<lambda>j. xs ! (j - i) \<noteq> JNull) [i..<i + length xs]))"
proof (induction xs arbitrary: i c ix)
  case (Cons x xs)
  have up: "[i..<Suc (i + length xs)] = i # [Suc i..<Suc (i + length xs)]"
    by (simp add: upt_rec [of i] Suc_le_eq)
  have "filter (\<lambda>j. (x # xs) ! (j - i) \<noteq> JNull) [Suc i..<Suc (i + length xs)] =
      filter (\<lambda>j. xs ! (j - Suc i) \<noteq> JNull) [Suc i..<Suc (i + length xs)]"
    by (rule filter_cong) (auto simp: nth_Cons' simp flip: diff_Suc_eq_diff_pred)
  then show ?case by (cases "x = JNull") (simp_all add: Cons.IH up del: upt_Suc)
qed simp

text \<open>A trace that neither mentions a call nor cleans up after its time stamp.\<close>

definition undisturbed :: "request_event \<Rightarrow> 'm handler_event list \<Rightarrow> bool" where
  "undisturbed e tr \<longleftrightarrow> rqeCallID e \<notin> event_call ` set tr \<and> \<not> list_ex (cleans_after (rqeTimestamp e)) tr"

subsection \<open>Properties\<close>

text \<open>C18: The response of an engine_newPayload call publishes exactly one event, built from
  the data of its own request and from the response, however many other calls the handler
  saw in between; unless one of those requests was handled more than thirty seconds after
  the call began, in which case the call is forgotten and nothing is published, although
  calls may take sixty seconds.\<close>

theorem newPayload_correlation:
  fixes m :: 'm and tr :: "'m handler_event list"
  assumes "rqeCallID e \<notin> event_call ` set tr" and "rseCallID r = rqeCallID e"
  shows "snd (newPayload_HandleResponse u m r
      (handler_run newPayload_HandleRequest newPayload_HandleResponse (Request now e # tr) h)) =
    (if list_ex (cleans_after (rqeTimestamp e)) tr then []
     else [newPayload_buildDecoratedEvent u m (extractPayloadData e) r])"
  by (rule np.response_publishes [OF assms])

text \<open>Two calls for the examples, the second handled 31 seconds after the first.\<close>

definition sample_call :: "u64 \<Rightarrow> int \<Rightarrow> request_event" where
  "sample_call i t =
     \<lparr>rqeCallID = i, rqeTimestamp = t, rqeMethod = ''engine_newPayloadV3'',
      rqeParams = [JObj [(''blockNumber'', JStr ''0x1b4''), (''transactions'', JArr [JNull, JNull])]],
      rqeBodyBytes = []\<rparr>"

definition sample_reply :: "u64 \<Rightarrow> response_event" where
  "sample_reply i =
     \<lparr>rseCallID = i, rseTimestamp = 45000000000, rseDuration = 44000000000, rseResult = JNull,
      rseError = None, rseBodyBytes = []\<rparr>"

theorem newPayload_correlation_witness:
  "snd (newPayload_HandleResponse [] () (sample_reply 1)
      (handler_run newPayload_HandleRequest newPayload_HandleResponse
        [Request 5 (sample_call 1 5) :: unit handler_event, Request 31000000000 (sample_call 2 31000000000)]
        \<lparr>npPending = Map.empty\<rparr>)) = []"
proof -
  have "snd (newPayload_HandleResponse [] () (sample_reply 1)
      (handler_run newPayload_HandleRequest newPayload_HandleResponse
        ((Request 5 (sample_call 1 5) :: unit handler_event) #
          [Request 31000000000 (sample_call 2 31000000000)])
        \<lparr>npPending = Map.empty\<rparr>)) =
    (if list_ex (cleans_after (rqeTimestamp (sample_call 1 5)))
          [Request 31000000000 (sample_call 2 31000000000) :: unit handler_event] then []
     else [newPayload_buildDecoratedEvent [] () (extractPayloadData (sample_call 1 5)) (sample_reply 1)])"
    by (rule newPayload_correlation) (simp_all add: sample_call_def sample_reply_def)
  then show ?thesis by (simp add: sample_call_def staleAfter_def)
qed

text \<open>C19: The response of an engine_getBlobs call that is not disturbed publishes one event with
  the hashes and version of its own request; a second response to the same call publishes
  nothing.\<close>

theorem getBlobs_publishes_once:
  fixes m m' :: 'm and tr tr' :: "'m handler_event list"
  assumes "undisturbed e tr" and "rseCallID r = rqeCallID e" and "rqeCallID e \<notin> event_call ` set tr'"
    and "rseCallID r' = rqeCallID e"
  shows "(\<exists>d. snd (getBlobs_HandleResponse u m r
        (handler_run getBlobs_HandleRequest getBlobs_HandleResponse (Request now e # tr) h)) =
      [\<lparr>evDateTime = rseTimestamp r, evId = u, evClient = m, evData = ExecutionEngineGetBlobs d\<rparr>] \<and>
      gdVersionedHashes d = extractVersionedHashes (rqeParams e) \<and>
      gdMethodVersion d = extractMethodVersion (rqeMethod e) \<and> gdRequestedAt d = rqeTimestamp e) \<and>
    snd (getBlobs_HandleResponse u' m' r' (handler_run getBlobs_HandleRequest getBlobs_HandleResponse
        (Response u m r # tr')
        (handler_run getBlobs_HandleRequest getBlobs_HandleResponse (Request now e # tr) h))) = []"
    (is "?first \<and> ?second")
proof
  from assms(1) have t: "rqeCallID e \<notin> event_call ` set tr" "\<not> list_ex (cleans_after (rqeTimestamp e)) tr"
    by (simp_all add: undisturbed_def)
  from gb.response_publishes [OF t(1) assms(2), of u m now h] t(2) show ?first
    by (simp add: getBlobs_buildDecoratedEvent_def split: prod.split)
  show ?second by (rule gb.second_response_silent) (use assms in simp_all)
qed

theorem getBlobs_publishes_once_witness:
  "snd (getBlobs_HandleResponse [] () (sample_reply 1) (handler_run getBlobs_HandleRequest getBlobs_HandleResponse
        [Response [] () (sample_reply 1)]
        (handler_run getBlobs_HandleRequest getBlobs_HandleResponse
          [Request 5 (sample_call 1 5) :: unit handler_event] \<lparr>gbPending = Map.empty\<rparr>))) = []"
proof -
  have u: "undisturbed (sample_call 1 5) ([] :: unit handler_event list)"
    by (simp add: undisturbed_def)
  have i: "rseCallID (sample_reply 1) = rqeCallID (sample_call 1 5)"
    "rqeCallID (sample_call 1 5) \<notin> event_call ` set ([] :: unit handler_event list)"
    by (simp_all add: sample_call_def sample_reply_def)
  from getBlobs_publishes_once [OF u i i(1), of "[]" "()" 5 "\<lparr>gbPending = Map.empty\<rparr>" "[]" "()"]
  show ?thesis by blast
qed

text \<open>Reading a quantity: a hex string with or without the prefix gives its value when it
  fits 64 bits, and zero when it does not; so zero in an event may be an overflow.\<close>

theorem hexToUint64_roundtrip:
  "hexToUint64 (''0x'' @ show_hex n) = (if n < 2 ^ 64 then of_nat n else 0) \<and>
   hexToUint64 (show_hex n) = (if n < 2 ^ 64 then of_nat n else 0)"
proof -
  have "TrimPrefix (show_hex n) ''0X'' = show_hex n" "TrimPrefix (show_hex n) ''0x'' = show_hex n"
    using show_hex_no_X [of n] show_hex_no_x [of n] by (auto intro!: TrimPrefix_absent)
  then show ?thesis by (simp only: hexToUint64_def TrimPrefix_append Let_def) (simp add: ParseUint_show_hex)
qed

text \<open>What a getBlobs event reports of its response: the number of blobs that are not null and
  their positions in order, and the status by whether none, some or all of them are there;
  an error or a result that is not a list reports no blobs.\<close>

theorem getBlobs_response_data:
  assumes "rseError resp = None" and "rseResult resp = JArr blobs" and "length blobs < 2 ^ 32"
  shows "extractGetBlobsResponseData resp =
    (of_nat (length (filter (\<lambda>v. v \<noteq> JNull) blobs)),
     map of_nat (filter (\<lambda>j. blobs ! j \<noteq> JNull) [0..<length blobs]),
     if set blobs \<subseteq> {JNull} then ''EMPTY'' else if JNull \<in> set blobs then ''PARTIAL'' else ''SUCCESS'', [])"
proof -
  let ?k = "length (filter (\<lambda>v. v \<noteq> JNull) blobs)"
  have u: "unat (of_nat j :: u32) = j" if "j \<le> length blobs" for j
    using that assms(3) by (simp add: unat_of_nat)
  have zero: "(of_nat ?k :: u32) = 0 \<longleftrightarrow> ?k = 0"
    using u [of ?k] by (simp add: word_unat_eq_iff)
  have less: "(of_nat ?k :: u32) < of_nat (length blobs) \<longleftrightarrow> ?k < length blobs"
    using u [of ?k] u [of "length blobs"] by (simp add: word_less_nat_alt)
  have none: "filter (\<lambda>v. v \<noteq> JNull) blobs = [] \<longleftrightarrow> set blobs \<subseteq> {JNull}" by (auto simp: filter_empty_conv)
  have some: "?k < length blobs \<longleftrightarrow> JNull \<in> set blobs"
    using length_filter_less [of JNull blobs "\<lambda>v. v \<noteq> JNull"] filter_True [of blobs "\<lambda>v. v \<noteq> JNull"]
    by (metis (mono_tags, lifting) less_irrefl)
  show ?thesis
    using assms(1,2) by (simp add: extractGetBlobsResponseData_def countBlobs_eq zero less none some Let_def)
qed

theorem getBlobs_response_data_witness:
  "extractGetBlobsResponseData ((sample_reply 1)\<lparr>rseResult := JArr [JStr ''a'', JNull, JStr ''b'']\<rparr>) =
     (2, [0, 2], ''PARTIAL'', [])"
proof -
  have "rseError ((sample_reply 1)\<lparr>rseResult := JArr [JStr ''a'', JNull, JStr ''b'']\<rparr>) = None"
    "rseResult ((sample_reply 1)\<lparr>rseResult := JArr [JStr ''a'', JNull, JStr ''b'']\<rparr>) =
       JArr [JStr ''a'', JNull, JStr ''b'']" by (simp_all add: sample_reply_def)
  from getBlobs_response_data [OF this] show ?thesis by (simp add: upt_rec)
qed

end
