(* ===== verification/ClientVersion.thy ===== *)
theory ClientVersion
  imports XatuHandlers
begin

text \<open>
  Execution client versions and the router: \<open>xatu/types.go\<close>, \<open>xatu/engine_clientversion.go\<close>,
  \<open>xatu/router.go\<close> and the registration of handlers in \<open>xatu/xatu.go\<close>. The handlers the router
  holds by reference are values in its list; routing returns the list with the matching
  handler's new state and the position of that handler, which is what the caller keeps.
\<close>

record client_version =
  cvCode :: bytes
  cvName :: bytes
  cvVersion :: bytes
  cvCommit :: bytes

record execution_metadata =
  emImplementation :: bytes
  emVersion :: bytes
  emVersionMajor :: bytes
  emVersionMinor :: bytes
  emVersionPatch :: bytes

subsection \<open>Version strings\<close>

definition commitContainedInVersion :: "bytes \<Rightarrow> bytes \<Rightarrow> bool" where
  "commitContainedInVersion version commit =
     (if Contains version commit then True
      else if 6 \<le> length commit \<and> Contains version (take 6 commit) then True
      else False)"

definition version_string :: "client_version \<Rightarrow> bytes" where
  "version_string c =
     (let commitNorm = TrimPrefix (cvCommit c) ''0x'';
          version = (if commitNorm \<noteq> [] \<and> \<not> commitContainedInVersion (cvVersion c) commitNorm
                     then cvVersion c @ ''-'' @ cvCommit c else cvVersion c)
      in cvName c @ ''/'' @ version)"

subsection \<open>Parsing the response\<close>

fun client_version_of_json :: "json \<Rightarrow> client_version option" where
  "client_version_of_json JNull = Some \<lparr>cvCode = [], cvName = [], cvVersion = [], cvCommit = []\<rparr>"
| "client_version_of_json (JObj kvs) =
     (case (string_of_field kvs ''code'', string_of_field kvs ''name'',
            string_of_field kvs ''version'', string_of_field kvs ''commit'') of
        (Some co, Some nm, Some ve, Some cm) \<Rightarrow>
          Some \<lparr>cvCode = co, cvName = nm, cvVersion = ve, cvCommit = cm\<rparr>
      | _ \<Rightarrow> None)"
| "client_version_of_json _ = None"

text \<open>All elements, or the error of the first bad one.\<close>

fun all_some :: "'a option list \<Rightarrow> 'a list option" where
  "all_some [] = Some []"
| "all_some (x # xs) = (case (x, all_some xs) of (Some a, Some as) \<Rightarrow> Some (a # as) | _ \<Rightarrow> None)"

fun parseClientVersionResponse :: "json \<Rightarrow> client_version list option" where
  "parseClientVersionResponse (JArr vs) = all_some (map client_version_of_json vs)"
| "parseClientVersionResponse JNull = Some []"
| "parseClientVersionResponse _ = None"

text \<open>\<open>HandleResponse\<close> of the client version handler: the versions handed to the callback.\<close>

definition clientVersion_HandleResponse :: "response_event \<Rightarrow> client_version list option" where
  "clientVersion_HandleResponse event =
     (case rseError event of
        Some _ \<Rightarrow> None
      | None \<Rightarrow>
          (case parseClientVersionResponse (rseResult event) of
             None \<Rightarrow> None
           | Some versions \<Rightarrow> if length versions = 0 then None else Some versions))"

subsection \<open>The router\<close>

datatype handler =
    EngineGetBlobs get_blobs_handler
  | EngineNewPayload new_payload_handler
  | EngineClientVersion

fun handler_Name :: "handler \<Rightarrow> bytes" where
  "handler_Name (EngineGetBlobs h) = ''engine_getBlobs''"
| "handler_Name (EngineNewPayload h) = ''engine_newPayload''"
| "handler_Name EngineClientVersion = ''engine_getClientVersion''"

fun MethodMatcher :: "handler \<Rightarrow> bytes \<Rightarrow> bool" where
  "MethodMatcher (EngineGetBlobs h) meth = HasPrefix meth ''engine_getBlobs''"
| "MethodMatcher (EngineNewPayload h) meth = HasPrefix meth ''engine_newPayload''"
| "MethodMatcher EngineClientVersion meth = HasPrefix meth ''engine_getClientVersion''"

fun handler_HandleRequest :: "int \<Rightarrow> request_event \<Rightarrow> handler \<Rightarrow> handler \<times> bool" where
  "handler_HandleRequest now e (EngineGetBlobs h) =
     (let (h', b) = getBlobs_HandleRequest now e h in (EngineGetBlobs h', b))"
| "handler_HandleRequest now e (EngineNewPayload h) =
     (let (h', b) = newPayload_HandleRequest now e h in (EngineNewPayload h', b))"
| "handler_HandleRequest now e EngineClientVersion = (EngineClientVersion, True)"

text \<open>What handling a response does outside the handler.\<close>

datatype 'm effect = Publish "'m decorated_event" | UpdateMetadata "client_version list"

fun handler_HandleResponse ::
  "bytes \<Rightarrow> 'm \<Rightarrow> response_event \<Rightarrow> handler \<Rightarrow> handler \<times> 'm effect list" where
  "handler_HandleResponse u m r (EngineGetBlobs h) =
     (let (h', es) = getBlobs_HandleResponse u m r h in (EngineGetBlobs h', map Publish es))"
| "handler_HandleResponse u m r (EngineNewPayload h) =
     (let (h', es) = newPayload_HandleResponse u m r h in (EngineNewPayload h', map Publish es))"
| "handler_HandleResponse u m r EngineClientVersion =
     (EngineClientVersion,
      case clientVersion_HandleResponse r of None \<Rightarrow> [] | Some vs \<Rightarrow> [UpdateMetadata vs])"

type_synonym router = "handler list"

definition Register :: "handler \<Rightarrow> router \<Rightarrow> router" where
  "Register h r = r @ [h]"

text \<open>The loop over the handlers; the first match decides.\<close>

fun RouteRequest :: "int \<Rightarrow> request_event \<Rightarrow> router \<Rightarrow> router \<times> nat option" where
  "RouteRequest now e [] = ([], None)"
| "RouteRequest now e (h # hs) =
     (if MethodMatcher h (rqeMethod e)
      then (let (h', shouldProcessResponse) = handler_HandleRequest now e h
            in (h' # hs, if shouldProcessResponse then Some 0 else None))
      else (let (hs', i) = RouteRequest now e hs in (h # hs', map_option Suc i)))"

definition HandlerCount :: "router \<Rightarrow> nat" where
  "HandlerCount r = length r"

definition registerHandlers :: "router \<Rightarrow> router" where
  "registerHandlers r =
     Register (EngineNewPayload \<lparr>npPending = Map.empty\<rparr>)
       (Register (EngineGetBlobs \<lparr>gbPending = Map.empty\<rparr>) r)"

definition RegisterMetadataUpdateCallback :: "router \<Rightarrow> router" where
  "RegisterMetadataUpdateCallback r = Register EngineClientVersion r"

text \<open>\<open>handler.HandleResponse\<close> on the handler the caller kept.\<close>

definition respond_at :: "bytes \<Rightarrow> 'm \<Rightarrow> response_event \<Rightarrow> nat \<Rightarrow> router \<Rightarrow> router \<times> 'm effect list" where
  "respond_at u m r i hs =
     (if i < length hs
      then (let (h', es) = handler_HandleResponse u m r (hs ! i) in (hs[i := h'], es))
      else (hs, []))"

text \<open>The router of an enabled service.\<close>

definition serviceRouter :: router where
  "serviceRouter = RegisterMetadataUpdateCallback (registerHandlers [])"

end
