(* ===== verification/XatuService.thy ===== *)
theory XatuService
  imports XatuConfig ClientVersion "HOL-Library.Multiset"
begin

text \<open>
  The publisher (\<open>xatu/publisher.go\<close>) and the service around it (\<open>xatu/xatu.go\<close>), with their
  disabled twins. A sink is a value of the external output library: creating it, starting,
  stopping and feeding it succeed or fail by a parameter. \<open>sinkLog\<close> records every call made on a
  sink, with its outcome. \<open>Get\<close> of the metadata provider is what it returns at that moment.
\<close>

subsection \<open>Sinks\<close>

record keepalive_settings =
  ksEnabled :: "bool option"
  ksTime :: int
  ksTimeout :: int

record http_sink =
  hsAddress :: bytes
  hsHeaders :: "bytes \<rightharpoonup> bytes"
  hsMaxQueueSize :: int
  hsBatchTimeout :: int
  hsExportTimeout :: int
  hsMaxExportBatchSize :: int

record xatu_sink = http_sink +
  xsTLS :: bool
  xsWorkers :: int
  xsKeepAlive :: keepalive_settings

datatype sink_config = StdoutSink | HttpSink http_sink | XatuSink xatu_sink

datatype sink = Sink (sink_Name: bytes) (sink_conf: sink_config)

datatype 'e sink_call = SinkStart sink bool | SinkStop sink bool | SinkHandle sink 'e bool

text \<open>\<open>defaults.Set\<close>, the constructors and the methods of the sinks.\<close>

record 'e sink_lib =
  defaultsSet :: "sink_config \<Rightarrow> sink_config option"
  sinkNew :: "bytes \<Rightarrow> sink_config \<Rightarrow> bool"
  sinkStart :: "sink \<Rightarrow> bool"
  sinkStop :: "sink \<Rightarrow> bool"
  sinkHandle :: "sink \<Rightarrow> 'e \<Rightarrow> bool"

subsection \<open>Configured values or defaults\<close>

definition getMaxQueueSize :: "xatu_config \<Rightarrow> int" where
  "getMaxQueueSize c = (if 0 < xcMaxQueueSize c then xcMaxQueueSize c else 51200)"

definition getMaxExportBatchSize :: "xatu_config \<Rightarrow> int" where
  "getMaxExportBatchSize c = (if 0 < xcMaxExportBatchSize c then xcMaxExportBatchSize c else 512)"

definition getWorkers :: "xatu_config \<Rightarrow> int" where
  "getWorkers c = (if 0 < xcWorkers c then xcWorkers c else 5)"

definition getBatchTimeout :: "xatu_config \<Rightarrow> int" where
  "getBatchTimeout c = (if 0 < xcBatchTimeout c then xcBatchTimeout c else 5000000000)"

definition getExportTimeout :: "xatu_config \<Rightarrow> int" where
  "getExportTimeout c = (if 0 < xcExportTimeout c then xcExportTimeout c else 30000000000)"

definition getKeepAliveConfig :: "xatu_config \<Rightarrow> keepalive_settings" where
  "getKeepAliveConfig c =
     \<lparr>ksEnabled = (if kaEnabled (xcKeepAlive c) then Some True else None),
      ksTime = (if 0 < kaTime (xcKeepAlive c) then kaTime (xcKeepAlive c) else 0),
      ksTimeout = (if 0 < kaTimeout (xcKeepAlive c) then kaTimeout (xcKeepAlive c) else 0)\<rparr>"

subsection \<open>The publisher\<close>

datatype publisher_error =
    SetDefaults bytes
  | NewFailed bytes
  | UnknownType bytes
  | CreateFailed nat bytes publisher_error
  | StartFailed nat bytes
  | StopFailed bytes
  | HandleFailed bytes

definition newSink :: "'e sink_lib \<Rightarrow> bytes \<Rightarrow> bytes \<Rightarrow> sink_config \<Rightarrow> publisher_error + sink" where
  "newSink L typ name conf0 =
     (case defaultsSet L conf0 of
        None \<Rightarrow> Inl (SetDefaults typ)
      | Some conf \<Rightarrow> if sinkNew L name conf then Inr (Sink name conf) else Inl (NewFailed name))"

definition createSink :: "'e sink_lib \<Rightarrow> xatu_config \<Rightarrow> output_config \<Rightarrow> nat \<Rightarrow> publisher_error + sink" where
  "createSink L c outConfig index =
     (let name = ocType outConfig @ ''-'' @ show_nat index
      in if ocType outConfig = OutputTypeStdout then newSink L ''stdout'' name StdoutSink
         else if ocType outConfig = OutputTypeHTTP
         then newSink L ''http'' name (HttpSink
                \<lparr>hsAddress = ocAddress outConfig, hsHeaders = xcHeaders c, hsMaxQueueSize = getMaxQueueSize c,
                 hsBatchTimeout = getBatchTimeout c, hsExportTimeout = getExportTimeout c,
                 hsMaxExportBatchSize = getMaxExportBatchSize c\<rparr>)
         else if ocType outConfig = OutputTypeXatu
         then newSink L ''xatu'' name (XatuSink
                \<lparr>hsAddress = ocAddress outConfig, hsHeaders = xcHeaders c, hsMaxQueueSize = getMaxQueueSize c,
                 hsBatchTimeout = getBatchTimeout c, hsExportTimeout = getExportTimeout c,
                 hsMaxExportBatchSize = getMaxExportBatchSize c, xsTLS = xcTLS c, xsWorkers = getWorkers c,
                 xsKeepAlive = getKeepAliveConfig c\<rparr>)
         else Inl (UnknownType (ocType outConfig)))"

record 'e publisher =
  pubConfig :: xatu_config
  pubSinks :: "sink list"
  hasProvider :: bool
  sinkLog :: "'e sink_call list"

definition NewPublisher :: "xatu_config \<Rightarrow> 'e publisher" where
  "NewPublisher c = \<lparr>pubConfig = c, pubSinks = [], hasProvider = False, sinkLog = []\<rparr>"

definition pub_SetMetadataProvider :: "'e publisher \<Rightarrow> 'e publisher" where
  "pub_SetMetadataProvider p = p\<lparr>hasProvider := True\<rparr>"

definition log_call :: "'e sink_call \<Rightarrow> 'e publisher \<Rightarrow> 'e publisher" where
  "log_call x p = p\<lparr>sinkLog := sinkLog p @ [x]\<rparr>"

fun startSinks ::
  "'e sink_lib \<Rightarrow> nat \<Rightarrow> output_config list \<Rightarrow> 'e publisher \<Rightarrow> 'e publisher \<times> publisher_error option" where
  "startSinks L i [] p = (p, None)"
| "startSinks L i (outConfig # outs) p =
     (case createSink L (pubConfig p) outConfig i of
        Inl err \<Rightarrow> (p, Some (CreateFailed i (ocType outConfig) err))
      | Inr s \<Rightarrow>
          let p1 = log_call (SinkStart s (sinkStart L s)) p
          in if \<not> sinkStart L s then (p1, Some (StartFailed i (ocType outConfig)))
             else startSinks L (i + 1) outs (p1\<lparr>pubSinks := pubSinks p1 @ [s]\<rparr>))"

definition pub_Start :: "'e sink_lib \<Rightarrow> 'e publisher \<Rightarrow> 'e publisher \<times> publisher_error option" where
  "pub_Start L p = startSinks L 0 (xcOutputs (pubConfig p)) p"

fun stopSinks :: "'e sink_lib \<Rightarrow> sink list \<Rightarrow> publisher_error option \<Rightarrow> 'e publisher \<Rightarrow>
   'e publisher \<times> publisher_error option" where
  "stopSinks L [] lastErr p = (p, lastErr)"
| "stopSinks L (s # ss) lastErr p =
     stopSinks L ss (if sinkStop L s then lastErr else Some (StopFailed (sink_Name s)))
       (log_call (SinkStop s (sinkStop L s)) p)"

definition pub_Stop :: "'e sink_lib \<Rightarrow> 'e publisher \<Rightarrow> 'e publisher \<times> publisher_error option" where
  "pub_Stop L p =
     (let (p1, lastErr) = stopSinks L (pubSinks p) None p in (p1\<lparr>pubSinks := []\<rparr>, lastErr))"

fun feedSinks :: "'e sink_lib \<Rightarrow> 'e \<Rightarrow> sink list \<Rightarrow> publisher_error option \<Rightarrow> 'e publisher \<Rightarrow>
   'e publisher \<times> publisher_error option" where
  "feedSinks L e [] lastErr p = (p, lastErr)"
| "feedSinks L e (s # ss) lastErr p =
     feedSinks L e ss (if sinkHandle L s e then lastErr else Some (HandleFailed (sink_Name s)))
       (log_call (SinkHandle s e (sinkHandle L s e)) p)"

definition pub_Publish ::
  "'e sink_lib \<Rightarrow> execution_metadata option \<Rightarrow> 'e \<Rightarrow> 'e publisher \<Rightarrow> 'e publisher \<times> publisher_error option" where
  "pub_Publish L md e p =
     (if \<not> hasProvider p \<or> md = None then (p, None) else feedSinks L e (pubSinks p) None p)"

text \<open>The metadata attached to events.\<close>

record client_meta =
  cmName :: bytes
  cmVersion :: bytes
  cmImplementation :: bytes
  cmLabels :: "bytes \<rightharpoonup> bytes"
  cmModuleName :: bytes
  cmNetworkName :: bytes
  cmNetworkID :: u64
  cmExecution :: "execution_metadata option"

definition pub_ClientMeta :: "bytes \<Rightarrow> execution_metadata option \<Rightarrow> 'e publisher \<Rightarrow> client_meta" where
  "pub_ClientMeta buildVersion md p =
     \<lparr>cmName = xcName (pubConfig p), cmVersion = buildVersion, cmImplementation = ''rpc-snooper'',
      cmLabels = xcLabels (pubConfig p), cmModuleName = ''RPC_SNOOPER'',
      cmNetworkName = xcNetworkName (pubConfig p), cmNetworkID = xcNetworkID (pubConfig p),
      cmExecution = (if hasProvider p then md else None)\<rparr>"

subsection \<open>The service\<close>

record 'e service =
  svcConfig :: xatu_config
  svcPublisher :: "'e publisher"
  svcRouter :: router
  svcStarted :: bool

text \<open>What \<open>NewService\<close> returns: the disabled service or a real one.\<close>

datatype 'e xatu_service = NoopService | RealService "'e service"

definition NewService :: "xatu_config option \<Rightarrow> config_error + 'e xatu_service" where
  "NewService config =
     (case config of
        None \<Rightarrow> Inr NoopService
      | Some c \<Rightarrow>
          if \<not> xcEnabled c then Inr NoopService
          else (case Validate c of
                  Some err \<Rightarrow> Inl err
                | None \<Rightarrow> Inr (RealService \<lparr>svcConfig = c, svcPublisher = NewPublisher c,
                                svcRouter = registerHandlers [], svcStarted = False\<rparr>)))"

definition real_Start :: "'e sink_lib \<Rightarrow> 'e service \<Rightarrow> 'e service \<times> publisher_error option" where
  "real_Start L s =
     (if svcStarted s then (s, None)
      else case pub_Start L (svcPublisher s) of
             (p, Some err) \<Rightarrow> (s\<lparr>svcPublisher := p\<rparr>, Some err)
           | (p, None) \<Rightarrow> (s\<lparr>svcPublisher := p, svcStarted := True\<rparr>, None))"

definition real_Stop :: "'e sink_lib \<Rightarrow> 'e service \<Rightarrow> 'e service \<times> publisher_error option" where
  "real_Stop L s =
     (if \<not> svcStarted s then (s, None)
      else case pub_Stop L (svcPublisher s) of
             (p, Some err) \<Rightarrow> (s\<lparr>svcPublisher := p\<rparr>, Some err)
           | (p, None) \<Rightarrow> (s\<lparr>svcPublisher := p, svcStarted := False\<rparr>, None))"

definition real_Publish ::
  "'e sink_lib \<Rightarrow> execution_metadata option \<Rightarrow> 'e \<Rightarrow> 'e service \<Rightarrow> 'e service \<times> publisher_error option" where
  "real_Publish L md e s =
     (let (p, err) = pub_Publish L md e (svcPublisher s) in (s\<lparr>svcPublisher := p\<rparr>, err))"

text \<open>The interface \<open>Service\<close>.\<close>

fun svc_Start :: "'e sink_lib \<Rightarrow> 'e xatu_service \<Rightarrow> 'e xatu_service \<times> publisher_error option" where
  "svc_Start L NoopService = (NoopService, None)"
| "svc_Start L (RealService s) = (let (s', err) = real_Start L s in (RealService s', err))"

fun svc_Stop :: "'e sink_lib \<Rightarrow> 'e xatu_service \<Rightarrow> 'e xatu_service \<times> publisher_error option" where
  "svc_Stop L NoopService = (NoopService, None)"
| "svc_Stop L (RealService s) = (let (s', err) = real_Stop L s in (RealService s', err))"

fun svc_Publish ::
  "'e sink_lib \<Rightarrow> execution_metadata option \<Rightarrow> 'e \<Rightarrow> 'e xatu_service \<Rightarrow> 'e xatu_service \<times> publisher_error option" where
  "svc_Publish L md e NoopService = (NoopService, None)"
| "svc_Publish L md e (RealService s) = (let (s', err) = real_Publish L md e s in (RealService s', err))"

fun svc_SetMetadataProvider :: "'e xatu_service \<Rightarrow> 'e xatu_service" where
  "svc_SetMetadataProvider NoopService = NoopService"
| "svc_SetMetadataProvider (RealService s) =
     RealService (s\<lparr>svcPublisher := pub_SetMetadataProvider (svcPublisher s)\<rparr>)"

fun svc_RegisterMetadataUpdateCallback :: "'e xatu_service \<Rightarrow> 'e xatu_service" where
  "svc_RegisterMetadataUpdateCallback NoopService = NoopService"
| "svc_RegisterMetadataUpdateCallback (RealService s) =
     RealService (s\<lparr>svcRouter := RegisterMetadataUpdateCallback (svcRouter s)\<rparr>)"

fun svc_Router :: "'e xatu_service \<Rightarrow> router option" where
  "svc_Router NoopService = None"
| "svc_Router (RealService s) = Some (svcRouter s)"

fun svc_IsEnabled :: "'e xatu_service \<Rightarrow> bool" where
  "svc_IsEnabled NoopService = False"
| "svc_IsEnabled (RealService s) = xcEnabled (svcConfig s)"

subsection \<open>Lemmas\<close>

definition sinkNames :: "nat \<Rightarrow> output_config list \<Rightarrow> bytes list" where
  "sinkNames i outs = map (\<lambda>(j, out). ocType out @ ''-'' @ show_nat j) (enumerate i outs)"

lemma sinkNames_simps [simp]:
  "sinkNames i [] = []"
  "sinkNames i (out # outs) = (ocType out @ ''-'' @ show_nat i) # sinkNames (i + 1) outs"
  by (simp_all add: sinkNames_def)

lemma length_sinkNames [simp]: "length (sinkNames i outs) = length outs"
  by (simp add: sinkNames_def)

lemma log_call_simps [simp]:
  "pubConfig (log_call x p) = pubConfig p" "pubSinks (log_call x p) = pubSinks p"
  "hasProvider (log_call x p) = hasProvider p" "sinkLog (log_call x p) = sinkLog p @ [x]"
  by (simp_all add: log_call_def)

lemma createSink_Name: "createSink L c out i = Inr s \<Longrightarrow> sink_Name s = ocType out @ ''-'' @ show_nat i"
  by (auto simp: createSink_def newSink_def Let_def split: if_splits option.splits)

lemma createSink_type: "createSink L c out i = Inr s \<Longrightarrow> ocType out \<in> {''stdout'', ''http'', ''xatu''}"
  by (auto simp: createSink_def output_types Let_def split: if_splits)

text \<open>What a start did: the sinks of the outputs up to the first that failed are running.\<close>

definition started_as ::
  "nat \<Rightarrow> output_config list \<Rightarrow> 'e publisher \<Rightarrow> 'e publisher \<Rightarrow> publisher_error option \<Rightarrow> nat \<Rightarrow> sink list \<Rightarrow>
   'e sink_call list \<Rightarrow> bool" where
  "started_as i outs p p' err k ss bad \<longleftrightarrow>
     p' = p\<lparr>pubSinks := pubSinks p @ ss, sinkLog := sinkLog p @ map (\<lambda>s. SinkStart s True) ss @ bad\<rparr> \<and>
     map sink_Name ss = take k (sinkNames i outs) \<and>
     list_all (\<lambda>out. ocType out \<in> {''stdout'', ''http'', ''xatu''}) (take k outs) \<and>
     (err = None \<and> k = length outs \<and> bad = [] \<or>
      k < length outs \<and> bad = [] \<and> (\<exists>t x. err = Some (CreateFailed (i + k) t x)) \<or>
      k < length outs \<and> (\<exists>s t. bad = [SinkStart s False] \<and> err = Some (StartFailed (i + k) t)))"

lemma startSinks_started:
  "startSinks L i outs p = (p', err) \<Longrightarrow> \<exists>k ss bad. started_as i outs p p' err k ss bad"
proof (induction outs arbitrary: i p)
  case Nil
  then have "started_as i [] p p' err 0 [] []" by (auto simp: started_as_def)
  then show ?case by blast
next
  case (Cons out outs)
  show ?case
  proof (cases "createSink L (pubConfig p) out i")
    case (Inl e)
    with Cons.prems have "started_as i (out # outs) p p' err 0 [] []" by (auto simp: started_as_def)
    then show ?thesis by blast
  next
    case (Inr s)
    show ?thesis
    proof (cases "sinkStart L s")
      case False
      with Cons.prems Inr have "started_as i (out # outs) p p' err 0 [] [SinkStart s False]"
        by (auto simp: started_as_def Let_def log_call_def)
      then show ?thesis by blast
    next
      case True
      let ?p = "(log_call (SinkStart s True) p)\<lparr>pubSinks := pubSinks p @ [s]\<rparr>"
      from Cons.prems Inr True have "startSinks L (i + 1) outs ?p = (p', err)" by (simp add: Let_def)
      then obtain k ss bad where "started_as (i + 1) outs ?p p' err k ss bad" using Cons.IH by blast
      then have "started_as i (out # outs) p p' err (k + 1) (s # ss) bad"
        using createSink_Name [OF Inr] createSink_type [OF Inr] by (auto simp: started_as_def log_call_def)
      then show ?thesis by blast
    qed
  qed
qed

lemma pub_Start_started:
  "pub_Start L p = (p', err) \<Longrightarrow> \<exists>k ss bad. started_as 0 (xcOutputs (pubConfig p)) p p' err k ss bad"
  by (simp add: pub_Start_def startSinks_started)

lemma stopSinks_eq:
  "fst (stopSinks L ss e p) = p\<lparr>sinkLog := sinkLog p @ map (\<lambda>s. SinkStop s (sinkStop L s)) ss\<rparr>"
  by (induction ss arbitrary: e p) (simp_all add: log_call_def)

lemma feedSinks_eq:
  "fst (feedSinks L x ss e p) = p\<lparr>sinkLog := sinkLog p @ map (\<lambda>s. SinkHandle s x (sinkHandle L s x)) ss\<rparr>"
  by (induction ss arbitrary: e p) (simp_all add: log_call_def)

lemma pub_Stop_eq:
  "fst (pub_Stop L p) = p\<lparr>sinkLog := sinkLog p @ map (\<lambda>s. SinkStop s (sinkStop L s)) (pubSinks p), pubSinks := []\<rparr>"
  using stopSinks_eq [of L "pubSinks p" None p] by (simp add: pub_Stop_def split_def)

lemma pub_Publish_eq:
  "fst (pub_Publish L md x p) =
     (if hasProvider p \<and> md \<noteq> None
      then p\<lparr>sinkLog := sinkLog p @ map (\<lambda>s. SinkHandle s x (sinkHandle L s x)) (pubSinks p)\<rparr> else p)"
  by (simp add: pub_Publish_def feedSinks_eq)

lemma pub_Publish_idle: "\<not> hasProvider p \<or> md = None \<or> pubSinks p = [] \<Longrightarrow> pub_Publish L md x p = (p, None)"
  by (auto simp: pub_Publish_def)

subsection \<open>Sinks are used only while they run\<close>

text \<open>Replaying a log: which sinks run after it, \<open>None\<close> when a sink is fed or stopped that does
  not run.\<close>

fun running :: "sink multiset \<Rightarrow> 'e sink_call list \<Rightarrow> sink multiset option" where
  "running M [] = Some M"
| "running M (SinkStart s ok # cs) = running (if ok then add_mset s M else M) cs"
| "running M (SinkStop s ok # cs) = (if s \<in># M then running (M - {#s#}) cs else None)"
| "running M (SinkHandle s e ok # cs) = (if s \<in># M then running M cs else None)"

lemma running_append: "running M (xs @ ys) = Option.bind (running M xs) (\<lambda>M'. running M' ys)"
  by (induction M xs rule: running.induct) auto

lemma running_starts: "running M (map (\<lambda>s. SinkStart s True) ss) = Some (M + mset ss)"
  by (induction ss arbitrary: M) auto

lemma running_stops: "running (M + mset ss) (map (\<lambda>s. SinkStop s (f s)) ss) = Some M"
  by (induction ss arbitrary: M) auto

lemma running_feeds: "set ss \<subseteq> set_mset M \<Longrightarrow> running M (map (\<lambda>s. SinkHandle s e (f s)) ss) = Some M"
  by (induction ss) auto

text \<open>A service that starts, stops and publishes sinks: its log stays consistent with the
  sinks it holds, nothing leaves the log, and without metadata nothing is published.\<close>

datatype ('l, 'md, 'e) service_op = OpStart 'l | OpStop 'l | OpPublish 'l "'md option" 'e | OpProvider

locale publishing_service =
  fixes start stop :: "'l \<Rightarrow> 's \<Rightarrow> 's \<times> 'err option"
    and publish :: "'l \<Rightarrow> 'md option \<Rightarrow> 'e \<Rightarrow> 's \<Rightarrow> 's \<times> 'err option"
    and provide :: "'s \<Rightarrow> 's"
    and calls :: "'s \<Rightarrow> 'e sink_call list"
    and held :: "'s \<Rightarrow> sink multiset"
  assumes start_replay: "running {#} (calls s) = Some (held s) \<Longrightarrow>
      running {#} (calls (fst (start l s))) = Some (held (fst (start l s)))"
    and stop_replay: "running {#} (calls s) = Some (held s) \<Longrightarrow>
      running {#} (calls (fst (stop l s))) = Some (held (fst (stop l s)))"
    and publish_replay: "running {#} (calls s) = Some (held s) \<Longrightarrow>
      running {#} (calls (fst (publish l md e s))) = Some (held (fst (publish l md e s)))"
    and provide_same: "calls (provide s) = calls s" "held (provide s) = held s"
    and silent: "publish l None e s = (s, None)"
begin

definition do_op :: "('l, 'md, 'e) service_op \<Rightarrow> 's \<Rightarrow> 's" where
  "do_op x s = (case x of OpStart l \<Rightarrow> fst (start l s) | OpStop l \<Rightarrow> fst (stop l s)
     | OpPublish l md e \<Rightarrow> fst (publish l md e s) | OpProvider \<Rightarrow> provide s)"

lemma history_replays:
  "running {#} (calls s) = Some (held s) \<Longrightarrow>
     running {#} (calls (fold do_op xs s)) = Some (held (fold do_op xs s))"
  by (induction xs arbitrary: s)
     (auto simp: do_op_def provide_same split: service_op.split intro: start_replay stop_replay publish_replay)

lemma unannounced_events_vanish: "do_op (OpPublish l None e) s = s"
  by (simp add: do_op_def silent)

end

fun svc_calls :: "'e xatu_service \<Rightarrow> 'e sink_call list" where
  "svc_calls NoopService = []"
| "svc_calls (RealService s) = sinkLog (svcPublisher s)"

fun svc_held :: "'e xatu_service \<Rightarrow> sink multiset" where
  "svc_held NoopService = {#}"
| "svc_held (RealService s) = mset (pubSinks (svcPublisher s))"

lemma pub_Start_replay:
  assumes "running {#} (sinkLog p) = Some (mset (pubSinks p))"
  shows "running {#} (sinkLog (fst (pub_Start L p))) = Some (mset (pubSinks (fst (pub_Start L p))))"
proof -
  obtain p' err where r: "pub_Start L p = (p', err)" by (cases "pub_Start L p")
  then obtain k ss bad where "started_as 0 (xcOutputs (pubConfig p)) p p' err k ss bad"
    using pub_Start_started by blast
  then show ?thesis
    using assms by (auto simp: r started_as_def running_append running_starts)
qed

lemma pub_Stop_replay:
  "running {#} (sinkLog p) = Some (mset (pubSinks p)) \<Longrightarrow>
     running {#} (sinkLog (fst (pub_Stop L p))) = Some (mset (pubSinks (fst (pub_Stop L p))))"
  using running_stops [of "{#}" "pubSinks p" "sinkStop L"] by (simp add: pub_Stop_eq running_append)

lemma pub_Publish_replay:
  "running {#} (sinkLog p) = Some (mset (pubSinks p)) \<Longrightarrow>
     running {#} (sinkLog (fst (pub_Publish L md e p))) = Some (mset (pubSinks (fst (pub_Publish L md e p))))"
  using running_feeds [of "pubSinks p" "mset (pubSinks p)" e "\<lambda>s. sinkHandle L s e"]
  by (simp add: pub_Publish_eq running_append)

lemma real_parts:
  "svcPublisher (fst (real_Start L s)) =
     (if svcStarted s then svcPublisher s else fst (pub_Start L (svcPublisher s)))"
  "svcPublisher (fst (real_Stop L s)) =
     (if svcStarted s then fst (pub_Stop L (svcPublisher s)) else svcPublisher s)"
  "svcPublisher (fst (real_Publish L md e s)) = fst (pub_Publish L md e (svcPublisher s))"
  by (auto simp: real_Start_def real_Stop_def real_Publish_def split: prod.splits option.splits)

interpretation sv: publishing_service svc_Start svc_Stop svc_Publish svc_SetMetadataProvider svc_calls svc_held
proof unfold_locales
  fix s :: "'e xatu_service" and l :: "'e sink_lib" and md e
  assume ok: "running {#} (svc_calls s) = Some (svc_held s)"
  show "running {#} (svc_calls (fst (svc_Start l s))) = Some (svc_held (fst (svc_Start l s)))"
    using ok by (cases s) (simp_all add: split_def Let_def real_parts pub_Start_replay)
  show "running {#} (svc_calls (fst (svc_Stop l s))) = Some (svc_held (fst (svc_Stop l s)))"
    using ok by (cases s) (simp_all add: split_def Let_def real_parts pub_Stop_replay)
  show "running {#} (svc_calls (fst (svc_Publish l md e s))) = Some (svc_held (fst (svc_Publish l md e s)))"
    using ok by (cases s) (simp_all add: split_def Let_def real_parts pub_Publish_replay)
next
  fix s :: "'e xatu_service" and l :: "'e sink_lib" and e
  show "svc_calls (svc_SetMetadataProvider s) = svc_calls s" "svc_held (svc_SetMetadataProvider s) = svc_held s"
    by (cases s; simp add: pub_SetMetadataProvider_def)+
  show "svc_Publish l None e s = (s, None)"
    by (cases s) (simp_all add: real_Publish_def pub_Publish_idle)
qed

text \<open>A service about to start, and one that feeds a sink for each output.\<close>

definition fresh_service :: "xatu_config \<Rightarrow> 'e xatu_service \<Rightarrow> bool" where
  "fresh_service c svc \<longleftrightarrow>
     (\<exists>s. svc = RealService s \<and> \<not> svcStarted s \<and> pubConfig (svcPublisher s) = c \<and> pubSinks (svcPublisher s) = [] \<and>
        hasProvider (svcPublisher s))"

definition feeds_outputs :: "output_config list \<Rightarrow> 'e xatu_service \<Rightarrow> bool" where
  "feeds_outputs outs svc \<longleftrightarrow>
     (\<exists>s. svc = RealService s \<and> hasProvider (svcPublisher s) \<and>
        map sink_Name (pubSinks (svcPublisher s)) = sinkNames 0 outs)"

lemma fresh_service_new:
  "NewService (Some c) = Inr svc \<Longrightarrow> xcEnabled c \<Longrightarrow> fresh_service c (svc_SetMetadataProvider svc)"
  by (auto simp: NewService_def fresh_service_def pub_SetMetadataProvider_def NewPublisher_def split: option.splits)

lemma start_feeds:
  assumes "fresh_service c svc" and "svc_Start L svc = (svc1, None)"
  shows "feeds_outputs (xcOutputs c) svc1 \<and> list_all (\<lambda>out. ocType out \<in> {''stdout'', ''http'', ''xatu''}) (xcOutputs c)"
proof -
  obtain s where s: "svc = RealService s" "\<not> svcStarted s" "pubConfig (svcPublisher s) = c"
    "pubSinks (svcPublisher s) = []" "hasProvider (svcPublisher s)"
    using assms(1) by (auto simp: fresh_service_def)
  obtain p err where p: "pub_Start L (svcPublisher s) = (p, err)" by (cases "pub_Start L (svcPublisher s)")
  have err: "err = None" and svc1: "svc1 = RealService (s\<lparr>svcPublisher := p, svcStarted := True\<rparr>)"
    using assms(2) s p by (auto simp: real_Start_def Let_def split: option.splits)
  obtain k ss bad where "started_as 0 (xcOutputs c) (svcPublisher s) p err k ss bad"
    using pub_Start_started [OF p] s(3) by auto
  then show ?thesis
    using err s by (auto simp: started_as_def feeds_outputs_def svc1)
qed

lemma publish_feeds:
  assumes "feeds_outputs outs svc"
  shows "\<exists>ss. map sink_Name ss = sinkNames 0 outs \<and>
    svc_calls (fst (svc_Publish L (Some md) e svc)) = svc_calls svc @ map (\<lambda>s. SinkHandle s e (sinkHandle L s e)) ss"
proof -
  obtain s where s: "svc = RealService s" "hasProvider (svcPublisher s)"
    "map sink_Name (pubSinks (svcPublisher s)) = sinkNames 0 outs"
    using assms by (auto simp: feeds_outputs_def)
  then show ?thesis
    by (intro exI [of _ "pubSinks (svcPublisher s)"])
       (simp add: real_Publish_def pub_Publish_eq split_def Let_def)
qed

lemma publish_silent: "svc_Publish L None e svc = (svc, None)"
  by (cases svc) (simp_all add: real_Publish_def pub_Publish_idle)

subsection \<open>Properties\<close>

text \<open>C14: Whatever is done to a new service in whatever order - starting, stopping and publishing
  with any outcome, and giving it a metadata provider - a sink is fed or stopped only while it
  runs, and the sinks the service holds are exactly those started and not yet told to stop.\<close>

theorem sinks_used_while_running:
  assumes "NewService config = Inr svc"
  shows "running {#} (svc_calls (fold sv.do_op xs svc)) = Some (svc_held (fold sv.do_op xs svc))"
proof (rule sv.history_replays)
  show "running {#} (svc_calls svc) = Some (svc_held svc)"
    using assms by (auto simp: NewService_def NewPublisher_def split: option.splits if_splits)
qed

text \<open>A library in which everything works, except what \<open>bad\<close> names, and a configuration.\<close>

definition sample_lib :: "bytes list \<Rightarrow> bytes list \<Rightarrow> nat sink_lib" where
  "sample_lib badStart badStop =
     \<lparr>defaultsSet = Some, sinkNew = (\<lambda>_ _. True), sinkStart = (\<lambda>s. sink_Name s \<notin> set badStart),
      sinkStop = (\<lambda>s. sink_Name s \<notin> set badStop), sinkHandle = (\<lambda>_ _. True)\<rparr>"

definition sample_config :: xatu_config where
  "sample_config = disabled_config\<lparr>xcEnabled := True, xcName := ''n'', xcNetworkName := ''dev'', xcNetworkID := 1,
     xcOutputs := [\<lparr>ocType = ''stdout'', ocAddress = []\<rparr>]\<rparr>"

definition sample_service :: "nat xatu_service" where
  "sample_service = RealService \<lparr>svcConfig = sample_config, svcPublisher = NewPublisher sample_config,
     svcRouter = registerHandlers [], svcStarted = False\<rparr>"

lemma sample_service_new: "NewService (Some sample_config) = Inr sample_service"
  by (simp add: NewService_def sample_service_def sample_config_def Validate_def OutputConfig_Validate_def output_types)

definition sample_metadata :: execution_metadata where
  "sample_metadata = \<lparr>emImplementation = ''Geth'', emVersion = ''v1.14.0'', emVersionMajor = ''1'',
     emVersionMinor = ''14'', emVersionPatch = ''0''\<rparr>"

theorem sinks_used_while_running_witness:
  "running {#} (svc_calls (fold sv.do_op [OpProvider, OpStart (sample_lib [] []),
      OpPublish (sample_lib [] []) (Some sample_metadata) 5, OpStop (sample_lib [] [])] sample_service)) = Some {#} \<and>
   length (svc_calls (fold sv.do_op [OpProvider, OpStart (sample_lib [] []),
      OpPublish (sample_lib [] []) (Some sample_metadata) 5, OpStop (sample_lib [] [])] sample_service)) = 3"
  using sinks_used_while_running [OF sample_service_new, of "[OpProvider, OpStart (sample_lib [] []),
      OpPublish (sample_lib [] []) (Some sample_metadata) 5, OpStop (sample_lib [] [])]"]
  by (simp add: sv.do_op_def sample_service_def NewPublisher_def pub_SetMetadataProvider_def real_Start_def
      pub_Start_def sample_config_def createSink_def newSink_def sample_lib_def output_types log_call_def
      real_Publish_def pub_Publish_def real_Stop_def pub_Stop_def)

text \<open>After a successful start every event published while metadata is known is handed once
  to one sink per configured output, in their order and whether or not other sinks fail; while
  no metadata is known it is dropped without a trace.\<close>

theorem published_to_every_output:
  assumes "NewService (Some c) = Inr svc" and "xcEnabled c"
    and "svc_Start L (svc_SetMetadataProvider svc) = (svc1, None)"
  shows "\<exists>ss. map sink_Name ss = sinkNames 0 (xcOutputs c) \<and>
    svc_calls (fst (svc_Publish L' (Some md) e svc1)) =
      svc_calls svc1 @ map (\<lambda>s. SinkHandle s e (sinkHandle L' s e)) ss \<and>
    svc_Publish L' None e svc1 = (svc1, None)"
  using publish_feeds [OF conjunct1 [OF start_feeds [OF fresh_service_new [OF assms(1,2)] assms(3)]]]
  by (simp add: publish_silent)

theorem published_to_every_output_witness:
  "\<exists>svc1. svc_Start (sample_lib [] []) (svc_SetMetadataProvider sample_service) = (svc1, None) \<and>
     length (svc_calls (fst (svc_Publish (sample_lib [] []) (Some sample_metadata) 5 svc1))) = 2 \<and>
     svc_Publish (sample_lib [] []) None 5 svc1 = (svc1, None)"
proof -
  have e: "xcEnabled sample_config" "length (xcOutputs sample_config) = 1" by (simp_all add: sample_config_def)
  have "snd (svc_Start (sample_lib [] []) (svc_SetMetadataProvider sample_service)) = None \<and>
      length (svc_calls (fst (svc_Start (sample_lib [] []) (svc_SetMetadataProvider sample_service)))) = 1"
    by (simp add: sample_service_def NewPublisher_def pub_SetMetadataProvider_def real_Start_def
      pub_Start_def sample_config_def createSink_def newSink_def sample_lib_def output_types log_call_def)
  then obtain svc1 where s: "svc_Start (sample_lib [] []) (svc_SetMetadataProvider sample_service) = (svc1, None)"
      "length (svc_calls svc1) = 1"
    by (cases "svc_Start (sample_lib [] []) (svc_SetMetadataProvider sample_service)") simp
  obtain ss where "map sink_Name ss = sinkNames 0 (xcOutputs sample_config)"
    "svc_calls (fst (svc_Publish (sample_lib [] []) (Some sample_metadata) 5 svc1)) =
      svc_calls svc1 @ map (\<lambda>s. SinkHandle s 5 (sinkHandle (sample_lib [] []) s 5)) ss"
    "svc_Publish (sample_lib [] []) None 5 svc1 = (svc1, None)"
    using published_to_every_output [OF sample_service_new e(1) s(1)] by blast
  moreover from this(1) have "length ss = 1" using e(2) by (metis length_map length_sinkNames)
  ultimately show ?thesis using s by (intro exI [of _ svc1]) simp
qed

text \<open>A service whose start fails at output \<open>k\<close> has started the \<open>k\<close> sinks before it and keeps
  them, but it does not count as started, so stopping it stops none of them.\<close>

theorem failed_start_keeps_sinks:
  assumes "NewService (Some c) = Inr svc" and "svc_Start L svc = (svc1, Some err)"
  shows "\<exists>k ss. ((\<exists>t x. err = CreateFailed k t x) \<or> (\<exists>t. err = StartFailed k t)) \<and> k < length (xcOutputs c) \<and>
    svc_held svc1 = mset ss \<and> map sink_Name ss = take k (sinkNames 0 (xcOutputs c)) \<and>
    svc_Stop L' svc1 = (svc1, None)"
proof -
  obtain s where svc: "svc = RealService s" "svcPublisher s = NewPublisher c" "\<not> svcStarted s"
    using assms by (auto simp: NewService_def split: option.splits if_splits)
  obtain p e where p: "pub_Start L (NewPublisher c) = (p, e)" by (cases "pub_Start L (NewPublisher c)")
  have e: "e = Some err" and svc1: "svc1 = RealService (s\<lparr>svcPublisher := p\<rparr>)"
    using assms(2) svc p by (auto simp: real_Start_def Let_def split: option.splits)
  obtain k ss bad where "started_as 0 (xcOutputs c) (NewPublisher c) p e k ss bad"
    using pub_Start_started [OF p] by (auto simp: NewPublisher_def)
  then have "(\<exists>t x. err = CreateFailed k t x) \<or> (\<exists>t. err = StartFailed k t)" "k < length (xcOutputs c)"
      "pubSinks p = ss" "map sink_Name ss = take k (sinkNames 0 (xcOutputs c))"
    using e by (auto simp: started_as_def NewPublisher_def)
  then show ?thesis using svc(3) by (intro exI [of _ k] exI [of _ ss]) (simp add: svc1 real_Stop_def Let_def)
qed

definition two_outputs :: xatu_config where
  "two_outputs = sample_config\<lparr>xcOutputs :=
     [\<lparr>ocType = ''stdout'', ocAddress = []\<rparr>, \<lparr>ocType = ''kafka'', ocAddress = ''b:9092/t''\<rparr>]\<rparr>"

definition two_service :: "nat xatu_service" where
  "two_service = RealService \<lparr>svcConfig = two_outputs, svcPublisher = NewPublisher two_outputs,
     svcRouter = registerHandlers [], svcStarted = False\<rparr>"

lemma two_service_new: "NewService (Some two_outputs) = Inr two_service"
  by (simp add: NewService_def two_service_def two_outputs_def sample_config_def Validate_def OutputConfig_Validate_def
      output_types)

theorem failed_start_keeps_sinks_witness:
  "\<exists>svc1 err. svc_Start (sample_lib [] []) two_service = (svc1, Some err) \<and> size (svc_held svc1) = 1 \<and>
     svc_Stop (sample_lib [] []) svc1 = (svc1, None)"
proof -
  have "map_option (\<lambda>_. ()) (snd (svc_Start (sample_lib [] []) two_service)) = Some () \<and>
      size (svc_held (fst (svc_Start (sample_lib [] []) two_service))) = 1"
    by (simp add: two_service_def two_outputs_def NewPublisher_def real_Start_def
      pub_Start_def sample_config_def createSink_def newSink_def sample_lib_def output_types log_call_def)
  then obtain svc1 err where s: "svc_Start (sample_lib [] []) two_service = (svc1, Some err)" "size (svc_held svc1) = 1"
    by (cases "svc_Start (sample_lib [] []) two_service") auto
  with failed_start_keeps_sinks [OF two_service_new s(1)] show ?thesis by blast
qed

text \<open>C35: A stop during which a sink fails leaves a service that counts as started and holds no
  sinks: it cannot be started again, and every event published from then on is lost without
  an error.\<close>

theorem failed_stop_wedges:
  assumes "svc_Stop L svc = (svc1, Some err)"
  shows "svc_held svc1 = {#} \<and> svc_Start L' svc1 = (svc1, None) \<and> svc_Publish L'' md e svc1 = (svc1, None)"
proof -
  obtain s where s: "svc = RealService s" "svcStarted s" using assms
    by (cases svc) (auto simp: real_Stop_def Let_def split: if_splits)
  have svc1: "svc1 = RealService (s\<lparr>svcPublisher := fst (pub_Stop L (svcPublisher s))\<rparr>)"
    using assms s by (auto simp: real_Stop_def Let_def split: prod.splits option.splits)
  show ?thesis
    using s(2) by (simp add: svc1 real_Start_def real_Publish_def pub_Stop_eq pub_Publish_idle)
qed

theorem failed_stop_wedges_witness:
  "\<exists>svc1 svc2 err. svc_Start (sample_lib [] []) sample_service = (svc1, None) \<and>
     svc_Stop (sample_lib [] [''stdout-0'']) svc1 = (svc2, Some err) \<and> svc_Start (sample_lib [] []) svc2 = (svc2, None)"
proof -
  let ?r = "svc_Start (sample_lib [] []) sample_service"
  let ?r2 = "svc_Stop (sample_lib [] [''stdout-0'']) (fst ?r)"
  have "snd ?r = None \<and> map_option (\<lambda>_. ()) (snd ?r2) = Some ()"
    by (simp add: sample_service_def NewPublisher_def real_Start_def show_nat.simps digit_char_def digit_chars_def
      pub_Start_def sample_config_def createSink_def newSink_def sample_lib_def output_types log_call_def
      real_Stop_def pub_Stop_def)
  then obtain svc1 svc2 err where s: "?r = (svc1, None)" "svc_Stop (sample_lib [] [''stdout-0'']) svc1 = (svc2, Some err)"
    by (cases ?r; cases ?r2) auto
  with failed_stop_wedges [OF s(2)] show ?thesis by blast
qed

end
