(* ===== verification/Metadata.thy ===== *)
theory Metadata
  imports ClientVersion
begin

text \<open>
  Metadata of the execution client: \<open>snooper/execution_metadata.go\<close>. Reading a file, signing a
  token, the HTTP client, decoding a body and the parser of version strings are parameters.
  The retry loop may run for ever, so it is a partial function; the world it runs in says, for
  each attempt, what the network does and whether it is told to stop before the attempt or
  while it waits after it. Durations are nanoseconds.
\<close>

subsection \<open>Secrets\<close>

definition parseHexSecret :: "bytes \<Rightarrow> bytes" where
  "parseHexSecret s =
     (case hex_decode (TrimPrefix (TrimSpace s) ''0x'') of None \<Rightarrow> [] | Some secret \<Rightarrow> secret)"

definition looksLikePath :: "bytes \<Rightarrow> bool" where
  "looksLikePath s \<longleftrightarrow> HasPrefix s ''/'' \<or> HasPrefix s ''./'' \<or> HasPrefix s ''../''"

definition parseJWTSecret :: "(bytes \<Rightarrow> bytes option) \<Rightarrow> bytes \<Rightarrow> bytes" where
  "parseJWTSecret readFile s0 =
     (let s = TrimSpace s0
      in if s = [] then []
         else if looksLikePath s
         then (case readFile s of None \<Rightarrow> [] | Some data \<Rightarrow> parseHexSecret (TrimSpace data))
         else parseHexSecret s)"

subsection \<open>One fetch\<close>

record fetch_request =
  frMethod :: bytes
  frURL :: bytes
  frHeader :: "(bytes \<times> bytes) list"
  frBody :: json

record fetch_io =
  newRequestOk :: bool
  signHS256 :: "bytes \<Rightarrow> int \<Rightarrow> bytes option"
  unixNow :: int
  httpDo :: "fetch_request \<Rightarrow> (int \<times> bytes option) option"
  decodeJSON :: "bytes \<Rightarrow> json option"

datatype fetch_error =
    RequestError
  | TokenError
  | TransportError
  | StatusError int
  | ReadError
  | DecodeError
  | RPCError int bytes
  | EmptyResult

record fetcher =
  mfTarget :: bytes
  mfSecret :: bytes
  mfMetadata :: "execution_metadata option"
  mfReady :: bool
  mfDone :: bool

definition NewExecutionMetadataFetcher :: "(bytes \<Rightarrow> bytes option) \<Rightarrow> bytes \<Rightarrow> bytes \<Rightarrow> fetcher" where
  "NewExecutionMetadataFetcher readFile target jwtSecret =
     \<lparr>mfTarget = target, mfSecret = parseJWTSecret readFile jwtSecret, mfMetadata = None,
      mfReady = False, mfDone = False\<rparr>"

definition createJWTToken :: "fetch_io \<Rightarrow> fetcher \<Rightarrow> bytes option" where
  "createJWTToken io f = (if length (mfSecret f) = 0 then None else signHS256 io (mfSecret f) (unixNow io))"

definition clientVersionRequest :: json where
  "clientVersionRequest =
     JObj [(''jsonrpc'', JStr ''2.0''), (''method'', JStr ''engine_getClientVersionV1''),
           (''params'', JArr [JObj [(''code'', JStr ''RS''), (''name'', JStr ''rpc-snooper''),
              (''version'', JStr ''v0.0.0''), (''commit'', JStr ''00000000'')]]),
           (''id'', JNum 1)]"

definition fetchRequest :: "fetch_io \<Rightarrow> fetcher \<Rightarrow> fetch_error + fetch_request" where
  "fetchRequest io f =
     (if \<not> newRequestOk io then Inl RequestError
      else let req = \<lparr>frMethod = ''POST'', frURL = mfTarget f,
                      frHeader = [(''Content-Type'', ''application/json'')], frBody = clientVersionRequest\<rparr>
           in if 0 < length (mfSecret f)
              then (case createJWTToken io f of
                      None \<Rightarrow> Inl TokenError
                    | Some token \<Rightarrow> Inr (req\<lparr>frHeader := frHeader req @ [(''Authorization'', ''Bearer '' @ token)]\<rparr>))
              else Inr req)"

text \<open>Decoding into the struct of the response. Keys that differ only by case are taken in byte
  order, as in \<open>Unmarshal\<close>.\<close>

fun int_of_json :: "json \<Rightarrow> int option" where
  "int_of_json JNull = Some 0"
| "int_of_json (JNum q) =
     (if q = of_int \<lfloor>q\<rfloor> \<and> - (2 ^ 63) \<le> \<lfloor>q\<rfloor> \<and> \<lfloor>q\<rfloor> < 2 ^ 63 then Some \<lfloor>q\<rfloor> else None)"
| "int_of_json _ = None"

fun rpc_error_of_json :: "json \<Rightarrow> (int \<times> bytes) option option" where
  "rpc_error_of_json JNull = Some None"
| "rpc_error_of_json (JObj kvs) =
     (case (all_some (map int_of_json (field_values kvs ''code'')), string_of_field kvs ''message'') of
        (Some cs, Some msg) \<Rightarrow> Some (Some (if cs = [] then 0 else last cs, msg))
      | _ \<Rightarrow> None)"
| "rpc_error_of_json _ = None"

fun rpc_response_of_json :: "json \<Rightarrow> (client_version list \<times> (int \<times> bytes) option) option" where
  "rpc_response_of_json JNull = Some ([], None)"
| "rpc_response_of_json (JObj kvs) =
     (case (all_some (map parseClientVersionResponse (field_values kvs ''result'')),
            all_some (map rpc_error_of_json (field_values kvs ''error''))) of
        (Some rs, Some es) \<Rightarrow> Some (if rs = [] then [] else last rs, if es = [] then None else last es)
      | _ \<Rightarrow> None)"
| "rpc_response_of_json _ = None"

definition parseClientVersion :: "(bytes \<Rightarrow> execution_metadata) \<Rightarrow> client_version \<Rightarrow> execution_metadata" where
  "parseClientVersion parseVersion cv = parseVersion (version_string cv)"

definition fetchVersions :: "fetch_io \<Rightarrow> fetcher \<Rightarrow> fetch_error + client_version list" where
  "fetchVersions io f =
     (case fetchRequest io f of
        Inl err \<Rightarrow> Inl err
      | Inr req \<Rightarrow>
          (case httpDo io req of
             None \<Rightarrow> Inl TransportError
           | Some (status, bd) \<Rightarrow>
               if status \<noteq> 200 then Inl (StatusError status)
               else case bd of
                 None \<Rightarrow> Inl ReadError
               | Some bs \<Rightarrow>
                   (case Option.bind (decodeJSON io bs) rpc_response_of_json of
                      None \<Rightarrow> Inl DecodeError
                    | Some (versions, Some (code, msg)) \<Rightarrow> Inl (RPCError code msg)
                    | Some (versions, None) \<Rightarrow>
                        if length versions = 0 then Inl EmptyResult else Inr versions)))"

definition fetch :: "(bytes \<Rightarrow> execution_metadata) \<Rightarrow> fetch_io \<Rightarrow> fetcher \<Rightarrow> fetcher \<times> fetch_error option" where
  "fetch V io f =
     (case fetchVersions io f of
        Inl err \<Rightarrow> (f, Some err)
      | Inr versions \<Rightarrow> (f\<lparr>mfMetadata := Some (parseClientVersion V (hd versions))\<rparr>, None))"

subsection \<open>Passive updates\<close>

definition Update :: "(bytes \<Rightarrow> execution_metadata) \<Rightarrow> client_version list \<Rightarrow> fetcher \<Rightarrow> fetcher" where
  "Update V versions f =
     (if length versions = 0 then f else f\<lparr>mfMetadata := Some (parseClientVersion V (hd versions))\<rparr>)"

definition Get :: "fetcher \<Rightarrow> execution_metadata option" where
  "Get f = mfMetadata f"

subsection \<open>Retrying\<close>

datatype stop_reason = ContextDone | FetcherStopped

record retry_world =
  stopBefore :: "nat \<Rightarrow> stop_reason option"
  attemptIO :: "nat \<Rightarrow> fetch_io"
  stopDuring :: "nat \<Rightarrow> stop_reason option"

definition initialRetryDelay :: int where "initialRetryDelay = 2000000000"
definition maxRetryDelay :: int where "maxRetryDelay = 30000000000"

definition nextDelay :: "int \<Rightarrow> int" where
  "nextDelay d = (if d * 2 > maxRetryDelay then maxRetryDelay else d * 2)"

partial_function (option) retryLoop ::
  "(bytes \<Rightarrow> execution_metadata) \<Rightarrow> retry_world \<Rightarrow> nat \<Rightarrow> int \<Rightarrow> int list \<Rightarrow> fetcher \<Rightarrow>
   (fetcher \<times> int list \<times> stop_reason option) option" where
  "retryLoop V W n delay waits f =
     (case stopBefore W n of
        Some r \<Rightarrow> Some (f, waits, Some r)
      | None \<Rightarrow>
          (case fetch V (attemptIO W n) f of
             (f1, None) \<Rightarrow> Some (f1, waits, None)
           | (f1, Some err) \<Rightarrow>
               (case stopDuring W n of
                  Some r \<Rightarrow> Some (f1, waits, Some r)
                | None \<Rightarrow> retryLoop V W (n + 1) (nextDelay delay) (waits @ [delay]) f1)))"

declare retryLoop.simps [code]

definition fetchWithRetries ::
  "(bytes \<Rightarrow> execution_metadata) \<Rightarrow> retry_world \<Rightarrow> fetcher \<Rightarrow> (fetcher \<times> int list \<times> stop_reason option) option" where
  "fetchWithRetries V W f = retryLoop V W 0 initialRetryDelay [] f"

text \<open>\<open>Start\<close>: the metadata is announced once it has been fetched; the refresh loop then runs
  (\<open>refreshTick\<close> is one round of it).\<close>

definition fetcher_Start ::
  "(bytes \<Rightarrow> execution_metadata) \<Rightarrow> retry_world \<Rightarrow> fetcher \<Rightarrow> (fetcher \<times> int list \<times> stop_reason option) option" where
  "fetcher_Start V W f =
     (case fetchWithRetries V W f of
        None \<Rightarrow> None
      | Some (f1, waits, Some r) \<Rightarrow> Some (f1, waits, Some r)
      | Some (f1, waits, None) \<Rightarrow> Some (f1\<lparr>mfReady := True\<rparr>, waits, None))"

definition refreshTick :: "(bytes \<Rightarrow> execution_metadata) \<Rightarrow> fetch_io \<Rightarrow> fetcher \<Rightarrow> fetcher" where
  "refreshTick V io f = fst (fetch V io f)"

text \<open>\<open>Stop\<close>; \<open>None\<close> is the panic of closing \<open>done\<close> twice.\<close>

definition fetcher_Stop :: "fetcher \<Rightarrow> fetcher option" where
  "fetcher_Stop f = (if mfDone f then None else Some (f\<lparr>mfDone := True\<rparr>))"

subsection \<open>Lemmas\<close>

lemma fetch_failed: "fetch V io f = (f1, Some err) \<Longrightarrow> f1 = f"
  by (auto simp: fetch_def split: sum.splits)

lemma fetch_ok: "fetch V io f = (f1, None) \<Longrightarrow>
    \<exists>v vs. fetchVersions io f = Inr (v # vs) \<and> f1 = f\<lparr>mfMetadata := Some (parseClientVersion V v)\<rparr>"
  by (auto simp: fetch_def fetchVersions_def neq_Nil_conv
      split: sum.splits option.splits prod.splits if_splits)

text \<open>Attempt \<open>k\<close> ends the loop.\<close>

definition ends :: "retry_world \<Rightarrow> fetcher \<Rightarrow> nat \<Rightarrow> bool" where
  "ends W f k \<longleftrightarrow> stopBefore W k \<noteq> None \<or> \<not> isl (fetchVersions (attemptIO W k) f) \<or> stopDuring W k \<noteq> None"

definition backoff :: "nat \<Rightarrow> int" where
  "backoff i = min (2 ^ (i + 1)) 30 * 1000000000"

lemma nextDelay_backoff: "nextDelay (backoff i) = backoff (i + 1)"
proof (cases "i < 4")
  case True
  then have "i = 0 \<or> i = 1 \<or> i = 2 \<or> i = 3" by auto
  then show ?thesis by (auto simp: nextDelay_def backoff_def maxRetryDelay_def)
next
  case False
  then have "(2 :: int) ^ 5 \<le> 2 ^ (i + 1)" by (intro power_increasing) auto
  then show ?thesis by (simp add: nextDelay_def backoff_def maxRetryDelay_def)
qed

lemma retryLoop_step:
  "\<not> ends W f n \<Longrightarrow> retryLoop V W n d waits f = retryLoop V W (n + 1) (nextDelay d) (waits @ [d]) f"
  by (subst retryLoop.simps) (auto simp: ends_def fetch_def split: sum.splits)

lemma retryLoop_end:
  "ends W f n \<Longrightarrow> \<exists>f1 r. retryLoop V W n d waits f = Some (f1, waits, r) \<and>
     (case r of None \<Rightarrow> mfMetadata f1 \<noteq> None | Some _ \<Rightarrow> f1 = f)"
  by (subst retryLoop.simps) (auto simp: ends_def fetch_def split: sum.splits option.splits)

lemma retryLoop_skip:
  "(\<And>j. n \<le> j \<Longrightarrow> j < n + m \<Longrightarrow> \<not> ends W f j) \<Longrightarrow>
   retryLoop V W n (backoff n) waits f = retryLoop V W (n + m) (backoff (n + m)) (waits @ map backoff [n..<n + m]) f"
proof (induction m)
  case (Suc m)
  then have "retryLoop V W n (backoff n) waits f =
      retryLoop V W (n + m) (backoff (n + m)) (waits @ map backoff [n..<n + m]) f"
    by simp
  also have "\<dots> = retryLoop V W (n + Suc m) (backoff (n + Suc m)) (waits @ map backoff [n..<n + Suc m]) f"
    using Suc.prems [of "n + m"] by (subst retryLoop_step) (simp_all add: nextDelay_backoff)
  finally show ?case .
qed simp

lemma retryLoop_ends:
  assumes "retryLoop V W n d waits f = Some y"
  shows "\<exists>k \<ge> n. ends W f k"
proof (rule retryLoop.raw_induct [where P = "\<lambda>V W n d waits f y. \<exists>k \<ge> n. ends W f k", OF _ assms])
  fix rec V W n d waits and f :: fetcher and y
  assume ih: "\<And>V W n d waits f y. rec V W n d waits f = Some y \<Longrightarrow> \<exists>k \<ge> n. ends W f k"
    and step: "(case stopBefore W n of Some r \<Rightarrow> Some (f, waits, Some r)
      | None \<Rightarrow> (case fetch V (attemptIO W n) f of (f1, None) \<Rightarrow> Some (f1, waits, None)
          | (f1, Some err) \<Rightarrow> (case stopDuring W n of Some r \<Rightarrow> Some (f1, waits, Some r)
              | None \<Rightarrow> rec V W (n + 1) (nextDelay d) (waits @ [d]) f1))) = Some y"
  show "\<exists>k \<ge> n. ends W f k"
  proof (cases "ends W f n")
    case False
    with step have "rec V W (n + 1) (nextDelay d) (waits @ [d]) f = Some y"
      by (auto simp: ends_def fetch_def split: sum.splits)
    from ih [OF this] show ?thesis by (meson add_leD1)
  qed blast
qed

lemma retryLoop_first:
  assumes "ends W f k" and "\<And>j. j < k \<Longrightarrow> \<not> ends W f j"
  shows "fetchWithRetries V W f = retryLoop V W k (backoff k) (map backoff [0..<k]) f"
  using retryLoop_skip [of 0 k W f V "[]"] assms
  by (simp add: fetchWithRetries_def backoff_def initialRetryDelay_def)

lemma fetchVersions_cong:
  "mfTarget f = mfTarget g \<Longrightarrow> mfSecret f = mfSecret g \<Longrightarrow> fetchVersions io f = fetchVersions io g"
  by (simp add: fetchVersions_def fetchRequest_def createJWTToken_def Let_def cong: if_cong)

text \<open>Secrets.\<close>

lemma hex_encode_visible: "set (hex_encode bs) \<subseteq> visible"
proof -
  have "n < 16 \<Longrightarrow> digit_char n \<in> visible" for n
    by (auto dest!: less_16_cases simp: digit_char_def digit_chars_def visible_def)
  then show ?thesis by (induction bs) (auto simp: hex_byte_def byte_nibbles)
qed

lemma TrimPrefix_hex: "TrimPrefix (hex_encode bs) ''0x'' = hex_encode bs"
proof -
  have "n < 16 \<Longrightarrow> digit_char n \<noteq> CHR ''x''" for n
    by (auto dest!: less_16_cases simp: digit_char_def digit_chars_def)
  then show ?thesis by (cases bs) (auto simp: TrimPrefix_def hex_byte_def byte_nibbles)
qed

lemma hex_not_path: "\<not> looksLikePath (hex_encode bs)"
proof -
  have "n < 16 \<Longrightarrow> digit_char n \<notin> {CHR ''/'', CHR ''.''}" for n
    by (auto dest!: less_16_cases simp: digit_char_def digit_chars_def)
  then show ?thesis by (cases bs) (auto simp: looksLikePath_def hex_byte_def byte_nibbles)
qed

lemma parseHexSecret_hex: "parseHexSecret (hex_encode bs) = bs" "parseHexSecret (''0x'' @ hex_encode bs) = bs"
proof -
  have "TrimSpace (''0x'' @ hex_encode bs) = ''0x'' @ hex_encode bs"
    using hex_encode_visible by (intro TrimSpace_visible) (auto simp: visible_def)
  moreover have "TrimPrefix (''0x'' @ hex_encode bs) ''0x'' = hex_encode bs" by (simp add: TrimPrefix_def)
  ultimately show "parseHexSecret (''0x'' @ hex_encode bs) = bs"
    by (simp only: parseHexSecret_def hex_decode_encode option.case)
  show "parseHexSecret (hex_encode bs) = bs"
    by (simp add: parseHexSecret_def TrimSpace_visible hex_encode_visible TrimPrefix_hex hex_decode_encode)
qed

subsection \<open>Properties\<close>

text \<open>C13: Starting the fetcher ends exactly when some attempt succeeds or is told to stop, after
  the waits of two seconds doubled up to thirty, one for each failed attempt before; it then
  has metadata and has announced it, or it was stopped and is unchanged.\<close>

theorem retries_end:
  "case fetcher_Start V W f of
     None \<Rightarrow> \<nexists>k. ends W f k
   | Some (f1, waits, r) \<Rightarrow>
       ends W f (length waits) \<and> list_all (\<lambda>k. \<not> ends W f k) [0..<length waits] \<and>
       waits = map backoff [0..<length waits] \<and>
       (case r of None \<Rightarrow> mfReady f1 \<and> Get f1 \<noteq> None | Some _ \<Rightarrow> f1 = f)"
proof (cases "\<exists>k. ends W f k")
  case False
  then have "fetchWithRetries V W f = None"
    using retryLoop_ends [of V W 0 initialRetryDelay "[]" f] unfolding fetchWithRetries_def by (metis not_None_eq)
  with False show ?thesis by (simp add: fetcher_Start_def)
next
  case True
  then obtain k where k: "ends W f k" "\<And>j. j < k \<Longrightarrow> \<not> ends W f j"
    by (metis LeastI_ex not_less_Least)
  obtain f1 r where r: "retryLoop V W k (backoff k) (map backoff [0..<k]) f = Some (f1, map backoff [0..<k], r)"
      "case r of None \<Rightarrow> mfMetadata f1 \<noteq> None | Some _ \<Rightarrow> f1 = f"
    using retryLoop_end [OF k(1)] by blast
  with k show ?thesis
    by (auto simp: fetcher_Start_def retryLoop_first [OF k] Get_def list_all_iff split: option.splits)
qed

datatype fetcher_op = DoFetch fetch_io | DoUpdate "client_version list"

fun fetcher_do :: "(bytes \<Rightarrow> execution_metadata) \<Rightarrow> fetcher_op \<Rightarrow> fetcher \<Rightarrow> fetcher" where
  "fetcher_do V (DoFetch io) f = refreshTick V io f"
| "fetcher_do V (DoUpdate vs) f = Update V vs f"

fun given_version :: "fetcher \<Rightarrow> fetcher_op \<Rightarrow> client_version option" where
  "given_version f (DoFetch io) = (case fetchVersions io f of Inr (v # vs) \<Rightarrow> Some v | _ \<Rightarrow> None)"
| "given_version f (DoUpdate (v # vs)) = Some v"
| "given_version f (DoUpdate []) = None"

lemma fetcher_do_metadata:
  "mfMetadata (fetcher_do V x f) =
     (case given_version f x of None \<Rightarrow> mfMetadata f | Some v \<Rightarrow> Some (parseClientVersion V v))"
  by (cases "(f, x)" rule: given_version.cases)
     (auto simp: refreshTick_def fetch_def Update_def fetchVersions_def split: sum.splits list.splits option.splits if_splits)

lemma fetcher_do_same: "mfTarget (fetcher_do V x f) = mfTarget f" "mfSecret (fetcher_do V x f) = mfSecret f"
  by (cases x; simp add: refreshTick_def fetch_def Update_def split: sum.split)+

lemma given_version_do: "given_version (fetcher_do V x f) y = given_version f y"
  using fetchVersions_cong [OF fetcher_do_same] by (cases "(f, y)" rule: given_version.cases) auto

text \<open>C31: What the fetcher holds after any sequence of fetches, failed or not, and passive
  updates is the first version of the last list it was given; failures and empty lists
  never lose it.\<close>

theorem metadata_is_last_given:
  "Get (fold (fetcher_do V) xs f) =
    (case List.map_filter (given_version f) xs of
       [] \<Rightarrow> Get f
     | v # vs \<Rightarrow> Some (parseClientVersion V (last (v # vs))))"
proof (induction xs arbitrary: f)
  case Nil
  then show ?case by (simp add: List.map_filter_def)
next
  case (Cons x xs)
  have "given_version (fetcher_do V x f) = given_version f" by (rule ext) (rule given_version_do)
  with Cons [of "fetcher_do V x f"] show ?case
    by (auto simp: Get_def List.map_filter_simps fetcher_do_metadata split: option.splits list.splits)
qed

text \<open>C40: A secret is recovered from its hexadecimal digits, with or without \<open>0x\<close>, and from a file
  that holds them with a final newline.\<close>

theorem secret_roundtrip:
  assumes "secret \<noteq> []" and "looksLikePath path" and "TrimSpace path = path"
    and "readFile path = Some (''0x'' @ hex_encode secret @ [CHR 0x0A])"
  shows "parseJWTSecret readFile (hex_encode secret) = secret \<and>
    parseJWTSecret readFile (''0x'' @ hex_encode secret) = secret \<and>
    parseJWTSecret readFile path = secret"
proof (intro conjI)
  let ?x = "''0x'' @ hex_encode secret"
  have vis: "set ?x \<subseteq> visible" using hex_encode_visible by (auto simp: visible_def)
  have "hex_encode secret \<noteq> []" using assms(1) by (intro hex.enc_not_Nil) simp
  then show "parseJWTSecret readFile (hex_encode secret) = secret"
    by (simp add: parseJWTSecret_def TrimSpace_visible hex_encode_visible hex_not_path parseHexSecret_hex)
  have "\<not> looksLikePath ?x" "?x \<noteq> []" by (simp_all add: looksLikePath_def)
  then show "parseJWTSecret readFile ?x = secret"
    by (simp only: parseJWTSecret_def TrimSpace_visible [OF vis] parseHexSecret_hex Let_def if_False)
  have "TrimSpace (?x @ [CHR 0x0A]) = ?x" using vis by (intro TrimSpace_newline) auto
  moreover have "path \<noteq> []" using assms(2) by (auto simp: looksLikePath_def)
  ultimately show "parseJWTSecret readFile path = secret"
    using assms(2-4) parseHexSecret_hex(2) [of secret] by (simp add: parseJWTSecret_def)
qed

theorem secret_roundtrip_witness:
  "parseJWTSecret (\<lambda>_. Some (''0x'' @ hex_encode ''k'' @ [CHR 0x0A])) ''/a'' = ''k''"
proof -
  have "TrimSpace ''/a'' = ''/a''" by (simp add: TrimSpace_visible visible_def)
  then show ?thesis
    using secret_roundtrip [of "''k''" "''/a''" "\<lambda>_. Some (''0x'' @ hex_encode ''k'' @ [CHR 0x0A])"]
    by (simp add: looksLikePath_def)
qed

text \<open>A secret that is not hexadecimal is dropped without an error: the fetcher sends its
  requests without authorization.\<close>

theorem bad_secret_sends_unauthenticated:
  assumes "\<not> looksLikePath (TrimSpace jwtSecret)"
    and "hex_decode (TrimPrefix (TrimSpace (TrimSpace jwtSecret)) ''0x'') = None" and "newRequestOk io"
  shows "fetchRequest io (NewExecutionMetadataFetcher readFile target jwtSecret) =
    Inr \<lparr>frMethod = ''POST'', frURL = target, frHeader = [(''Content-Type'', ''application/json'')],
      frBody = clientVersionRequest\<rparr>"
  using assms by (simp add: fetchRequest_def NewExecutionMetadataFetcher_def parseJWTSecret_def parseHexSecret_def Let_def)

definition idle_io :: fetch_io where
  "idle_io = \<lparr>newRequestOk = True, signHS256 = (\<lambda>_ _. None), unixNow = 0, httpDo = (\<lambda>_. None), decodeJSON = (\<lambda>_. None)\<rparr>"

theorem bad_secret_sends_unauthenticated_witness:
  "fetchRequest idle_io (NewExecutionMetadataFetcher (\<lambda>_. None) ''t'' ''0x123'') =
    Inr \<lparr>frMethod = ''POST'', frURL = ''t'', frHeader = [(''Content-Type'', ''application/json'')],
      frBody = clientVersionRequest\<rparr>"
proof -
  have "TrimSpace ''0x123'' = ''0x123''" by (simp add: TrimSpace_visible visible_def)
  then show ?thesis
    by (intro bad_secret_sends_unauthenticated)
       (simp_all add: looksLikePath_def TrimPrefix_def hex_digit_def digit_val_def of_char_def idle_io_def)
qed

end
