(* ===== verification/CallCtx.thy ===== *)
theory CallCtx
  imports Json
begin

text \<open>
  One proxied call: \<open>ProxyCallContext\<close> of \<open>snooper/proxycall.go\<close>. The call index is issued
  from a 64-bit counter, the data map keeps what logging, metrics and modules leave for each
  other under the key \<open>moduleID:key\<close>, and the goroutine \<open>processCallContext\<close> watches the
  deadline. Its \<open>select\<close> loop is a step function on events that carry the time they
  happen at; the channel \<open>updateChan\<close> is a queue of five, the context is the flag
  \<open>ctxDone\<close>. The interface through which modules see the data (\<open>types.ProxyCallContext\<close>) is
  the locale \<open>call_data\<close>.
\<close>

text \<open>A Go \<open>any\<close> as it occurs in the data map: what JSON decoding yields (so booleans and
  strings are \<open>Any (JBool b)\<close> and \<open>Any (JStr s)\<close>), an \<open>int\<close>, or an event handler.\<close>

datatype call_value = Any json | IntVal int | Handler nat

record call_ctx =
  callIndex :: u64
  deadline :: int
  updateChan :: "int list"
  ctxDone :: bool
  cancelled :: bool
  streamReader :: "bool option"
  ctxData :: "bytes \<rightharpoonup> call_value"
  callDuration :: int
  loopExited :: bool

text \<open>\<open>streamReader\<close> is \<open>None\<close> before the response has arrived and then says whether the
  upstream body has been closed by the watcher. \<open>newProxyCallContext\<close> takes the counter
  and returns its new value.\<close>

definition newProxyCallContext :: "u64 \<Rightarrow> int \<Rightarrow> int \<Rightarrow> bool \<Rightarrow> u64 \<times> call_ctx" where
  "newProxyCallContext counter now timeout parentDone =
     (counter + 1,
      \<lparr>callIndex = counter + 1, deadline = now + timeout, updateChan = [], ctxDone = parentDone,
       cancelled = False, streamReader = None, ctxData = Map.empty, callDuration = 0,
       loopExited = False\<rparr>)"

subsection \<open>The data map\<close>

definition dataKey :: "u64 \<Rightarrow> bytes \<Rightarrow> bytes" where
  "dataKey moduleID key = show_nat (unat moduleID) @ '':'' @ key"

definition SetData :: "call_ctx \<Rightarrow> u64 \<Rightarrow> bytes \<Rightarrow> call_value \<Rightarrow> call_ctx" where
  "SetData c moduleID key v = c\<lparr>ctxData := (ctxData c)(dataKey moduleID key \<mapsto> v)\<rparr>"

definition GetData :: "call_ctx \<Rightarrow> u64 \<Rightarrow> bytes \<Rightarrow> call_value option" where
  "GetData c moduleID key = ctxData c (dataKey moduleID key)"

definition ID :: "call_ctx \<Rightarrow> u64" where
  "ID c = callIndex c"

definition CallDuration :: "call_ctx \<Rightarrow> int" where
  "CallDuration c = callDuration c"

text \<open>Two different \<open>(moduleID, key)\<close> pairs never share a slot: the decimal prefix has no
  colon, so the first colon splits the key again.\<close>

lemma dataKey_inject: "dataKey m k = dataKey n j \<longleftrightarrow> m = n \<and> k = j"
proof
  assume eq: "dataKey m k = dataKey n j"
  have free: "CHR '':'' \<notin> set (show_nat i)" for i
    using show_nat_decimal [of i] by (auto simp: decimal_chars_def)
  have "Cut (dataKey m k) CHR '':'' = Some (show_nat (unat m), k)"
    and "Cut (dataKey n j) CHR '':'' = Some (show_nat (unat n), j)"
    using free by (simp_all add: dataKey_def)
  with eq show "m = n \<and> k = j" by (simp add: decimal.enc_eq_iff word_unat_eq_iff)
qed simp

text \<open>What a module may rely on.\<close>

locale call_data =
  fixes setd :: "'c \<Rightarrow> u64 \<Rightarrow> bytes \<Rightarrow> 'v \<Rightarrow> 'c"
    and getd :: "'c \<Rightarrow> u64 \<Rightarrow> bytes \<Rightarrow> 'v option"
  assumes get_set_same: "getd (setd c m k v) m k = Some v"
    and get_set_other: "(n, j) \<noteq> (m, k) \<Longrightarrow> getd (setd c m k v) n j = getd c n j"
begin

lemma get_set: "getd (setd c m k v) n j = (if n = m \<and> j = k then Some v else getd c n j)"
  by (simp add: get_set_same get_set_other)

text \<open>A sequence of writes, and what it leaves in a slot.\<close>

lemma writes_isolated:
  assumes "(n, j) \<notin> (\<lambda>(m, k, v). (m, k)) ` set ws"
  shows "getd (fold (\<lambda>(m, k, v) c. setd c m k v) ws c) n j = getd c n j"
  using assms by (induction ws arbitrary: c) (auto simp: get_set split: prod.splits)

lemma last_write_wins:
  assumes "(n, j) \<notin> (\<lambda>(m, k, v). (m, k)) ` set ws"
  shows "getd (fold (\<lambda>(m, k, v) c. setd c m k v) ((n, j, w) # ws) c) n j = Some w"
  using writes_isolated [OF assms] by (simp add: get_set_same)

end

interpretation cd: call_data SetData GetData
  by unfold_locales (auto simp: SetData_def GetData_def dataKey_inject)

lemmas data_simps [simp] = cd.get_set

lemma SetData_fields [simp]:
  "callIndex (SetData c m k v) = callIndex c" "callDuration (SetData c m k v) = callDuration c"
  "deadline (SetData c m k v) = deadline c" "ctxDone (SetData c m k v) = ctxDone c"
  by (simp_all add: SetData_def)

subsection \<open>The watcher\<close>

text \<open>What the select loop and its surroundings do: \<open>Recv\<close>, \<open>Done\<close> and \<open>Timer\<close> are the three
  cases of the loop; \<open>Send\<close> is the event stream asking for more time, \<open>Cancel\<close> the parent
  context or the deferred \<open>cancelFn\<close>, \<open>Attach\<close> the assignment of the response body, which
  happens after the check of \<open>cancelled\<close> and not together with it.\<close>

datatype ctx_event = Recv | Done | Timer | Send int | Cancel | Attach

definition update_cap :: nat where
  "update_cap = 5"

fun ctx_do :: "int \<Rightarrow> ctx_event \<Rightarrow> call_ctx \<Rightarrow> call_ctx option" where
  "ctx_do now Recv c =
     (if loopExited c then None
      else case updateChan c of [] \<Rightarrow> None
           | d # ds \<Rightarrow> Some (c\<lparr>deadline := now + d, updateChan := ds\<rparr>))"
| "ctx_do now Done c =
     (if loopExited c \<or> \<not> ctxDone c then None
      else Some (c\<lparr>loopExited := True, cancelled := True,
                   streamReader := map_option (\<lambda>_. True) (streamReader c)\<rparr>))"
| "ctx_do now Timer c =
     (if loopExited c \<or> now < deadline c then None
      else Some (c\<lparr>ctxDone := True, cancelled := True\<rparr>))"
| "ctx_do now (Send d) c =
     (if length (updateChan c) < update_cap then Some (c\<lparr>updateChan := updateChan c @ [d]\<rparr>) else None)"
| "ctx_do now Cancel c = Some (c\<lparr>ctxDone := True\<rparr>)"
| "ctx_do now Attach c = Some (c\<lparr>streamReader := Some False\<rparr>)"

text \<open>A run: events with their times; \<open>None\<close> if some event was not possible when it came.\<close>

fun ctx_run :: "(int \<times> ctx_event) list \<Rightarrow> call_ctx \<Rightarrow> call_ctx option" where
  "ctx_run [] c = Some c"
| "ctx_run ((now, e) # es) c = (case ctx_do now e c of None \<Rightarrow> None | Some c' \<Rightarrow> ctx_run es c')"

lemma ctx_run_append:
  "ctx_run (es @ fs) c = (case ctx_run es c of None \<Rightarrow> None | Some c' \<Rightarrow> ctx_run fs c')"
  by (induction es c rule: ctx_run.induct) (auto split: option.splits)

text \<open>The invariant of the watcher: a call is marked cancelled only once its context is done,
  and an exited loop has marked it.\<close>

definition ctx_inv :: "call_ctx \<Rightarrow> bool" where
  "ctx_inv c \<longleftrightarrow> (cancelled c \<longrightarrow> ctxDone c) \<and> (loopExited c \<longrightarrow> cancelled c) \<and>
     length (updateChan c) \<le> update_cap"

lemma ctx_do_inv [step_inv]: "ctx_do now e c = Some c' \<Longrightarrow> ctx_inv c \<Longrightarrow> ctx_inv c'"
  by (cases e) (auto simp: ctx_inv_def split: if_splits list.splits)

lemma ctx_run_inv: "ctx_run es c = Some c' \<Longrightarrow> ctx_inv c \<Longrightarrow> ctx_inv c'"
  by (induction es c rule: ctx_run.induct) (auto split: option.splits dest: ctx_do_inv)

lemma new_ctx_inv: "ctx_inv (snd (newProxyCallContext n now t p))"
  by (simp add: newProxyCallContext_def ctx_inv_def)

text \<open>With one timeout \<open>t\<close> throughout (\<open>CallTimeout\<close>), the deadline is \<open>t\<close> after the last
  received update.\<close>

fun last_recv :: "(int \<times> ctx_event) list \<Rightarrow> int \<Rightarrow> int" where
  "last_recv [] s = s"
| "last_recv ((now, Recv) # es) s = last_recv es now"
| "last_recv ((now, _) # es) s = last_recv es s"

lemma due_uniform:
  assumes "ctx_run es c = Some c'" and "set (updateChan c) \<subseteq> {t}"
    and "\<And>now x. (now, Send x) \<in> set es \<Longrightarrow> x = t" and "deadline c = s + t"
  shows "deadline c' = last_recv es s + t"
  using assms
proof (induction es c arbitrary: s rule: ctx_run.induct)
  case (2 now e es c)
  from "2.prems"(1) obtain c1 where c1: "ctx_do now e c = Some c1" "ctx_run es c1 = Some c'"
    by (auto split: option.splits)
  have ih: "deadline c' = last_recv es s' + t"
    if "set (updateChan c1) \<subseteq> {t}" "deadline c1 = s' + t" for s'
    by (rule "2.IH" [OF c1 that(1) _ that(2)]) (erule "2.prems"(3) [OF list.set_intros(2)])
  show ?case
  proof (cases e)
    case Recv
    with c1(1) "2.prems"(2) have "deadline c1 = now + t" "set (updateChan c1) \<subseteq> {t}"
      by (auto split: if_splits list.splits)
    with ih Recv show ?thesis by simp
  next
    case (Send x)
    with "2.prems"(3) [of now x] have "x = t" by simp
    with c1(1) Send "2.prems"(2,4) have "deadline c1 = s + t" "set (updateChan c1) \<subseteq> {t}"
      by (auto split: if_splits)
    with ih Send show ?thesis by simp
  qed (use c1(1) "2.prems"(2,4) ih in \<open>auto split: if_splits\<close>)
qed simp

subsection \<open>Properties\<close>

text \<open>The data of a call is a map from pairs of module id and key: a read after any
  sequence of writes gives the last value written to that very pair, and writes under other
  pairs, of the same module or of others, leave it alone.\<close>

theorem call_data_slots:
  assumes "(n, j) \<notin> (\<lambda>(m, k, v). (m, k)) ` set ws"
  shows "GetData (fold (\<lambda>(m, k, v) c. SetData c m k v) ((n, j, w) # ws) c) n j = Some w \<and>
    GetData (fold (\<lambda>(m, k, v) c. SetData c m k v) ws c) n j = GetData c n j"
  using cd.last_write_wins [OF assms] cd.writes_isolated [OF assms] by blast

theorem call_data_slots_witness:
  "GetData (SetData (SetData (snd (newProxyCallContext 0 0 60 False)) 1 ''2:k'' (IntVal 5)) 12 ''k'' (IntVal 7)) 1 ''2:k'' = Some (IntVal 5)"
  using call_data_slots [of 1 "''2:k''" "[(12, ''k'', IntVal 7)]" "IntVal 5" "snd (newProxyCallContext 0 0 60 False)"]
  by simp

text \<open>C26: The watcher cancels a call no earlier than one timeout after the call began or after
  the last update it received, and from then on it can: an event stream that reports in
  before each deadline is never cut off.\<close>

theorem timeout_counts_from_last_update:
  assumes "ctx_run es (snd (newProxyCallContext n t0 timeout p)) = Some c"
    and "\<And>now x. (now, Send x) \<in> set es \<Longrightarrow> x = timeout"
  shows "ctx_do now Timer c \<noteq> None \<longleftrightarrow> \<not> loopExited c \<and> last_recv es t0 + timeout \<le> now"
proof -
  have "deadline c = last_recv es t0 + timeout"
    by (rule due_uniform [OF assms(1)]) (use assms(2) in \<open>auto simp: newProxyCallContext_def\<close>)
  then show ?thesis by auto
qed

theorem timeout_counts_from_last_update_witness:
  "\<exists>c. ctx_run [(30, Send 60), (31, Recv)] (snd (newProxyCallContext 0 0 60 False)) = Some c \<and>
     ctx_do 90 Timer c = None \<and> ctx_do 91 Timer c \<noteq> None"
proof -
  obtain c where c: "ctx_run [(30, Send 60), (31, Recv)] (snd (newProxyCallContext 0 0 60 False)) = Some c"
    by (simp add: newProxyCallContext_def update_cap_def)
  then have nx: "\<not> loopExited c" by (auto simp: newProxyCallContext_def update_cap_def)
  have sends: "x = 60" if "(now, Send x) \<in> set [(30, Send 60), (31 :: int, Recv)]" for now x
    using that by simp
  have "ctx_do t Timer c \<noteq> None \<longleftrightarrow> 91 \<le> t" for t
    by (subst timeout_counts_from_last_update [OF c sends]) (simp_all add: nx)
  from this [of 90] this [of 91] have "ctx_do 90 Timer c = None" "ctx_do 91 Timer c \<noteq> None"
    by (simp_all del: ctx_do.simps)
  with c show ?thesis by blast
qed

text \<open>C27: Shutdown of a call: whenever a call is marked cancelled its context is done; once the
  context is done, for whatever reason, the watcher can leave its loop, and leaving marks
  the call and closes the upstream body it was given; after that it takes no further step.\<close>

theorem watcher_shutdown:
  assumes "ctx_run es (snd (newProxyCallContext n t0 timeout p)) = Some c"
  shows "(\<not> cancelled c \<or> ctxDone c) \<and>
    (loopExited c \<or> \<not> ctxDone c \<or>
       (\<exists>c'. ctx_do now Done c = Some c' \<and> loopExited c' \<and> cancelled c' \<and>
             streamReader c' \<noteq> Some False)) \<and>
    (\<not> loopExited c \<or> (cancelled c \<and> ctx_do now Recv c = None \<and> ctx_do now Timer c = None \<and>
       ctx_do now Done c = None))"
  using ctx_run_inv [OF assms new_ctx_inv] by (auto simp: ctx_inv_def map_option_case split: option.splits)

theorem watcher_shutdown_witness:
  "\<exists>c. ctx_run [(1, Attach), (60, Timer), (61, Done)] (snd (newProxyCallContext 0 0 60 False)) = Some c \<and>
     loopExited c \<and> streamReader c = Some True \<and> ctx_do 62 Timer c = None"
proof -
  obtain c where c: "ctx_run [(1, Attach), (60, Timer), (61, Done)]
      (snd (newProxyCallContext 0 0 60 False)) = Some c" "loopExited c" "streamReader c = Some True"
    by (simp add: newProxyCallContext_def)
  with watcher_shutdown [OF c(1), of 62] show ?thesis by blast
qed

end
