(* ===== verification/Filters.thy ===== *)
theory Filters
  imports Unmarshal CallCtx
begin

text \<open>
  The filters of observing modules: \<open>types.Filter\<close>, \<open>modules/filters.go\<close> and the two
  functions of \<open>modules/manager.go\<close> that read a filter from a module's configuration.
  Third-party code is a parameter: \<open>parse\<close> is \<open>gojq.Parse\<close>, and \<open>run q data\<close> is the iterator
  of \<open>query.Run\<close>, whose \<open>n\<close>-th \<open>Next\<close> gives a value, an error, or nothing more. An
  iterator may be endless, so the evaluation loop is a partial function whose value \<open>None\<close>
  means that the loop does not return. \<open>unmarshal\<close> is \<open>json.Unmarshal\<close> into an \<open>any\<close>.
\<close>

datatype jq_item = JqValue json | JqError

type_synonym jq_iter = "nat \<Rightarrow> jq_item option"

text \<open>The \<open>interface{}\<close> that holds the compiled query.\<close>

datatype 'q compiled = NotCompiled | Query 'q | ForeignValue

record 'q filter_spec =
  fContentTypes :: "bytes list"
  fJSONQuery :: bytes
  fMethods :: "bytes list"
  fStatusCodes :: "int list"
  fCompiled :: "'q compiled"

definition empty_filter :: "'q filter_spec" where
  "empty_filter =
     \<lparr>fContentTypes = [], fJSONQuery = [], fMethods = [], fStatusCodes = [], fCompiled = NotCompiled\<rparr>"

record 'q filter_config =
  requestFilter :: "'q filter_spec option"
  responseFilter :: "'q filter_spec option"

text \<open>The body a module sees: bytes, or what JSON decoding made of them. The call context is
  not a field: operations that write to it take and return it.\<close>

datatype body = RawBody bytes | DataBody json

record request_ctx =
  rqMethod :: bytes
  rqBody :: body
  rqBodyBytes :: bytes
  rqContentType :: bytes
  rqTimestamp :: int

record response_ctx =
  rsStatusCode :: int
  rsBody :: body
  rsBodyBytes :: bytes
  rsContentType :: bytes
  rsTimestamp :: int
  rsDuration :: int

subsection \<open>Evaluating a query\<close>

definition truthy :: "json \<Rightarrow> bool" where
  "truthy v \<longleftrightarrow> v \<noteq> JNull \<and> v \<noteq> JBool False"

partial_function (option) jq_scan :: "jq_iter \<Rightarrow> nat \<Rightarrow> bool option" where
  "jq_scan iter n =
     (case iter n of
        None \<Rightarrow> Some False
      | Some JqError \<Rightarrow> Some False
      | Some (JqValue v) \<Rightarrow> if truthy v then Some True else jq_scan iter (n + 1))"

text \<open>The conversion of a body to query input; \<open>None\<close> when it is text that does not parse.\<close>

fun body_data :: "(bytes \<Rightarrow> json option) \<Rightarrow> body \<Rightarrow> json option" where
  "body_data unmarshal (RawBody bs) = unmarshal bs"
| "body_data unmarshal (DataBody (JStr s)) = unmarshal s"
| "body_data unmarshal (DataBody v) = Some v"

definition evaluateJSONQueryFilter ::
  "(bytes \<Rightarrow> json option) \<Rightarrow> ('q \<Rightarrow> json \<Rightarrow> jq_iter) \<Rightarrow> 'q filter_spec \<Rightarrow> body \<Rightarrow> bool option" where
  "evaluateJSONQueryFilter unmarshal run filt bd =
     (case fCompiled filt of
        NotCompiled \<Rightarrow> Some True
      | ForeignValue \<Rightarrow> Some True
      | Query q \<Rightarrow>
          (case body_data unmarshal bd of
             None \<Rightarrow> Some False
           | Some data \<Rightarrow> jq_scan (run q data) 0))"

subsection \<open>The filter engine\<close>

definition CompileFilter :: "(bytes \<Rightarrow> 'q option) \<Rightarrow> 'q filter_spec \<Rightarrow> 'q filter_spec option" where
  "CompileFilter parse filt =
     (if fJSONQuery filt = [] then Some filt
      else case parse (fJSONQuery filt) of
             None \<Rightarrow> None
           | Some q \<Rightarrow> Some (filt\<lparr>fCompiled := Query q\<rparr>))"

definition ShouldProcessRequestFilter ::
  "(bytes \<Rightarrow> json option) \<Rightarrow> ('q \<Rightarrow> json \<Rightarrow> jq_iter) \<Rightarrow> 'q filter_spec option \<Rightarrow> request_ctx \<Rightarrow> bool option" where
  "ShouldProcessRequestFilter unmarshal run filt ctx =
     (case filt of
        None \<Rightarrow> Some True
      | Some f \<Rightarrow>
          if fMethods f \<noteq> [] \<and> \<not> list_ex (EqualFold (rqMethod ctx)) (fMethods f) then Some False
          else if fContentTypes f \<noteq> [] \<and> \<not> list_ex (Contains (rqContentType ctx)) (fContentTypes f)
          then Some False
          else if fJSONQuery f \<noteq> [] \<and> Contains (rqContentType ctx) ''json''
          then evaluateJSONQueryFilter unmarshal run f (rqBody ctx)
          else Some True)"

definition ShouldProcessResponseFilter ::
  "(bytes \<Rightarrow> json option) \<Rightarrow> ('q \<Rightarrow> json \<Rightarrow> jq_iter) \<Rightarrow> 'q filter_spec option \<Rightarrow> response_ctx \<Rightarrow> bool option" where
  "ShouldProcessResponseFilter unmarshal run filt ctx =
     (case filt of
        None \<Rightarrow> Some True
      | Some f \<Rightarrow>
          if fStatusCodes f \<noteq> [] \<and> \<not> list_ex (\<lambda>code. rsStatusCode ctx = code) (fStatusCodes f)
          then Some False
          else if fContentTypes f \<noteq> [] \<and> \<not> list_ex (Contains (rsContentType ctx)) (fContentTypes f)
          then Some False
          else if fJSONQuery f \<noteq> [] \<and> Contains (rsContentType ctx) ''json''
          then evaluateJSONQueryFilter unmarshal run f (rsBody ctx)
          else Some True)"

definition ShouldProcessRequest ::
  "(bytes \<Rightarrow> json option) \<Rightarrow> ('q \<Rightarrow> json \<Rightarrow> jq_iter) \<Rightarrow> 'q filter_config option \<Rightarrow> request_ctx \<Rightarrow> bool option" where
  "ShouldProcessRequest unmarshal run cfg ctx =
     (case cfg of
        None \<Rightarrow> Some True
      | Some c \<Rightarrow> (case requestFilter c of
                     None \<Rightarrow> Some True
                   | Some f \<Rightarrow> ShouldProcessRequestFilter unmarshal run (Some f) ctx))"

definition ShouldProcessResponse ::
  "(bytes \<Rightarrow> json option) \<Rightarrow> ('q \<Rightarrow> json \<Rightarrow> jq_iter) \<Rightarrow> 'q filter_config option \<Rightarrow> response_ctx \<Rightarrow> bool option" where
  "ShouldProcessResponse unmarshal run cfg ctx =
     (case cfg of
        None \<Rightarrow> Some True
      | Some c \<Rightarrow> (case responseFilter c of
                     None \<Rightarrow> Some True
                   | Some f \<Rightarrow> ShouldProcessResponseFilter unmarshal run (Some f) ctx))"

subsection \<open>Reading a filter from a configuration\<close>

text \<open>A slice made with its full length and filled where the element has the right type: what
  does not have it stays the zero value.\<close>

definition string_entries :: "json list \<Rightarrow> bytes list" where
  "string_entries vs = map (\<lambda>v. case as_str v of None \<Rightarrow> [] | Some s \<Rightarrow> s) vs"

definition int_entries :: "json list \<Rightarrow> int list" where
  "int_entries vs = map (\<lambda>v. case as_num v of None \<Rightarrow> 0 | Some q \<Rightarrow> trunc_rat q) vs"

definition parseFilter :: "(bytes \<times> json) list \<Rightarrow> 'q filter_spec" where
  "parseFilter config =
     \<lparr>fContentTypes = (case arr_field config ''content_types'' of None \<Rightarrow> [] | Some vs \<Rightarrow> string_entries vs),
      fJSONQuery = (case str_field config ''json_query'' of None \<Rightarrow> [] | Some s \<Rightarrow> s),
      fMethods = (case arr_field config ''methods'' of None \<Rightarrow> [] | Some vs \<Rightarrow> string_entries vs),
      fStatusCodes = (case arr_field config ''status_codes'' of None \<Rightarrow> [] | Some vs \<Rightarrow> int_entries vs),
      fCompiled = NotCompiled\<rparr>"

definition parseFilterConfig :: "(bytes \<times> json) list \<Rightarrow> 'q filter_config" where
  "parseFilterConfig config =
     \<lparr>requestFilter = map_option parseFilter (obj_field config ''request_filter''),
      responseFilter = map_option parseFilter (obj_field config ''response_filter'')\<rparr>"

subsection \<open>Lemmas\<close>

text \<open>The scan returns exactly when some item is not a false or null value, and then says
  whether the first such item is a value.\<close>

definition passes_over :: "jq_iter \<Rightarrow> nat \<Rightarrow> bool" where
  "passes_over iter n \<longleftrightarrow> (\<exists>v. iter n = Some (JqValue v) \<and> \<not> truthy v)"

definition is_match :: "jq_iter \<Rightarrow> nat \<Rightarrow> bool" where
  "is_match iter n \<longleftrightarrow> (\<exists>v. iter n = Some (JqValue v) \<and> truthy v)"

lemma jq_scan_stop: "\<not> passes_over iter n \<Longrightarrow> jq_scan iter n = Some (is_match iter n)"
  by (subst jq_scan.simps) (auto simp: passes_over_def is_match_def split: option.splits jq_item.splits)

lemma jq_scan_skip: "passes_over iter n \<Longrightarrow> jq_scan iter n = jq_scan iter (Suc n)"
  by (subst jq_scan.simps) (auto simp: passes_over_def)

lemma jq_scan_reaches:
  assumes "\<forall>i. n \<le> i \<and> i < n + k \<longrightarrow> passes_over iter i"
  shows "jq_scan iter n = jq_scan iter (n + k)"
  using assms by (induction k) (simp_all add: jq_scan_skip)

lemma jq_scan_first:
  assumes "\<forall>i < k. passes_over iter i" and "\<not> passes_over iter k"
  shows "jq_scan iter 0 = Some (is_match iter k)"
  using jq_scan_reaches [of 0 k iter] assms by (simp add: jq_scan_stop)

text \<open>A returning scan has met such an item: by fixpoint induction on the partial function.\<close>

lemma jq_scan_returns:
  assumes "jq_scan iter n = Some b"
  shows "\<exists>k \<ge> n. \<not> passes_over iter k"
proof (rule jq_scan.raw_induct [where P = "\<lambda>iter n b. \<exists>k \<ge> n. \<not> passes_over iter k", OF _ assms])
  fix rec :: "jq_iter \<Rightarrow> nat \<Rightarrow> bool option" and iter n b
  assume ih: "\<And>it m c. rec it m = Some c \<Longrightarrow> \<exists>k \<ge> m. \<not> passes_over it k"
    and step: "(case iter n of None \<Rightarrow> Some False | Some JqError \<Rightarrow> Some False
      | Some (JqValue v) \<Rightarrow> if truthy v then Some True else rec iter (n + 1)) = Some b"
  show "\<exists>k \<ge> n. \<not> passes_over iter k"
  proof (cases "passes_over iter n")
    case True
    with step have "rec iter (n + 1) = Some b" by (auto simp: passes_over_def)
    from ih [OF this] show ?thesis by (meson add_leD1)
  qed blast
qed

lemma jq_scan_iff:
  "jq_scan iter 0 = Some b \<longleftrightarrow>
     (\<exists>k. (\<forall>i < k. passes_over iter i) \<and> \<not> passes_over iter k \<and> b = is_match iter k)"
proof
  assume "jq_scan iter 0 = Some b"
  then have ex: "\<exists>k. \<not> passes_over iter k" using jq_scan_returns by blast
  define k where "k = (LEAST k. \<not> passes_over iter k)"
  have "\<not> passes_over iter k" "\<forall>i < k. passes_over iter i"
    unfolding k_def using LeastI_ex [OF ex] not_less_Least by blast+
  moreover from this have "jq_scan iter 0 = Some (is_match iter k)" by (simp add: jq_scan_first)
  with \<open>jq_scan iter 0 = Some b\<close> have "b = is_match iter k" by simp
  ultimately show "\<exists>k. (\<forall>i < k. passes_over iter i) \<and> \<not> passes_over iter k \<and> b = is_match iter k"
    by blast
qed (auto simp: jq_scan_first)

lemma compiled_filter:
  assumes "CompileFilter parse f = Some f'" and "fJSONQuery f \<noteq> []"
  obtains q where "parse (fJSONQuery f) = Some q" "f' = f\<lparr>fCompiled := Query q\<rparr>"
  using assms by (auto simp: CompileFilter_def split: option.splits)

lemma compile_keeps:
  assumes "CompileFilter parse f = Some f'"
  shows "fMethods f' = fMethods f" "fContentTypes f' = fContentTypes f" "fJSONQuery f' = fJSONQuery f"
    "fStatusCodes f' = fStatusCodes f"
  using assms by (auto simp: CompileFilter_def split: if_splits option.splits)

lemma list_ex_Nil_or: "(xs \<noteq> [] \<and> \<not> list_ex P xs) = (\<not> (xs = [] \<or> (\<exists>x \<in> set xs. P x)))"
  by (auto simp: list_ex_iff)

definition query_accepts ::
  "(bytes \<Rightarrow> json option) \<Rightarrow> ('q \<Rightarrow> json \<Rightarrow> jq_iter) \<Rightarrow> 'q \<Rightarrow> body \<Rightarrow> bool" where
  "query_accepts unmarshal run q bd \<longleftrightarrow>
     (\<exists>data k. body_data unmarshal bd = Some data \<and> (\<forall>i < k. passes_over (run q data) i) \<and>
        is_match (run q data) k)"

lemma is_match_not_over: "is_match it k \<Longrightarrow> \<not> passes_over it k"
  by (auto simp: is_match_def passes_over_def)

lemma evaluate_accepts:
  assumes "fCompiled f = Query q"
  shows "evaluateJSONQueryFilter unmarshal run f bd = Some True \<longleftrightarrow> query_accepts unmarshal run q bd"
  using assms is_match_not_over
  by (auto simp: evaluateJSONQueryFilter_def query_accepts_def jq_scan_iff split: option.splits)

lemma content_type_wildcard: "list_ex (Contains s) (string_entries vs)"
  if "\<exists>v \<in> set vs. as_str v = None"
proof -
  have "Contains s []" using Contains_iff [of s "[]"] by auto
  with that show ?thesis by (force simp: string_entries_def list_ex_iff)
qed

subsection \<open>Properties\<close>

text \<open>C28: A compiled request filter accepts a request exactly when the method is one of its
  methods up to case, the content type contains one of its content types, and, for a JSON
  content type, the first output of its query that is neither null nor false is a value and
  not an error; an empty list or query asks for nothing.\<close>

theorem request_filter_decides:
  assumes "CompileFilter parse f = Some f'"
  shows "ShouldProcessRequestFilter unmarshal run (Some f') ctx = Some True \<longleftrightarrow>
    (fMethods f = [] \<or> (\<exists>m \<in> set (fMethods f). EqualFold (rqMethod ctx) m)) \<and>
    (fContentTypes f = [] \<or> (\<exists>ct \<in> set (fContentTypes f). Contains (rqContentType ctx) ct)) \<and>
    (fJSONQuery f = [] \<or> \<not> Contains (rqContentType ctx) ''json'' \<or>
       (\<exists>q. parse (fJSONQuery f) = Some q \<and> query_accepts unmarshal run q (rqBody ctx)))"
proof (cases "fJSONQuery f = []")
  case True
  then show ?thesis
    by (simp add: ShouldProcessRequestFilter_def compile_keeps [OF assms] list_ex_Nil_or)
next
  case False
  then obtain q where q: "parse (fJSONQuery f) = Some q" "f' = f\<lparr>fCompiled := Query q\<rparr>"
    by (rule compiled_filter [OF assms])
  have "evaluateJSONQueryFilter unmarshal run f' (rqBody ctx) = Some True \<longleftrightarrow>
      query_accepts unmarshal run q (rqBody ctx)"
    by (rule evaluate_accepts) (simp add: q)
  with False q(1) show ?thesis
    by (simp add: ShouldProcessRequestFilter_def compile_keeps [OF assms] list_ex_Nil_or)
qed

theorem request_filter_decides_witness:
  "ShouldProcessRequestFilter (\<lambda>_. None) (\<lambda>q v n. if n = 0 then Some (JqValue v) else None)
     (Some (\<lparr>fContentTypes = [], fJSONQuery = ''.'', fMethods = [''post''], fStatusCodes = [],
             fCompiled = Query ()\<rparr>))
     \<lparr>rqMethod = ''POST'', rqBody = DataBody (JNum 3), rqBodyBytes = ''3'',
      rqContentType = ''application/json'', rqTimestamp = 0\<rparr> = Some True"
proof -
  let ?f = "\<lparr>fContentTypes = [], fJSONQuery = ''.'', fMethods = [''post''], fStatusCodes = [],
    fCompiled = NotCompiled\<rparr> :: unit filter_spec"
  let ?ctx = "\<lparr>rqMethod = ''POST'', rqBody = DataBody (JNum 3), rqBodyBytes = ''3'',
      rqContentType = ''application/json'', rqTimestamp = 0\<rparr>"
  have c: "CompileFilter (\<lambda>_. Some ()) ?f = Some (?f\<lparr>fCompiled := Query ()\<rparr>)"
    by (simp add: CompileFilter_def)
  have "EqualFold ''POST'' ''post''"
    by (subst EqualFold_ascii) (simp_all add: to_lower_def upper_letters_def lower_letters_def)
  moreover have "query_accepts (\<lambda>_. None) (\<lambda>q v n. if n = 0 then Some (JqValue v) else None) ()
      (DataBody (JNum 3))"
    by (auto simp: query_accepts_def is_match_def truthy_def)
  ultimately show ?thesis
    using request_filter_decides [OF c, of "\<lambda>_. None" "\<lambda>q v n. if n = 0 then Some (JqValue v) else None" ?ctx]
    by simp
qed

text \<open>A configuration whose \<open>content_types\<close> list has an entry that is not a string switches
  the content type check off: the entry becomes the empty string, which every content type
  contains, so the filter decides as if the list were not there.\<close>

theorem malformed_content_type_matches_all:
  fixes run :: "'q \<Rightarrow> json \<Rightarrow> jq_iter"
  assumes "arr_field config ''content_types'' = Some vs" and "v \<in> set vs" and "as_str v = None"
  shows "ShouldProcessRequestFilter unmarshal run (Some (parseFilter config)) ctx =
    ShouldProcessRequestFilter unmarshal run (Some (parseFilter config\<lparr>fContentTypes := []\<rparr>)) ctx"
proof -
  have "fContentTypes (parseFilter config :: 'q filter_spec) = string_entries vs"
    using assms(1) by (simp add: parseFilter_def)
  moreover have "list_ex (Contains (rqContentType ctx)) (string_entries vs)"
    using assms(2,3) by (blast intro: content_type_wildcard)
  ultimately show ?thesis
    by (simp add: ShouldProcessRequestFilter_def evaluateJSONQueryFilter_def)
qed

theorem malformed_content_type_matches_all_witness:
  "ShouldProcessRequestFilter (\<lambda>_. None) (\<lambda>_ _ _. None)
     (Some (parseFilter [(''content_types'', JArr [JStr ''text/html'', JNum 1])] :: unit filter_spec))
     \<lparr>rqMethod = ''GET'', rqBody = RawBody [], rqBodyBytes = [], rqContentType = ''image/png'',
      rqTimestamp = 0\<rparr> = Some True"
  by (subst malformed_content_type_matches_all [where vs = "[JStr ''text/html'', JNum 1]" and v = "JNum 1"])
     (simp_all add: go_defs field_def ShouldProcessRequestFilter_def parseFilter_def)

end
