(* ===== verification/Builtin.thy ===== *)
theory Builtin
  imports Filters ClientVersion
begin

text \<open>
  The observing modules of \<open>modules/builtin\<close>, the wire messages of \<open>modules/protocol\<close> and the
  two send operations of a connection (\<open>modules/manager.go\<close>). A module is a value of one
  datatype, so that the interface \<open>types.Module\<close> becomes a case analysis. A module operation
  acts on the call's data, on the frames written to connections and on what is published or
  updated, and says whether it failed; it returns \<open>None\<close> when a query it runs never ends.
  Every module returns the context it was given, so the context is not part of the result.
\<close>

subsection \<open>Messages\<close>

record hook_event =
  heModuleID :: u64
  heHookType :: bytes
  heRequestID :: u64
  heContentType :: bytes

record counter_event =
  ceModuleID :: u64
  ceCount :: int
  ceRequestType :: bytes

record tracer_event =
  teModuleID :: u64
  teRequestID :: u64
  teDuration :: int
  teResponseSize :: int
  teRequestSize :: int
  teStatusCode :: int
  teRequestData :: "call_value option"
  teResponseData :: json

record register_response =
  rrSuccess :: bool
  rrModuleID :: u64
  rrMessage :: bytes

datatype msg_data =
    NoData
  | JsonData json
  | HookData hook_event
  | CounterData counter_event
  | TracerData tracer_event
  | RegisterData register_response

record ws_message =
  wmRequestID :: u64
  wmResponseID :: u64
  wmModuleID :: u64
  wmMethod :: bytes
  wmData :: msg_data
  wmError :: "bytes option"
  wmTimestamp :: int
  wmBinary :: bool

definition module_message :: "u64 \<Rightarrow> bytes \<Rightarrow> msg_data \<Rightarrow> int \<Rightarrow> ws_message" where
  "module_message modid meth data now =
     \<lparr>wmRequestID = 0, wmResponseID = 0, wmModuleID = modid, wmMethod = meth, wmData = data,
      wmError = None, wmTimestamp = now, wmBinary = False\<rparr>"

datatype frame = JsonFrame ws_message | BinaryFrame bytes

subsection \<open>The world a module acts on\<close>

text \<open>\<open>env\<close> collects what is outside the program: JSON and query parsing, whether a write to a
  connection succeeds, the clock, the id of the next published event, the client metadata
  and the text of a library error.\<close>

record ('q, 'm) env =
  unmarshal :: "bytes \<Rightarrow> json option"
  jqParse :: "bytes \<Rightarrow> 'q option"
  jqRun :: "'q \<Rightarrow> json \<Rightarrow> jq_iter"
  writeOk :: "nat \<Rightarrow> frame \<Rightarrow> bool"
  clock :: int
  uuid :: bytes
  clientMeta :: 'm
  errText :: bytes

record 'm mod_state =
  callCtx :: call_ctx
  outbox :: "(nat \<times> frame) list"
  effects :: "'m effect list"

definition write_frame :: "('q, 'm) env \<Rightarrow> nat \<Rightarrow> frame \<Rightarrow> 'm mod_state \<Rightarrow> 'm mod_state \<times> bool" where
  "write_frame E conn f s =
     (if writeOk E conn f then (s\<lparr>outbox := outbox s @ [(conn, f)]\<rparr>, True) else (s, False))"

definition SendMessage :: "('q, 'm) env \<Rightarrow> nat \<Rightarrow> ws_message \<Rightarrow> 'm mod_state \<Rightarrow> 'm mod_state \<times> bool" where
  "SendMessage E conn msg s = write_frame E conn (JsonFrame msg) s"

definition SendMessageWithBinary ::
  "('q, 'm) env \<Rightarrow> nat \<Rightarrow> ws_message \<Rightarrow> bytes \<Rightarrow> 'm mod_state \<Rightarrow> 'm mod_state \<times> bool" where
  "SendMessageWithBinary E conn msg binaryData s =
     (let (s1, ok) = write_frame E conn (JsonFrame (msg\<lparr>wmBinary := True\<rparr>)) s
      in if \<not> ok then (s1, False) else write_frame E conn (BinaryFrame binaryData) s1)"

subsection \<open>Modules\<close>

record request_counter =
  rcID :: u64
  rcConn :: nat
  rcCount :: "64 word"

record 'q response_tracer =
  rtID :: u64
  rtConn :: nat
  rtRequestQuery :: "'q option"
  rtResponseQuery :: "'q option"

datatype 'q module =
    RequestSnooper u64 nat
  | ResponseSnooper u64 nat
  | RequestCounter request_counter
  | ResponseTracer "'q response_tracer"
  | XatuModule u64 "router option"

fun module_ID :: "'q module \<Rightarrow> u64" where
  "module_ID (RequestSnooper i c) = i"
| "module_ID (ResponseSnooper i c) = i"
| "module_ID (RequestCounter rc) = rcID rc"
| "module_ID (ResponseTracer rt) = rtID rt"
| "module_ID (XatuModule i r) = i"

definition NewRequestCounter :: "u64 \<Rightarrow> nat \<Rightarrow> request_counter" where
  "NewRequestCounter i conn = \<lparr>rcID = i, rcConn = conn, rcCount = 0\<rparr>"

definition NewResponseTracer :: "u64 \<Rightarrow> nat \<Rightarrow> 'q response_tracer" where
  "NewResponseTracer i conn =
     \<lparr>rtID = i, rtConn = conn, rtRequestQuery = None, rtResponseQuery = None\<rparr>"

text \<open>The result of a module operation: the module and the world after it, and the error if it
  failed.\<close>

type_synonym ('q, 'm) outcome = "('q module \<times> 'm mod_state \<times> bytes option) option"

definition report_send :: "bytes \<Rightarrow> 'q module \<Rightarrow> 'm mod_state \<times> bool \<Rightarrow> ('q, 'm) outcome" where
  "report_send what m r = Some (m, fst r, if snd r then None else Some (''failed to send '' @ what))"

subsubsection \<open>Snoopers\<close>

definition hook_message :: "u64 \<Rightarrow> bytes \<Rightarrow> u64 \<Rightarrow> bytes \<Rightarrow> int \<Rightarrow> ws_message" where
  "hook_message i typ reqid ctype now =
     module_message i ''hook_event''
       (HookData \<lparr>heModuleID = i, heHookType = typ, heRequestID = reqid, heContentType = ctype\<rparr>) now"

definition RequestSnooper_OnRequest ::
  "('q, 'm) env \<Rightarrow> u64 \<Rightarrow> nat \<Rightarrow> request_ctx \<Rightarrow> 'm mod_state \<Rightarrow> ('q, 'm) outcome" where
  "RequestSnooper_OnRequest E i conn ctx s =
     report_send ''hook event'' (RequestSnooper i conn)
       (SendMessageWithBinary E conn
          (hook_message i ''request'' (ID (callCtx s)) (rqContentType ctx) (clock E)) (rqBodyBytes ctx) s)"

definition ResponseSnooper_OnRequest ::
  "u64 \<Rightarrow> nat \<Rightarrow> 'm mod_state \<Rightarrow> ('q, 'm) outcome" where
  "ResponseSnooper_OnRequest i conn s =
     Some (ResponseSnooper i conn,
           s\<lparr>callCtx := SetData (callCtx s) i ''wants_response'' (Any (JBool True))\<rparr>, None)"

definition ResponseSnooper_OnResponse ::
  "('q, 'm) env \<Rightarrow> u64 \<Rightarrow> nat \<Rightarrow> response_ctx \<Rightarrow> 'm mod_state \<Rightarrow> ('q, 'm) outcome" where
  "ResponseSnooper_OnResponse E i conn ctx s =
     report_send ''hook event'' (ResponseSnooper i conn)
       (SendMessageWithBinary E conn
          (hook_message i ''response'' (ID (callCtx s)) (rsContentType ctx) (clock E)) (rsBodyBytes ctx) s)"

subsubsection \<open>Counter\<close>

definition RequestCounter_OnRequest ::
  "('q, 'm) env \<Rightarrow> request_counter \<Rightarrow> request_ctx \<Rightarrow> 'm mod_state \<Rightarrow> ('q, 'm) outcome" where
  "RequestCounter_OnRequest E rc ctx s =
     (let count = rcCount rc + 1; rc' = rc\<lparr>rcCount := count\<rparr>
      in report_send ''counter event'' (RequestCounter rc')
           (SendMessage E (rcConn rc)
              (module_message (rcID rc) ''counter_event''
                 (CounterData \<lparr>ceModuleID = rcID rc, ceCount = sint count, ceRequestType = rqMethod ctx\<rparr>)
                 (clock E)) s))"

definition GetCount :: "request_counter \<Rightarrow> int" where
  "GetCount rc = sint (rcCount rc)"

subsubsection \<open>Tracer\<close>

partial_function (option) jq_collect :: "jq_iter \<Rightarrow> nat \<Rightarrow> json list \<Rightarrow> json list option" where
  "jq_collect iter n results =
     (case iter n of
        None \<Rightarrow> Some results
      | Some JqError \<Rightarrow> jq_collect iter (n + 1) results
      | Some (JqValue v) \<Rightarrow> jq_collect iter (n + 1) (results @ [v]))"

definition extractData :: "('q, 'm) env \<Rightarrow> 'q \<Rightarrow> body \<Rightarrow> json option" where
  "extractData E query bd =
     (case body_data (unmarshal E) bd of
        None \<Rightarrow> Some JNull
      | Some data \<Rightarrow>
          (case jq_collect (jqRun E query data) 0 [] of
             None \<Rightarrow> None
           | Some results \<Rightarrow>
               Some (case results of [] \<Rightarrow> JNull | [v] \<Rightarrow> v | _ \<Rightarrow> JArr results)))"

definition ResponseTracer_OnRequest ::
  "('q, 'm) env \<Rightarrow> 'q response_tracer \<Rightarrow> request_ctx \<Rightarrow> 'm mod_state \<Rightarrow> ('q, 'm) outcome" where
  "ResponseTracer_OnRequest E rt ctx s =
     (let c1 = SetData (callCtx s) (rtID rt) ''wants_response'' (Any (JBool True))
      in case rtRequestQuery rt of
           None \<Rightarrow> Some (ResponseTracer rt, s\<lparr>callCtx := c1\<rparr>, None)
         | Some q \<Rightarrow>
             if \<not> Contains (rqContentType ctx) ''json''
             then Some (ResponseTracer rt, s\<lparr>callCtx := c1\<rparr>, None)
             else (case extractData E q (rqBody ctx) of
                     None \<Rightarrow> None
                   | Some requestData \<Rightarrow>
                       Some (ResponseTracer rt,
                             s\<lparr>callCtx := (if requestData \<noteq> JNull
                                then SetData c1 (rtID rt) ''request_extracted_data'' (Any requestData)
                                else c1)\<rparr>, None)))"

definition tracer_response_data ::
  "('q, 'm) env \<Rightarrow> 'q response_tracer \<Rightarrow> response_ctx \<Rightarrow> json option" where
  "tracer_response_data E rt ctx =
     (case rtResponseQuery rt of
        None \<Rightarrow> Some JNull
      | Some q \<Rightarrow> if Contains (rsContentType ctx) ''json'' then extractData E q (rsBody ctx) else Some JNull)"

definition tracer_message ::
  "('q, 'm) env \<Rightarrow> 'q response_tracer \<Rightarrow> response_ctx \<Rightarrow> call_ctx \<Rightarrow> json \<Rightarrow> ws_message" where
  "tracer_message E rt ctx c responseData =
     module_message (rtID rt) ''tracer_event''
       (TracerData
          \<lparr>teModuleID = rtID rt, teRequestID = ID c, teDuration = milliseconds (rsDuration ctx),
           teResponseSize = int (length (rsBodyBytes ctx)),
           teRequestSize = (case GetData c 0 ''request_size'' of Some (IntVal n) \<Rightarrow> n | _ \<Rightarrow> 0),
           teStatusCode = rsStatusCode ctx,
           teRequestData = GetData c (rtID rt) ''request_extracted_data'',
           teResponseData = responseData\<rparr>) (clock E)"

definition ResponseTracer_OnResponse ::
  "('q, 'm) env \<Rightarrow> 'q response_tracer \<Rightarrow> response_ctx \<Rightarrow> 'm mod_state \<Rightarrow> ('q, 'm) outcome" where
  "ResponseTracer_OnResponse E rt ctx s =
     (case tracer_response_data E rt ctx of
        None \<Rightarrow> None
      | Some responseData \<Rightarrow>
          report_send ''tracer event'' (ResponseTracer rt)
            (SendMessage E (rtConn rt) (tracer_message E rt ctx (callCtx s) responseData) s))"

text \<open>\<open>Configure\<close>: \<open>None\<close> is the parse error.\<close>

definition configure_query ::
  "('q, 'm) env \<Rightarrow> (bytes \<times> json) list \<Rightarrow> bytes \<Rightarrow> 'q option \<Rightarrow> 'q option option" where
  "configure_query E config key old =
     (case str_field config key of
        Some sel \<Rightarrow> if sel \<noteq> [] then map_option Some (jqParse E sel) else Some old
      | None \<Rightarrow> Some old)"

definition ResponseTracer_Configure ::
  "('q, 'm) env \<Rightarrow> (bytes \<times> json) list \<Rightarrow> 'q response_tracer \<Rightarrow> 'q response_tracer option" where
  "ResponseTracer_Configure E config rt =
     (case configure_query E config ''request_select'' (rtRequestQuery rt) of
        None \<Rightarrow> None
      | Some rq \<Rightarrow>
          (case configure_query E config ''response_select'' (rtResponseQuery rt) of
             None \<Rightarrow> None
           | Some rs \<Rightarrow> Some (rt\<lparr>rtRequestQuery := rq, rtResponseQuery := rs\<rparr>)))"

subsubsection \<open>Xatu\<close>

fun body_object :: "body \<Rightarrow> (bytes \<times> json) list option" where
  "body_object (DataBody (JObj kvs)) = Some kvs"
| "body_object _ = None"

definition extractMethod :: "body \<Rightarrow> bytes" where
  "extractMethod bd =
     (case body_object bd of
        None \<Rightarrow> []
      | Some kvs \<Rightarrow> (case str_field kvs ''method'' of None \<Rightarrow> [] | Some m \<Rightarrow> m))"

definition extractParams :: "body \<Rightarrow> json list" where
  "extractParams bd =
     (case body_object bd of
        None \<Rightarrow> []
      | Some kvs \<Rightarrow> (case arr_field kvs ''params'' of None \<Rightarrow> [] | Some ps \<Rightarrow> ps))"

definition extractResult :: "body \<Rightarrow> json" where
  "extractResult bd = (case body_object bd of None \<Rightarrow> JNull | Some kvs \<Rightarrow> field kvs ''result'')"

definition extractRPCError :: "body \<Rightarrow> rpc_error option" where
  "extractRPCError bd =
     (case body_object bd of
        None \<Rightarrow> None
      | Some kvs \<Rightarrow>
          (case obj_field kvs ''error'' of
             None \<Rightarrow> None
           | Some errObj \<Rightarrow>
               Some \<lparr>errCode = (case num_field errObj ''code'' of None \<Rightarrow> 0 | Some q \<Rightarrow> trunc_rat q),
                     errMessage = (case str_field errObj ''message'' of None \<Rightarrow> [] | Some m \<Rightarrow> m)\<rparr>))"

text \<open>The events handed to the router.\<close>

definition requestEvent :: "call_ctx \<Rightarrow> request_ctx \<Rightarrow> request_event" where
  "requestEvent c ctx =
     \<lparr>rqeCallID = ID c, rqeTimestamp = rqTimestamp ctx, rqeMethod = extractMethod (rqBody ctx),
      rqeParams = extractParams (rqBody ctx), rqeBodyBytes = rqBodyBytes ctx\<rparr>"

definition responseEvent :: "call_ctx \<Rightarrow> response_ctx \<Rightarrow> response_event" where
  "responseEvent c ctx =
     \<lparr>rseCallID = ID c, rseTimestamp = rsTimestamp ctx, rseDuration = rsDuration ctx,
      rseResult = extractResult (rsBody ctx), rseError = extractRPCError (rsBody ctx),
      rseBodyBytes = rsBodyBytes ctx\<rparr>"

definition Xatu_OnRequest ::
  "('q, 'm) env \<Rightarrow> u64 \<Rightarrow> router option \<Rightarrow> request_ctx \<Rightarrow> 'm mod_state \<Rightarrow> ('q, 'm) outcome" where
  "Xatu_OnRequest E i r ctx s =
     (case r of
        None \<Rightarrow> Some (XatuModule i r, s, None)
      | Some hs \<Rightarrow>
          let meth = extractMethod (rqBody ctx)
          in if meth = [] then Some (XatuModule i r, s, None)
             else
               let (hs', matched) = RouteRequest (clock E) (requestEvent (callCtx s) ctx) hs
               in Some (XatuModule i (Some hs'),
                        (case matched of
                           None \<Rightarrow> s
                         | Some k \<Rightarrow> s\<lparr>callCtx := SetData (callCtx s) i ''xatu_handler'' (Handler k)\<rparr>),
                        None))"

definition Xatu_OnResponse ::
  "('q, 'm) env \<Rightarrow> u64 \<Rightarrow> router option \<Rightarrow> response_ctx \<Rightarrow> 'm mod_state \<Rightarrow> ('q, 'm) outcome" where
  "Xatu_OnResponse E i r ctx s =
     (case (r, GetData (callCtx s) i ''xatu_handler'') of
        (Some hs, Some (Handler k)) \<Rightarrow>
          let (hs', es) = respond_at (uuid E) (clientMeta E) (responseEvent (callCtx s) ctx) k hs
          in Some (XatuModule i (Some hs'), s\<lparr>effects := effects s @ es\<rparr>, None)
      | _ \<Rightarrow> Some (XatuModule i r, s, None))"

subsection \<open>The interface\<close>

fun OnRequest :: "('q, 'm) env \<Rightarrow> 'q module \<Rightarrow> request_ctx \<Rightarrow> 'm mod_state \<Rightarrow> ('q, 'm) outcome" where
  "OnRequest E (RequestSnooper i conn) ctx s = RequestSnooper_OnRequest E i conn ctx s"
| "OnRequest E (ResponseSnooper i conn) ctx s = ResponseSnooper_OnRequest i conn s"
| "OnRequest E (RequestCounter rc) ctx s = RequestCounter_OnRequest E rc ctx s"
| "OnRequest E (ResponseTracer rt) ctx s = ResponseTracer_OnRequest E rt ctx s"
| "OnRequest E (XatuModule i r) ctx s = Xatu_OnRequest E i r ctx s"

fun OnResponse :: "('q, 'm) env \<Rightarrow> 'q module \<Rightarrow> response_ctx \<Rightarrow> 'm mod_state \<Rightarrow> ('q, 'm) outcome" where
  "OnResponse E (RequestSnooper i conn) ctx s = Some (RequestSnooper i conn, s, None)"
| "OnResponse E (ResponseSnooper i conn) ctx s = ResponseSnooper_OnResponse E i conn ctx s"
| "OnResponse E (RequestCounter rc) ctx s = Some (RequestCounter rc, s, None)"
| "OnResponse E (ResponseTracer rt) ctx s = ResponseTracer_OnResponse E rt ctx s"
| "OnResponse E (XatuModule i r) ctx s = Xatu_OnResponse E i r ctx s"

fun Configure :: "('q, 'm) env \<Rightarrow> (bytes \<times> json) list \<Rightarrow> 'q module \<Rightarrow> 'q module option" where
  "Configure E config (ResponseTracer rt) = map_option ResponseTracer (ResponseTracer_Configure E config rt)"
| "Configure E config m = Some m"

subsection \<open>What every module keeps\<close>

text \<open>A module keeps its id, writes only its own slots of the call's data, none of them while
  handling a response, and leaves the call's index and duration alone.\<close>

locale observing_module =
  fixes mid :: "'m \<Rightarrow> u64"
    and onreq :: "'m \<Rightarrow> 'rq \<Rightarrow> 's \<Rightarrow> ('m \<times> 's \<times> 'err option) option"
    and onresp :: "'m \<Rightarrow> 'rs \<Rightarrow> 's \<Rightarrow> ('m \<times> 's \<times> 'err option) option"
    and slot :: "'s \<Rightarrow> u64 \<Rightarrow> bytes \<Rightarrow> 'v option"
  assumes req_id: "onreq m rq s = Some (m', s', e) \<Longrightarrow> mid m' = mid m"
    and resp_id: "onresp m rs s = Some (m', s', e) \<Longrightarrow> mid m' = mid m"
    and req_slots: "onreq m rq s = Some (m', s', e) \<Longrightarrow> n \<noteq> mid m \<Longrightarrow> slot s' n k = slot s n k"
    and resp_slots: "onresp m rs s = Some (m', s', e) \<Longrightarrow> slot s' n k = slot s n k"
begin

text \<open>A whole call: a module's request and, on whatever became of the world in between as far as
  its own slots go, its response.\<close>

lemma call_keeps_id:
  "onreq m rq s = Some (m', s', e) \<Longrightarrow> onresp m' rs t = Some (m'', t', e') \<Longrightarrow> mid m'' = mid m"
  using req_id resp_id by metis

lemma call_keeps_slots:
  assumes "onreq m rq s = Some (m', s', e)" and "onresp m' rs s' = Some (m'', t', e')" and "n \<noteq> mid m"
  shows "slot t' n k = slot s n k"
  using req_slots [OF assms(1,3)] resp_slots [OF assms(2)] by simp

end

lemma write_frame_callCtx [simp]: "callCtx (fst (write_frame E conn f s)) = callCtx s"
  by (simp add: write_frame_def)

lemma send_callCtx [simp]:
  "callCtx (fst (SendMessage E conn msg s)) = callCtx s"
  "callCtx (fst (SendMessageWithBinary E conn msg bd s)) = callCtx s"
  by (auto simp: SendMessage_def SendMessageWithBinary_def write_frame_def Let_def)

lemmas module_op_defs =
  RequestSnooper_OnRequest_def ResponseSnooper_OnRequest_def ResponseSnooper_OnResponse_def
  RequestCounter_OnRequest_def ResponseTracer_OnRequest_def ResponseTracer_OnResponse_def
  Xatu_OnRequest_def Xatu_OnResponse_def report_send_def

lemma OnRequest_frame:
  assumes "OnRequest E m ctx s = Some (m', s', e)"
  shows "module_ID m' = module_ID m \<and>
    (n \<noteq> module_ID m \<longrightarrow> GetData (callCtx s') n k = GetData (callCtx s) n k)"
  using assms
  by (cases m)
     (auto simp: module_op_defs Let_def split: option.splits if_splits prod.splits)

lemma OnResponse_frame:
  assumes "OnResponse E m ctx s = Some (m', s', e)"
  shows "module_ID m' = module_ID m \<and> callCtx s' = callCtx s"
  using assms
  by (cases m)
     (auto simp: module_op_defs Let_def split: option.splits if_splits prod.splits call_value.splits)

interpretation om: observing_module module_ID "OnRequest E" "OnResponse E" "\<lambda>s. GetData (callCtx s)"
  by unfold_locales (use OnRequest_frame OnResponse_frame in \<open>fastforce+\<close>)

subsection \<open>Runs of one module\<close>

fun run_requests ::
  "('q, 'm) env \<Rightarrow> 'q module \<Rightarrow> request_ctx list \<Rightarrow> 'm mod_state \<Rightarrow> ('q module \<times> 'm mod_state) option" where
  "run_requests E m [] s = Some (m, s)"
| "run_requests E m (c # cs) s =
     (case OnRequest E m c s of None \<Rightarrow> None | Some (m', s', e) \<Rightarrow> run_requests E m' cs s')"

definition count_frame :: "('q, 'm) env \<Rightarrow> u64 \<Rightarrow> nat \<Rightarrow> nat \<Rightarrow> request_ctx \<Rightarrow> nat \<times> frame" where
  "count_frame E i conn k c =
     (conn, JsonFrame (module_message i ''counter_event''
        (CounterData \<lparr>ceModuleID = i, ceCount = int k, ceRequestType = rqMethod c\<rparr>) (clock E)))"

lemma sint_of_nat_small: "n < 2 ^ 63 \<Longrightarrow> sint (of_nat n :: 64 word) = int n"
  by (simp add: signed_of_nat signed_take_bit_int_eq_self)

lemma counter_run:
  assumes "\<And>f. writeOk E conn f" and "n + length ctxs < 2 ^ 63"
  shows "\<exists>s'. run_requests E (RequestCounter \<lparr>rcID = i, rcConn = conn, rcCount = of_nat n\<rparr>) ctxs s =
      Some (RequestCounter \<lparr>rcID = i, rcConn = conn, rcCount = of_nat (n + length ctxs)\<rparr>, s') \<and>
      outbox s' = outbox s @ map (\<lambda>(k, c). count_frame E i conn k c) (enumerate (Suc n) ctxs)"
  using assms(2)
proof (induction ctxs arbitrary: n s)
  case (Cons c cs)
  have n: "of_nat n + 1 = (of_nat (Suc n) :: 64 word)" by simp
  have step: "OnRequest E (RequestCounter \<lparr>rcID = i, rcConn = conn, rcCount = of_nat n\<rparr>) c s =
      Some (RequestCounter \<lparr>rcID = i, rcConn = conn, rcCount = of_nat (Suc n)\<rparr>,
        s\<lparr>outbox := outbox s @ [count_frame E i conn (Suc n) c]\<rparr>, None)"
    using Cons.prems sint_of_nat_small [of "Suc n"] assms(1)
    by (simp add: RequestCounter_OnRequest_def SendMessage_def write_frame_def report_send_def
        count_frame_def n Let_def del: of_nat_Suc)
  from Cons.IH [of "Suc n" "s\<lparr>outbox := outbox s @ [count_frame E i conn (Suc n) c]\<rparr>"] Cons.prems
  show ?case by (simp add: step del: of_nat_Suc OnRequest.simps)
qed simp

lemma respond_newPayload:
  "respond_at u m r 1 [a, EngineNewPayload h, b] =
     ([a, EngineNewPayload (fst (newPayload_HandleResponse u m r h)), b],
      map Publish (snd (newPayload_HandleResponse u m r h)))"
  by (simp add: respond_at_def split: prod.split)

lemma route_newPayload:
  assumes "HasPrefix (rqeMethod e) ''engine_newPayload''"
  shows "RouteRequest now e serviceRouter =
    ([EngineGetBlobs \<lparr>gbPending = Map.empty\<rparr>,
      EngineNewPayload (fst (newPayload_HandleRequest now e \<lparr>npPending = Map.empty\<rparr>)),
      EngineClientVersion], Some 1)"
proof -
  obtain v where "rqeMethod e = ''engine_newPayload'' @ v"
    using assms by (auto simp: HasPrefix_prefix prefix_def)
  then show ?thesis
    by (simp add: serviceRouter_def RegisterMetadataUpdateCallback_def registerHandlers_def Register_def
        np.request_wanted split: prod.split) (metis np.request_wanted snd_conv)
qed

lemma route_unmatched:
  assumes "\<not> HasPrefix (rqeMethod e) ''engine_newPayload''" "\<not> HasPrefix (rqeMethod e) ''engine_getBlobs''"
    "\<not> HasPrefix (rqeMethod e) ''engine_getClientVersion''"
  shows "RouteRequest now e serviceRouter = (serviceRouter, None)"
  using assms
  by (simp add: serviceRouter_def RegisterMetadataUpdateCallback_def registerHandlers_def Register_def)

subsection \<open>Properties\<close>

text \<open>A world for the examples: everything parses to nothing, every write succeeds.\<close>

definition quiet_env :: "(unit, unit) env" where
  "quiet_env =
     \<lparr>unmarshal = (\<lambda>_. None), jqParse = (\<lambda>_. None), jqRun = (\<lambda>_ _ _. None), writeOk = (\<lambda>_ _. True),
      clock = 7, uuid = ''id'', clientMeta = (), errText = []\<rparr>"

definition new_state :: "unit mod_state" where
  "new_state =
     \<lparr>callCtx = snd (newProxyCallContext 0 0 60000000000 False), outbox = [], effects = []\<rparr>"

lemma newPayload_exchange:
  assumes "HasPrefix (extractMethod (rqBody rq)) ''engine_newPayload''"
  shows "\<exists>m s1 m' s2. OnRequest E (XatuModule i (Some serviceRouter)) rq s = Some (m, s1, None) \<and>
    OnResponse E' m rs s1 = Some (m', s2, None) \<and> outbox s2 = outbox s \<and>
    effects s2 = effects s @ [Publish (newPayload_buildDecoratedEvent (uuid E') (clientMeta E')
      (extractPayloadData (requestEvent (callCtx s) rq)) (responseEvent (callCtx s) rs))]"
proof -
  let ?e = "requestEvent (callCtx s) rq" and ?r = "responseEvent (callCtx s) rs"
  let ?h = "fst (newPayload_HandleRequest (clock E) ?e \<lparr>npPending = Map.empty\<rparr>)"
  let ?s1 = "s\<lparr>callCtx := SetData (callCtx s) i ''xatu_handler'' (Handler 1)\<rparr>"
  have ne: "extractMethod (rqBody rq) \<noteq> []" using assms by auto
  have meth: "rqeMethod ?e = extractMethod (rqBody rq)" by (simp add: requestEvent_def)
  have rq: "OnRequest E (XatuModule i (Some serviceRouter)) rq s =
      Some (XatuModule i (Some [EngineGetBlobs \<lparr>gbPending = Map.empty\<rparr>, EngineNewPayload ?h,
        EngineClientVersion]), ?s1, None)"
    using assms ne by (simp add: Xatu_OnRequest_def route_newPayload meth)
  have same: "responseEvent (callCtx ?s1) rs = ?r" by (simp add: responseEvent_def ID_def)
  have "rseCallID ?r = rqeCallID ?e" by (simp add: responseEvent_def requestEvent_def)
  then have "snd (newPayload_HandleResponse (uuid E') (clientMeta E') ?r ?h) =
      [newPayload_buildDecoratedEvent (uuid E') (clientMeta E') (extractPayloadData ?e) ?r]"
    using np.response_publishes [of ?e "[]" ?r "uuid E'" "clientMeta E'" "clock E"] by simp
  then have "\<exists>m' s2. OnResponse E' (XatuModule i (Some [EngineGetBlobs \<lparr>gbPending = Map.empty\<rparr>,
        EngineNewPayload ?h, EngineClientVersion])) rs ?s1 = Some (m', s2, None) \<and>
      outbox s2 = outbox s \<and> effects s2 = effects s @ [Publish (newPayload_buildDecoratedEvent
        (uuid E') (clientMeta E') (extractPayloadData ?e) ?r)]"
    by (simp only: OnResponse.simps Xatu_OnResponse_def same respond_newPayload)
       (simp add: respond_newPayload [simplified])
  with rq show ?thesis by blast
qed

text \<open>An engine_newPayload call that a new Xatu module sees publishes exactly one event when
  its response comes, built from the parameters of the request and the result of the
  response; nothing is written to any connection, and no step fails.\<close>

theorem xatu_call_publishes_once:
  assumes "HasPrefix (extractMethod (rqBody rq)) ''engine_newPayload''"
  shows "\<exists>m s1 m' s2. OnRequest E (XatuModule i (Some serviceRouter)) rq s = Some (m, s1, None) \<and>
    OnResponse E' m rs s1 = Some (m', s2, None) \<and> outbox s2 = outbox s \<and>
    effects s2 = effects s @ [Publish (newPayload_buildDecoratedEvent (uuid E') (clientMeta E')
      (extractPayloadData (requestEvent (callCtx s) rq)) (responseEvent (callCtx s) rs))]"
  using newPayload_exchange [OF assms] .

definition engine_request :: request_ctx where
  "engine_request =
     \<lparr>rqMethod = ''POST'', rqBody = DataBody (JObj [(''method'', JStr ''engine_newPayloadV4'')]),
      rqBodyBytes = [], rqContentType = ''application/json'', rqTimestamp = 5\<rparr>"

definition engine_response :: response_ctx where
  "engine_response =
     \<lparr>rsStatusCode = 200, rsBody = DataBody (JObj [(''result'', JNull)]), rsBodyBytes = [],
      rsContentType = ''application/json'', rsTimestamp = 9, rsDuration = 4\<rparr>"

theorem xatu_call_publishes_once_witness:
  "\<exists>m s1 m' s2. OnRequest quiet_env (XatuModule 1 (Some serviceRouter)) engine_request new_state =
      Some (m, s1, None) \<and> OnResponse quiet_env m engine_response s1 = Some (m', s2, None) \<and>
    length (effects s2) = 1"
proof -
  have "HasPrefix (extractMethod (rqBody engine_request)) ''engine_newPayload''"
    by (simp add: engine_request_def extractMethod_def go_defs field_def)
  from xatu_call_publishes_once [OF this, of quiet_env 1 new_state quiet_env engine_response]
  obtain m s1 m' s2 where "OnRequest quiet_env (XatuModule 1 (Some serviceRouter)) engine_request new_state =
      Some (m, s1, None)" "OnResponse quiet_env m engine_response s1 = Some (m', s2, None)"
    and e: "effects s2 = effects new_state @ [Publish (newPayload_buildDecoratedEvent (uuid quiet_env)
      (clientMeta quiet_env) (extractPayloadData (requestEvent (callCtx new_state) engine_request))
      (responseEvent (callCtx new_state) engine_response))]"
    by blast
  moreover have "length (effects s2) = 1" by (simp add: e new_state_def)
  ultimately show ?thesis by blast
qed

text \<open>A new request counter that is given a list of requests reports the numbers one, two,
  three and so on, one message per request in their order, and ends with their number.\<close>

theorem counter_reports_in_order:
  assumes "\<And>f. writeOk E conn f" and "length ctxs < 2 ^ 63"
  shows "\<exists>rc s'. run_requests E (RequestCounter (NewRequestCounter i conn)) ctxs s =
      Some (RequestCounter rc, s') \<and> GetCount rc = int (length ctxs) \<and>
      outbox s' = outbox s @ map (\<lambda>(k, c). count_frame E i conn k c) (enumerate 1 ctxs)"
  using counter_run [of E conn 0 ctxs i s] assms sint_of_nat_small [OF assms(2)]
  by (auto simp: NewRequestCounter_def GetCount_def)

theorem counter_reports_in_order_witness:
  "\<exists>rc s'. run_requests quiet_env (RequestCounter (NewRequestCounter 4 2)) [engine_request, engine_request]
      new_state = Some (RequestCounter rc, s') \<and> GetCount rc = 2"
proof -
  have "writeOk quiet_env 2 f" for f by (simp add: quiet_env_def)
  from counter_reports_in_order [OF this, of "[engine_request, engine_request]" 4 new_state]
  show ?thesis by auto
qed

end
