(* ===== verification/Manager.thy ===== *)
theory Manager
  imports Builtin
begin

text \<open>
  The module manager and its control connections: \<open>modules/manager.go\<close>. Locks make every
  operation below one step. The map of modules is a map; the order in which a call visits
  the modules is that of a Go map and therefore an argument. A connection is a number; its
  manager holds the pending requests, each with the one-place buffer of its channel, and the
  ids registered over it. The reading loop is a state machine on incoming frames.
\<close>

subsection \<open>State\<close>

record conn_manager =
  pendingRequests :: "u64 \<rightharpoonup> (ws_message \<times> bytes option) option"
  connModules :: "u64 list"
  closed :: bool

record 'q module_manager =
  modules :: "u64 \<rightharpoonup> 'q module"
  connections :: "nat \<rightharpoonup> conn_manager"
  filters :: "u64 \<rightharpoonup> 'q filter_config"
  moduleCounter :: u64
  requestCounter :: u64
  enabled :: bool

definition NewModuleManager :: "'q module_manager" where
  "NewModuleManager =
     \<lparr>modules = Map.empty, connections = Map.empty, filters = Map.empty, moduleCounter = 0,
      requestCounter = 0, enabled = True\<rparr>"

subsection \<open>Module registry\<close>

definition GenerateModuleID :: "'q module_manager \<Rightarrow> u64 \<times> 'q module_manager" where
  "GenerateModuleID mm =
     (moduleCounter mm + 1, mm\<lparr>moduleCounter := moduleCounter mm + 1\<rparr>)"

definition GenerateRequestID :: "'q module_manager \<Rightarrow> u64 \<times> 'q module_manager" where
  "GenerateRequestID mm =
     (requestCounter mm + 1, mm\<lparr>requestCounter := requestCounter mm + 1\<rparr>)"

definition IsEnabled :: "'q module_manager \<Rightarrow> bool" where
  "IsEnabled mm = enabled mm"

definition SetEnabled :: "bool \<Rightarrow> 'q module_manager \<Rightarrow> 'q module_manager" where
  "SetEnabled b mm = mm\<lparr>enabled := b\<rparr>"

definition RegisterModule ::
  "'q module \<Rightarrow> 'q filter_config option \<Rightarrow> 'q module_manager \<Rightarrow> 'q module_manager" where
  "RegisterModule m filt mm =
     (let mm1 = mm\<lparr>modules := (modules mm)(module_ID m \<mapsto> m)\<rparr>
      in case filt of
           None \<Rightarrow> mm1
         | Some f \<Rightarrow> mm1\<lparr>filters := (filters mm1)(module_ID m \<mapsto> f)\<rparr>)"

definition UnregisterModule :: "u64 \<Rightarrow> 'q module_manager \<Rightarrow> 'q module_manager" where
  "UnregisterModule i mm =
     (case modules mm i of
        None \<Rightarrow> mm
      | Some m \<Rightarrow> mm\<lparr>modules := (modules mm)(i := None), filters := (filters mm)(i := None)\<rparr>)"

subsection \<open>Which modules see a call\<close>

definition shouldProcessRequest ::
  "('q, 'm) env \<Rightarrow> 'q module_manager \<Rightarrow> request_ctx \<Rightarrow> 'q module \<Rightarrow> 'm mod_state \<Rightarrow>
   (bool \<times> 'm mod_state) option" where
  "shouldProcessRequest E mm ctx m s =
     (case filters mm (module_ID m) of
        None \<Rightarrow> Some (True, s)
      | Some cfg \<Rightarrow>
          (case requestFilter cfg of
             None \<Rightarrow> Some (True, s)
           | Some f \<Rightarrow>
               (case ShouldProcessRequestFilter (unmarshal E) (jqRun E) (Some f) ctx of
                  None \<Rightarrow> None
                | Some True \<Rightarrow> Some (True, s)
                | Some False \<Rightarrow>
                    Some (False, s\<lparr>callCtx := SetData (callCtx s) (module_ID m) ''skip_response''
                                      (Any (JBool True))\<rparr>))))"

definition shouldProcessResponse ::
  "('q, 'm) env \<Rightarrow> 'q module_manager \<Rightarrow> response_ctx \<Rightarrow> 'q module \<Rightarrow> 'm mod_state \<Rightarrow>
   (bool \<times> 'm mod_state) option" where
  "shouldProcessResponse E mm ctx m s =
     (if GetData (callCtx s) (module_ID m) ''wants_response'' = Some (Any (JBool True)) then Some (True, s)
      else if GetData (callCtx s) (module_ID m) ''skip_response'' = Some (Any (JBool True))
      then Some (False, s)
      else
        case filters mm (module_ID m) of
          None \<Rightarrow> Some (True, s)
        | Some cfg \<Rightarrow>
            (case responseFilter cfg of
               None \<Rightarrow> Some (True, s)
             | Some f \<Rightarrow>
                 map_option (\<lambda>b. (b, s))
                   (ShouldProcessResponseFilter (unmarshal E) (jqRun E) (Some f) ctx)))"

text \<open>The loop of \<open>ProcessRequest\<close> and \<open>ProcessResponse\<close> over the snapshot of the modules: a
  module that fails ends it.\<close>

fun runModules ::
  "('q module \<Rightarrow> 'm mod_state \<Rightarrow> (bool \<times> 'm mod_state) option) \<Rightarrow>
   ('q module \<Rightarrow> 'm mod_state \<Rightarrow> ('q, 'm) outcome) \<Rightarrow> u64 list \<Rightarrow> (u64 \<rightharpoonup> 'q module) \<Rightarrow> 'm mod_state \<Rightarrow>
   ((u64 \<rightharpoonup> 'q module) \<times> 'm mod_state \<times> bytes option) option" where
  "runModules should oper [] mods s = Some (mods, s, None)"
| "runModules should oper (i # is) mods s =
     (case mods i of
        None \<Rightarrow> runModules should oper is mods s
      | Some m \<Rightarrow>
          (case should m s of
             None \<Rightarrow> None
           | Some (False, s1) \<Rightarrow> runModules should oper is mods s1
           | Some (True, s1) \<Rightarrow>
               (case oper m s1 of
                  None \<Rightarrow> None
                | Some (m', s2, Some err) \<Rightarrow> Some (mods(i \<mapsto> m'), s2, Some err)
                | Some (m', s2, None) \<Rightarrow> runModules should oper is (mods(i \<mapsto> m')) s2)))"

definition ProcessRequest ::
  "('q, 'm) env \<Rightarrow> u64 list \<Rightarrow> request_ctx \<Rightarrow> 'q module_manager \<Rightarrow> 'm mod_state \<Rightarrow>
   ('q module_manager \<times> 'm mod_state \<times> bytes option) option" where
  "ProcessRequest E order ctx mm s =
     (if \<not> IsEnabled mm then Some (mm, s, None)
      else map_option (\<lambda>(mods, s', e). (mm\<lparr>modules := mods\<rparr>, s', e))
             (runModules (shouldProcessRequest E mm ctx) (\<lambda>m s. OnRequest E m ctx s) order (modules mm) s))"

definition ProcessResponse ::
  "('q, 'm) env \<Rightarrow> u64 list \<Rightarrow> response_ctx \<Rightarrow> 'q module_manager \<Rightarrow> 'm mod_state \<Rightarrow>
   ('q module_manager \<times> 'm mod_state \<times> bytes option) option" where
  "ProcessResponse E order ctx mm s =
     (if \<not> IsEnabled mm then Some (mm, s, None)
      else map_option (\<lambda>(mods, s', e). (mm\<lparr>modules := mods\<rparr>, s', e))
             (runModules (shouldProcessResponse E mm ctx) (\<lambda>m s. OnResponse E m ctx s) order (modules mm) s))"

subsection \<open>Reading frames\<close>

text \<open>What \<open>ReadMessage\<close> and the decoding of a text frame give: \<open>Text None\<close> is a text that does
  not decode.\<close>

datatype incoming = Text "ws_message option" | Binary bytes | ReadError

record reader =
  expectingBinary :: bool
  lastJSONMessage :: "ws_message option"

definition new_reader :: reader where
  "new_reader = \<lparr>expectingBinary = False, lastJSONMessage = None\<rparr>"

datatype reading = Continue | Deliver ws_message "bytes option" | Leave

fun readFrame :: "reader \<Rightarrow> incoming \<Rightarrow> reader \<times> reading" where
  "readFrame r ReadError = (r, Leave)"
| "readFrame r (Text None) = (r, Leave)"
| "readFrame r (Text (Some msg)) =
     (if wmBinary msg then (r\<lparr>expectingBinary := True, lastJSONMessage := Some msg\<rparr>, Continue)
      else (r, Deliver msg None))"
| "readFrame r (Binary data) =
     (case lastJSONMessage r of
        Some msg \<Rightarrow> if expectingBinary r
                    then (r\<lparr>expectingBinary := False, lastJSONMessage := None\<rparr>, Deliver msg (Some data))
                    else (r, Continue)
      | None \<Rightarrow> (r, Continue))"

text \<open>The messages a sequence of frames delivers, up to the end of the loop.\<close>

fun readAll :: "reader \<Rightarrow> incoming list \<Rightarrow> (ws_message \<times> bytes option) list" where
  "readAll r [] = []"
| "readAll r (f # fs) =
     (case readFrame r f of
        (r', Continue) \<Rightarrow> readAll r' fs
      | (r', Deliver msg data) \<Rightarrow> (msg, data) # readAll r' fs
      | (r', Leave) \<Rightarrow> [])"

subsection \<open>Pending requests\<close>

definition on_conn :: "nat \<Rightarrow> (conn_manager \<Rightarrow> conn_manager) \<Rightarrow> 'q module_manager \<Rightarrow> 'q module_manager" where
  "on_conn c f mm = mm\<lparr>connections := (connections mm)(c := map_option f (connections mm c))\<rparr>"

definition RegisterPendingRequest :: "u64 \<Rightarrow> conn_manager \<Rightarrow> conn_manager" where
  "RegisterPendingRequest i cm = cm\<lparr>pendingRequests := (pendingRequests cm)(i \<mapsto> None)\<rparr>"

definition UnregisterPendingRequest :: "u64 \<Rightarrow> conn_manager \<Rightarrow> conn_manager" where
  "UnregisterPendingRequest i cm = cm\<lparr>pendingRequests := (pendingRequests cm)(i := None)\<rparr>"

definition handleResponse :: "ws_message \<Rightarrow> bytes option \<Rightarrow> conn_manager \<Rightarrow> conn_manager" where
  "handleResponse msg binaryData cm =
     (case pendingRequests cm (wmResponseID msg) of
        Some None \<Rightarrow>
          cm\<lparr>pendingRequests := (pendingRequests cm)(wmResponseID msg \<mapsto> Some (msg, binaryData))\<rparr>
      | Some (Some _) \<Rightarrow> cm
      | None \<Rightarrow> cm)"

text \<open>The select of \<open>WaitForResponse\<close>: \<open>Inr\<close> of the response, \<open>Inl ()\<close> for the cancelled wait,
  \<open>None\<close> while neither case is ready. With both ready, \<open>pick\<close> says which one Go takes.\<close>

definition WaitForResponse ::
  "bool \<Rightarrow> u64 \<Rightarrow> conn_manager \<Rightarrow> ((unit + ws_message \<times> bytes option) \<times> conn_manager) option" where
  "WaitForResponse pick i cm =
     (case pendingRequests cm i of
        Some (Some resp) \<Rightarrow>
          Some (if closed cm \<and> \<not> pick then Inl () else Inr resp, UnregisterPendingRequest i cm)
      | _ \<Rightarrow> if closed cm then Some (Inl (), UnregisterPendingRequest i cm) else None)"

definition conn_Close :: "conn_manager \<Rightarrow> conn_manager" where
  "conn_Close cm = (if \<not> closed cm then cm\<lparr>closed := True\<rparr> else cm)"

subsection \<open>Control messages\<close>

text \<open>The frames written so far are threaded through; a failing write loses the reply and is
  only logged.\<close>

type_synonym frames = "(nat \<times> frame) list"

definition send_reply :: "('q, 'm) env \<Rightarrow> nat \<Rightarrow> ws_message \<Rightarrow> frames \<Rightarrow> frames" where
  "send_reply E conn reply out =
     (if writeOk E conn (JsonFrame reply) then out @ [(conn, JsonFrame reply)] else out)"

definition reply_message :: "ws_message \<Rightarrow> int \<Rightarrow> msg_data \<Rightarrow> bytes option \<Rightarrow> ws_message" where
  "reply_message msg now data err =
     \<lparr>wmRequestID = 0, wmResponseID = wmRequestID msg, wmModuleID = 0, wmMethod = wmMethod msg,
      wmData = data, wmError = err, wmTimestamp = now, wmBinary = False\<rparr>"

definition sendResponse :: "('q, 'm) env \<Rightarrow> nat \<Rightarrow> ws_message \<Rightarrow> msg_data \<Rightarrow> frames \<Rightarrow> frames" where
  "sendResponse E conn msg data out = send_reply E conn (reply_message msg (clock E) data None) out"

definition sendErrorResponse :: "('q, 'm) env \<Rightarrow> nat \<Rightarrow> ws_message \<Rightarrow> bytes \<Rightarrow> frames \<Rightarrow> frames" where
  "sendErrorResponse E conn msg err out =
     send_reply E conn (reply_message msg (clock E) NoData (Some err)) out"

text \<open>\<open>parseMessageData\<close> into a \<open>RegisterModuleRequest\<close>. Incoming data is JSON or absent.\<close>

record register_request =
  rrqType :: bytes
  rrqName :: bytes
  rrqConfig :: "(bytes \<times> json) list"

fun message_json :: "msg_data \<Rightarrow> json" where
  "message_json (JsonData v) = v"
| "message_json _ = JNull"

fun register_request_of_json :: "json \<Rightarrow> register_request option" where
  "register_request_of_json JNull = Some \<lparr>rrqType = [], rrqName = [], rrqConfig = []\<rparr>"
| "register_request_of_json (JObj kvs) =
     (case (string_of_field kvs ''type'', string_of_field kvs ''name'', map_of_field kvs ''config'') of
        (Some ty, Some nm, Some cfg) \<Rightarrow> Some \<lparr>rrqType = ty, rrqName = nm, rrqConfig = cfg\<rparr>
      | _ \<Rightarrow> None)"
| "register_request_of_json _ = None"

definition newModule :: "bytes \<Rightarrow> u64 \<Rightarrow> nat \<Rightarrow> 'q module option" where
  "newModule typ moduleID conn =
     (if typ = ''request_snooper'' then Some (RequestSnooper moduleID conn)
      else if typ = ''response_snooper'' then Some (ResponseSnooper moduleID conn)
      else if typ = ''request_counter'' then Some (RequestCounter (NewRequestCounter moduleID conn))
      else if typ = ''response_tracer'' then Some (ResponseTracer (NewResponseTracer moduleID conn))
      else None)"

definition compile_if_set :: "('q, 'm) env \<Rightarrow> 'q filter_spec option \<Rightarrow> 'q filter_spec option option" where
  "compile_if_set E filt =
     (case filt of
        None \<Rightarrow> Some None
      | Some f \<Rightarrow> if fJSONQuery f \<noteq> [] then map_option Some (CompileFilter (jqParse E) f)
                  else Some (Some f))"

text \<open>The steps of a registration after the request is parsed: \<open>Inl\<close> of the error text, or the
  configured module and its filters.\<close>

definition buildModule ::
  "('q, 'm) env \<Rightarrow> nat \<Rightarrow> u64 \<Rightarrow> register_request \<Rightarrow> bytes + ('q module \<times> 'q filter_config)" where
  "buildModule E conn moduleID req =
     (case newModule (rrqType req) moduleID conn of
        None \<Rightarrow> Inl (''Unknown module type: '' @ rrqType req)
      | Some m \<Rightarrow>
          (let fc = parseFilterConfig (rrqConfig req)
           in case compile_if_set E (requestFilter fc) of
                None \<Rightarrow> Inl (''Failed to compile request filter: '' @ errText E)
              | Some rqf \<Rightarrow>
                  (case compile_if_set E (responseFilter fc) of
                     None \<Rightarrow> Inl (''Failed to compile response filter: '' @ errText E)
                   | Some rsf \<Rightarrow>
                       (case Configure E (rrqConfig req) m of
                          None \<Rightarrow> Inl (''Failed to configure module: '' @ errText E)
                        | Some m' \<Rightarrow>
                            Inr (m', \<lparr>requestFilter = rqf, responseFilter = rsf\<rparr>)))))"

definition handleModuleRegistration ::
  "('q, 'm) env \<Rightarrow> nat \<Rightarrow> ws_message \<Rightarrow> 'q module_manager \<Rightarrow> frames \<Rightarrow> 'q module_manager \<times> frames" where
  "handleModuleRegistration E conn msg mm out =
     (case register_request_of_json (message_json (wmData msg)) of
        None \<Rightarrow> (mm, sendErrorResponse E conn msg (''Invalid registration request: '' @ errText E) out)
      | Some req \<Rightarrow>
          (let (moduleID, mm1) = GenerateModuleID mm
           in case buildModule E conn moduleID req of
                Inl err \<Rightarrow> (mm1, sendErrorResponse E conn msg err out)
              | Inr (m, fc) \<Rightarrow>
                  (on_conn conn (\<lambda>cm. cm\<lparr>connModules := connModules cm @ [moduleID]\<rparr>)
                     (RegisterModule m (Some fc) mm1),
                   sendResponse E conn msg
                     (RegisterData \<lparr>rrSuccess = True, rrModuleID = moduleID,
                        rrMessage = ''Module '' @ rrqType req @ '' registered successfully''\<rparr>) out)))"

definition handleModuleUnregistration ::
  "('q, 'm) env \<Rightarrow> nat \<Rightarrow> ws_message \<Rightarrow> 'q module_manager \<Rightarrow> frames \<Rightarrow> 'q module_manager \<times> frames" where
  "handleModuleUnregistration E conn msg mm out =
     (case uint64_of_json (message_json (wmData msg)) of
        None \<Rightarrow> (mm, sendErrorResponse E conn msg (''Invalid module ID: '' @ errText E) out)
      | Some moduleID \<Rightarrow>
          (on_conn conn (\<lambda>cm. cm\<lparr>connModules := remove1 moduleID (connModules cm)\<rparr>)
             (UnregisterModule moduleID mm),
           sendResponse E conn msg
             (JsonData (JObj [(''success'', JBool True),
                (''message'', JStr ''Module unregistered successfully'')])) out))"

definition handleRequest ::
  "('q, 'm) env \<Rightarrow> nat \<Rightarrow> ws_message \<Rightarrow> 'q module_manager \<Rightarrow> frames \<Rightarrow> 'q module_manager \<times> frames" where
  "handleRequest E conn msg mm out =
     (if wmMethod msg = ''register_module'' then handleModuleRegistration E conn msg mm out
      else if wmMethod msg = ''unregister_module'' then handleModuleUnregistration E conn msg mm out
      else (mm, sendErrorResponse E conn msg (''Unknown method: '' @ wmMethod msg) out))"

definition handleJSONMessage ::
  "('q, 'm) env \<Rightarrow> nat \<Rightarrow> ws_message \<Rightarrow> bytes option \<Rightarrow> 'q module_manager \<Rightarrow> frames \<Rightarrow>
   'q module_manager \<times> frames" where
  "handleJSONMessage E conn msg binaryData mm out =
     (if wmResponseID msg \<noteq> 0 then (on_conn conn (handleResponse msg binaryData) mm, out)
      else handleRequest E conn msg mm out)"

subsection \<open>The life of a connection\<close>

text \<open>\<open>HandleWebSocket\<close> up to the start of the reading loop, and its deferred clean-up.\<close>

definition connect :: "nat \<Rightarrow> 'q module_manager \<Rightarrow> 'q module_manager" where
  "connect conn mm =
     mm\<lparr>connections := (connections mm)
          (conn \<mapsto> \<lparr>pendingRequests = Map.empty, connModules = [], closed = False\<rparr>)\<rparr>"

definition disconnect :: "nat \<Rightarrow> 'q module_manager \<Rightarrow> 'q module_manager" where
  "disconnect conn mm =
     (case connections mm conn of
        None \<Rightarrow> mm
      | Some cm \<Rightarrow>
          fold UnregisterModule (connModules cm) (mm\<lparr>connections := (connections mm)(conn := None)\<rparr>))"

text \<open>Everything that changes the manager. A registration needs an id that is still free: the
  counter is assumed not to have wrapped around.\<close>

inductive mgr_step :: "('q, 'm) env \<Rightarrow> 'q module_manager \<Rightarrow> 'q module_manager \<Rightarrow> bool"
  for E :: "('q, 'm) env" where
  Connect: "connections mm conn = None \<Longrightarrow> mgr_step E mm (connect conn mm)"
| Message: "connections mm conn \<noteq> None \<Longrightarrow> moduleCounter mm \<noteq> - 1 \<Longrightarrow>
    handleJSONMessage E conn msg data mm out = (mm', out') \<Longrightarrow> mgr_step E mm mm'"
| Disconnect: "connections mm conn \<noteq> None \<Longrightarrow> mgr_step E mm (disconnect conn mm)"
| Requests: "ProcessRequest E order rq mm s = Some (mm', s', e) \<Longrightarrow> mgr_step E mm mm'"
| Responses: "ProcessResponse E order rs mm s = Some (mm', s', e) \<Longrightarrow> mgr_step E mm mm'"
| Switch: "mgr_step E mm (SetEnabled b mm)"

inductive_cases mgr_stepE: "mgr_step E mm mm'"

text \<open>Reachable from a manager that holds only what \<open>NewSnooper\<close> may register: the Xatu module.\<close>

inductive mgr_reachable :: "('q, 'm) env \<Rightarrow> 'q module_manager \<Rightarrow> bool" for E :: "('q, 'm) env" where
  Init: "mgr_reachable E NewModuleManager"
| InitXatu: "GenerateModuleID NewModuleManager = (i, mm) \<Longrightarrow>
    mgr_reachable E (RegisterModule (XatuModule i r) None mm)"
| Step: "mgr_reachable E mm \<Longrightarrow> mgr_step E mm mm' \<Longrightarrow> mgr_reachable E mm'"

definition owners :: "'q module_manager \<Rightarrow> u64 \<Rightarrow> nat set" where
  "owners mm i = {c. \<exists>cm. connections mm c = Some cm \<and> i \<in> set (connModules cm)}"

fun is_xatu :: "'q module \<Rightarrow> bool" where
  "is_xatu (XatuModule i r) = True"
| "is_xatu _ = False"

text \<open>Keys are ids issued so far, filters belong to registered modules, a connection lists each
  of its ids once, no id has two owners, and every module but the Xatu one has an owner.\<close>

definition keys_ok :: "'q module_manager \<Rightarrow> bool" where
  "keys_ok mm \<longleftrightarrow> (\<forall>i m. modules mm i = Some m \<longrightarrow> module_ID m = i \<and> i \<le> moduleCounter mm)"

definition conns_ok :: "'q module_manager \<Rightarrow> bool" where
  "conns_ok mm \<longleftrightarrow> (\<forall>c cm. connections mm c = Some cm \<longrightarrow> distinct (connModules cm) \<and>
     (\<forall>i \<in> set (connModules cm). i \<le> moduleCounter mm))"

definition owned :: "'q module_manager \<Rightarrow> bool" where
  "owned mm \<longleftrightarrow> (\<forall>i c d. c \<in> owners mm i \<longrightarrow> d \<in> owners mm i \<longrightarrow> c = d) \<and>
     (\<forall>i m. modules mm i = Some m \<longrightarrow> is_xatu m \<or> owners mm i \<noteq> {})"

definition mgr_inv :: "'q module_manager \<Rightarrow> bool" where
  "mgr_inv mm \<longleftrightarrow> keys_ok mm \<and> dom (filters mm) \<subseteq> dom (modules mm) \<and> conns_ok mm \<and> owned mm"

lemmas mgr_inv_defs = mgr_inv_def keys_ok_def conns_ok_def owned_def owners_def

subsection \<open>Invariant\<close>

text \<open>Running modules changes their states, never which modules there are.\<close>

lemma OnRequest_kind:
  "OnRequest E m ctx s = Some (m', s', e) \<Longrightarrow> module_ID m' = module_ID m \<and> is_xatu m' = is_xatu m"
  by (cases m) (auto simp: module_op_defs Let_def split: option.splits if_splits prod.splits)

lemma OnResponse_kind:
  "OnResponse E m ctx s = Some (m', s', e) \<Longrightarrow> module_ID m' = module_ID m \<and> is_xatu m' = is_xatu m"
  by (cases m)
     (auto simp: module_op_defs Let_def split: option.splits if_splits prod.splits call_value.splits)

definition same_modules :: "(u64 \<rightharpoonup> 'q module) \<Rightarrow> (u64 \<rightharpoonup> 'q module) \<Rightarrow> bool" where
  "same_modules mods mods' \<longleftrightarrow> (\<forall>i. map_option (\<lambda>m. (module_ID m, is_xatu m)) (mods' i) =
     map_option (\<lambda>m. (module_ID m, is_xatu m)) (mods i))"

lemma same_modules_upd:
  assumes "same_modules mods mods'" and "mods i = Some m" and "module_ID m' = module_ID m"
    and "is_xatu m' = is_xatu m"
  shows "same_modules mods (mods'(i \<mapsto> m'))"
  using assms by (simp add: same_modules_def)

lemma same_modules_refl [simp]: "same_modules mods mods"
  by (simp add: same_modules_def)

lemma same_modules_trans: "same_modules a b \<Longrightarrow> same_modules b c \<Longrightarrow> same_modules a c"
  by (simp add: same_modules_def)

lemma runModules_ConsE:
  assumes "runModules should oper (i # order) mods s = Some (mods', s', e)"
  obtains (absent) "mods i = None" "runModules should oper order mods s = Some (mods', s', e)"
  | (skipped) m s1 where "mods i = Some m" "should m s = Some (False, s1)"
      "runModules should oper order mods s1 = Some (mods', s', e)"
  | (failed) m s1 m' err where "mods i = Some m" "should m s = Some (True, s1)"
      "oper m s1 = Some (m', s', Some err)" "mods' = mods(i \<mapsto> m')" "e = Some err"
  | (ran) m s1 m' s2 where "mods i = Some m" "should m s = Some (True, s1)"
      "oper m s1 = Some (m', s2, None)"
      "runModules should oper order (mods(i \<mapsto> m')) s2 = Some (mods', s', e)"
proof (cases "mods i")
  case None
  with assms absent show thesis by simp
next
  case (Some m)
  note m = this
  show thesis
  proof (cases "should m s")
    case None
    with assms m show thesis by simp
  next
    case (Some bs)
    obtain b s1 where bs: "bs = (b, s1)" by (cases bs)
    show thesis
    proof (cases b)
      case False
      with assms m Some bs skipped show thesis by simp
    next
      case True
      note sh = Some [unfolded bs] True
      show thesis
      proof (cases "oper m s1")
        case None
        with assms m sh show thesis by simp
      next
        case (Some r)
        obtain m' s2 err where r: "r = (m', s2, err)" by (cases r)
        show thesis
        proof (cases err)
          case None
          with assms m sh Some r show thesis by (intro ran) simp_all
        next
          case (Some x)
          with assms m sh \<open>oper m s1 = Some r\<close> r show thesis
            by (intro failed [of m s1 m' x]) simp_all
        qed
      qed
    qed
  qed
qed

lemma runModules_same:
  assumes "runModules should oper order mods s = Some (mods', s', e)"
    and oper: "\<And>m s m' s' e. oper m s = Some (m', s', e) \<Longrightarrow>
      module_ID m' = module_ID m \<and> is_xatu m' = is_xatu m"
  shows "same_modules mods mods'"
  using assms(1)
proof (induction order arbitrary: mods s)
  case (Cons i order)
  from Cons.prems show ?case
  proof (cases rule: runModules_ConsE)
    case absent
    show ?thesis using absent(2) by (rule Cons.IH)
  next
    case (skipped m s1)
    then show ?thesis by (blast intro: Cons.IH)
  next
    case (failed m s1 m' err)
    show ?thesis
      unfolding failed(4) using oper [OF failed(3)] failed(1) by (intro same_modules_upd) auto
  next
    case (ran m s1 m' s2)
    have "same_modules mods (mods(i \<mapsto> m'))"
      using oper [OF ran(3)] ran(1) by (intro same_modules_upd) auto
    from this Cons.IH [OF ran(4)] show ?thesis by (rule same_modules_trans)
  qed
qed simp

lemma same_modules_inv:
  assumes "mgr_inv mm" and "same_modules (modules mm) mods"
  shows "mgr_inv (mm\<lparr>modules := mods\<rparr>)"
proof -
  let ?f = "\<lambda>m. (module_ID m, is_xatu m)"
  have eq: "map_option ?f (mods i) = map_option ?f (modules mm i)" for i
    using assms(2) by (simp add: same_modules_def)
  have orig: "\<exists>m0. modules mm i = Some m0 \<and> module_ID m = module_ID m0 \<and> is_xatu m = is_xatu m0"
    if "mods i = Some m" for i m
    using eq [of i] that by (cases "modules mm i") auto
  have "mods i = None \<longleftrightarrow> modules mm i = None" for i
    using eq [of i] by (cases "modules mm i"; cases "mods i") auto
  then have dom: "dom mods = dom (modules mm)" by (simp add: dom_def)
  have own: "owners (mm\<lparr>modules := mods\<rparr>) = owners mm" by (simp add: owners_def fun_eq_iff)
  have "keys_ok (mm\<lparr>modules := mods\<rparr>)"
    using assms(1) by (auto simp: mgr_inv_def keys_ok_def dest!: orig)
  moreover have "owned (mm\<lparr>modules := mods\<rparr>)"
    unfolding owned_def own using assms(1) by (auto simp: mgr_inv_def owned_def dest!: orig)
  ultimately show ?thesis using assms(1) dom by (simp add: mgr_inv_def conns_ok_def)
qed

text \<open>Connections.\<close>

lemma owners_connect: "connections mm c = None \<Longrightarrow> owners (connect c mm) i = owners mm i"
  by (auto simp: owners_def connect_def)

lemma connect_inv [step_inv]:
  assumes "mgr_inv mm" and "connections mm c = None"
  shows "mgr_inv (connect c mm)"
proof -
  have "owned (connect c mm)"
    unfolding owned_def owners_connect [OF assms(2)]
    using assms(1) by (simp add: mgr_inv_def owned_def connect_def)
  with assms(1) show ?thesis by (auto simp: mgr_inv_def keys_ok_def conns_ok_def connect_def)
qed

lemma owners_on_conn:
  "(\<And>cm. connModules (f cm) = connModules cm) \<Longrightarrow> owners (on_conn c f mm) i = owners mm i"
  by (auto simp: owners_def on_conn_def)

lemma on_conn_inv [step_inv]:
  assumes "mgr_inv mm" and "\<And>cm. connModules (f cm) = connModules cm"
  shows "mgr_inv (on_conn c f mm)"
proof -
  have "owned (on_conn c f mm)"
    unfolding owned_def owners_on_conn [OF assms(2)]
    using assms(1) by (simp add: mgr_inv_def owned_def on_conn_def)
  with assms show ?thesis by (auto simp: mgr_inv_def keys_ok_def conns_ok_def on_conn_def)
qed

lemma handleResponse_modules [simp]: "connModules (handleResponse msg data cm) = connModules cm"
  by (simp add: handleResponse_def split: option.split)

text \<open>Unregistration.\<close>

lemma owners_UnregisterModule [simp]: "owners (UnregisterModule i mm) = owners mm"
  by (auto simp: owners_def UnregisterModule_def fun_eq_iff split: option.split)

lemma UnregisterModule_fields [simp]:
  "connections (UnregisterModule i mm) = connections mm"
  "moduleCounter (UnregisterModule i mm) = moduleCounter mm"
  "modules (UnregisterModule i mm) = (modules mm)(i := None)"
  by (auto simp: UnregisterModule_def split: option.split)

lemma mm_unregister_inv [step_inv]:
  assumes "mgr_inv mm"
  shows "mgr_inv (UnregisterModule i mm)"
proof -
  have "dom (filters (UnregisterModule i mm)) \<subseteq> dom (modules (UnregisterModule i mm))"
    using assms by (auto simp: mgr_inv_def UnregisterModule_def split: option.split)
  with assms show ?thesis by (auto simp: mgr_inv_def keys_ok_def conns_ok_def owned_def)
qed

text \<open>An id that is not registered may be dropped from a connection's list.\<close>

lemma owners_remove1:
  assumes "conns_ok mm"
  shows "owners (on_conn c (\<lambda>cm. cm\<lparr>connModules := remove1 i (connModules cm)\<rparr>) mm) j =
    (if j = i then owners mm j - {c} else owners mm j)"
  using assms by (auto simp: owners_def on_conn_def conns_ok_def)

lemma drop_id_inv:
  assumes "mgr_inv mm" and "modules mm i = None"
  shows "mgr_inv (on_conn c (\<lambda>cm. cm\<lparr>connModules := remove1 i (connModules cm)\<rparr>) mm)"
    (is "mgr_inv ?mm")
proof -
  have ok: "conns_ok mm" using assms(1) by (simp add: mgr_inv_def)
  have "owned ?mm"
    unfolding owned_def owners_remove1 [OF ok]
    using assms by (auto simp: mgr_inv_def owned_def on_conn_def)
  moreover have "conns_ok ?mm"
    using ok by (auto simp: conns_ok_def on_conn_def dest: notin_set_remove1 split: if_splits)
  ultimately show ?thesis using assms by (simp add: mgr_inv_def keys_ok_def on_conn_def)
qed

text \<open>Registration.\<close>

lemma u64_fresh:
  assumes "(c :: u64) \<noteq> - 1"
  shows "c < c + 1"
proof -
  have "unat c \<noteq> unat (- 1 :: u64)" using assms word_unat_eq_iff by blast
  moreover have "unat (- 1 :: u64) = 2 ^ 64 - 1" by (simp add: unsigned_minus_1_eq_mask mask_eq_exp_minus_1)
  moreover have "unat c < 2 ^ 64" using unsigned_less [of c] by simp
  ultimately have "unat c + 1 < 2 ^ 64" by linarith
  then show ?thesis by (simp add: word_less_nat_alt unat_succ_u64)
qed

lemma GenerateModuleID_inv [step_inv]:
  assumes "mgr_inv mm" and "moduleCounter mm \<noteq> - 1" and "GenerateModuleID mm = (i, mm1)"
  shows "mgr_inv mm1"
proof -
  have lt: "moduleCounter mm \<le> moduleCounter mm + 1" using u64_fresh [OF assms(2)] by simp
  have mm1: "mm1 = mm\<lparr>moduleCounter := moduleCounter mm + 1\<rparr>"
    using assms(3) by (auto simp: GenerateModuleID_def)
  have "owners mm1 = owners mm" by (simp add: mm1 owners_def fun_eq_iff)
  with assms(1) lt show ?thesis
    by (auto simp: mgr_inv_def keys_ok_def conns_ok_def owned_def mm1 intro: order.trans [OF _ lt])
qed

lemma Generate_fresh:
  assumes "mgr_inv mm" and "moduleCounter mm \<noteq> - 1" and "GenerateModuleID mm = (i, mm1)"
  shows "modules mm1 i = None" "owners mm1 i = {}" "i = moduleCounter mm1" "connections mm1 = connections mm"
    "filters mm1 = filters mm" "modules mm1 = modules mm"
proof -
  have lt: "\<not> i \<le> moduleCounter mm" "i = moduleCounter mm + 1"
    and mm1: "mm1 = mm\<lparr>moduleCounter := moduleCounter mm + 1\<rparr>"
    using assms(3) u64_fresh [OF assms(2)] by (auto simp: GenerateModuleID_def)
  show "modules mm1 i = None"
    using assms(1) lt by (cases "modules mm i") (auto simp: mgr_inv_def keys_ok_def mm1)
  show "owners mm1 i = {}"
    using assms(1) lt by (auto simp: mgr_inv_def conns_ok_def owners_def mm1)
qed (use assms(3) in \<open>auto simp: GenerateModuleID_def\<close>)

lemma owners_append:
  "owners (on_conn c (\<lambda>cm. cm\<lparr>connModules := connModules cm @ [i]\<rparr>) mm) j =
    owners mm j \<union> (if j = i \<and> connections mm c \<noteq> None then {c} else {})"
  by (auto simp: owners_def on_conn_def split: if_splits)

lemma newModule_facts:
  "newModule typ i conn = Some m \<Longrightarrow> module_ID m = i \<and> \<not> is_xatu m"
  by (auto simp: newModule_def NewRequestCounter_def NewResponseTracer_def split: if_splits)

lemma Configure_facts: "Configure E cfg m = Some m' \<Longrightarrow> module_ID m' = module_ID m \<and> is_xatu m' = is_xatu m"
  by (cases m) (auto simp: ResponseTracer_Configure_def split: option.splits)

lemma buildModule_facts:
  "buildModule E conn i req = Inr (m, fc) \<Longrightarrow> module_ID m = i \<and> \<not> is_xatu m"
  by (auto simp: buildModule_def Let_def dest!: newModule_facts Configure_facts split: option.splits)

lemma mm_register_inv:
  assumes "mgr_inv mm" and "modules mm i = None" and "owners mm i = {}" and "i \<le> moduleCounter mm"
    and "connections mm c \<noteq> None" and "module_ID m = i"
  shows "mgr_inv (on_conn c (\<lambda>cm. cm\<lparr>connModules := connModules cm @ [i]\<rparr>) (RegisterModule m (Some fc) mm))"
    (is "mgr_inv ?mm")
proof -
  have R: "owners (RegisterModule m (Some fc) mm) j = owners mm j"
    "connections (RegisterModule m (Some fc) mm) = connections mm" for j
    by (simp_all add: owners_def RegisterModule_def Let_def)
  have "owned ?mm"
    unfolding owned_def owners_append R
    using assms by (auto simp: mgr_inv_def owned_def on_conn_def RegisterModule_def Let_def split: if_splits)
  moreover have "conns_ok ?mm"
    using assms by (auto simp: mgr_inv_def conns_ok_def on_conn_def RegisterModule_def Let_def owners_def
        split: if_splits)
  moreover have "keys_ok ?mm" "dom (filters ?mm) \<subseteq> dom (modules ?mm)"
    using assms by (auto simp: mgr_inv_def keys_ok_def on_conn_def RegisterModule_def Let_def split: if_splits)
  ultimately show ?thesis by (simp add: mgr_inv_def)
qed

lemma handleModuleRegistration_inv [step_inv]:
  assumes "mgr_inv mm" and "moduleCounter mm \<noteq> - 1" and "connections mm c \<noteq> None"
    and "handleModuleRegistration E c msg mm out = (mm', out')"
  shows "mgr_inv mm'"
proof -
  obtain i mm1 where g: "GenerateModuleID mm = (i, mm1)" by (cases "GenerateModuleID mm")
  have inv1: "mgr_inv mm1" by (rule GenerateModuleID_inv [OF assms(1,2) g])
  note fresh = Generate_fresh [OF assms(1,2) g]
  show ?thesis
  proof (cases "register_request_of_json (message_json (wmData msg))")
    case None
    with assms show ?thesis by (simp add: handleModuleRegistration_def)
  next
    case (Some req)
    show ?thesis
    proof (cases "buildModule E c i req")
      case (Inl err)
      with assms Some g inv1 show ?thesis by (simp add: handleModuleRegistration_def)
    next
      case (Inr mf)
      obtain m fc where mf: "mf = (m, fc)" by (cases mf)
      have "mgr_inv (on_conn c (\<lambda>cm. cm\<lparr>connModules := connModules cm @ [i]\<rparr>) (RegisterModule m (Some fc) mm1))"
        by (rule mm_register_inv)
           (use inv1 fresh assms(3) buildModule_facts [of E c i req m fc] Inr mf in auto)
      with assms(4) Some g Inr mf show ?thesis by (simp add: handleModuleRegistration_def)
    qed
  qed
qed

lemma handleModuleUnregistration_inv [step_inv]:
  assumes "mgr_inv mm" and "handleModuleUnregistration E c msg mm out = (mm', out')"
  shows "mgr_inv mm'"
proof (cases "uint64_of_json (message_json (wmData msg))")
  case None
  with assms show ?thesis by (simp add: handleModuleUnregistration_def)
next
  case (Some i)
  have "mgr_inv (on_conn c (\<lambda>cm. cm\<lparr>connModules := remove1 i (connModules cm)\<rparr>) (UnregisterModule i mm))"
    by (rule drop_id_inv [OF mm_unregister_inv [OF assms(1)]]) simp
  with assms(2) Some show ?thesis by (simp add: handleModuleUnregistration_def)
qed

lemma handleJSONMessage_inv [step_inv]:
  assumes "mgr_inv mm" and "moduleCounter mm \<noteq> - 1" and "connections mm c \<noteq> None"
    and "handleJSONMessage E c msg data mm out = (mm', out')"
  shows "mgr_inv mm'"
  using assms handleModuleRegistration_inv [OF assms(1-3)] handleModuleUnregistration_inv [OF assms(1)]
    on_conn_inv [OF assms(1), of "handleResponse msg data" c]
  by (auto simp: handleJSONMessage_def handleRequest_def split: if_splits)

text \<open>Disconnection.\<close>

lemma fold_unregister:
  "modules (fold UnregisterModule is mm) = (\<lambda>i. if i \<in> set is then None else modules mm i)"
  "connections (fold UnregisterModule is mm) = connections mm"
  by (induction "is" arbitrary: mm) auto

lemma fold_unregister_filters:
  "dom (filters mm) \<subseteq> dom (modules mm) \<Longrightarrow>
     dom (filters (fold UnregisterModule is mm)) \<subseteq> dom (modules (fold UnregisterModule is mm))"
proof (induction "is" arbitrary: mm)
  case (Cons i js)
  have "dom (filters (UnregisterModule i mm)) \<subseteq> dom (modules (UnregisterModule i mm))"
    using Cons.prems by (auto simp: UnregisterModule_def split: option.split)
  from Cons.IH [OF this] show ?case by simp
qed simp

lemma fold_unregister_counter [simp]: "moduleCounter (fold UnregisterModule is mm) = moduleCounter mm"
  by (induction "is" arbitrary: mm) auto

lemma disconnect_facts:
  assumes "connections mm c = Some cm"
  shows "modules (disconnect c mm) = (\<lambda>i. if i \<in> set (connModules cm) then None else modules mm i)"
    "connections (disconnect c mm) = (connections mm)(c := None)"
    "owners (disconnect c mm) i = owners mm i - {c}"
  using assms by (auto simp: disconnect_def fold_unregister owners_def split: if_splits)

lemma disconnect_inv [step_inv]:
  assumes "mgr_inv mm" and "connections mm c \<noteq> None"
  shows "mgr_inv (disconnect c mm)"
proof -
  obtain cm where c: "connections mm c = Some cm" using assms(2) by blast
  note d = disconnect_facts [OF c]
  have counter: "moduleCounter (disconnect c mm) = moduleCounter mm"
    by (simp add: disconnect_def c)
  have "dom (filters (disconnect c mm)) \<subseteq> dom (modules (disconnect c mm))"
    unfolding disconnect_def c option.case
    by (rule fold_unregister_filters) (use assms(1) in \<open>simp add: mgr_inv_def\<close>)
  moreover have "owned (disconnect c mm)"
  proof -
    have "c \<notin> owners mm i" if "i \<notin> set (connModules cm)" for i
      using that c by (simp add: owners_def)
    then have "is_xatu m \<or> owners mm i - {c} \<noteq> {}"
      if "modules mm i = Some m" "i \<notin> set (connModules cm)" for i m
      using that assms(1) by (fastforce simp: mgr_inv_def owned_def)
    moreover have "d = e" if "d \<in> owners mm i" "e \<in> owners mm i" for i d e
      using that assms(1) by (simp add: mgr_inv_def owned_def)
    ultimately show ?thesis by (simp add: owned_def d) blast
  qed
  moreover have "keys_ok (disconnect c mm)" "conns_ok (disconnect c mm)"
    using assms(1) by (auto simp: mgr_inv_def keys_ok_def conns_ok_def d counter split: if_splits)
  ultimately show ?thesis by (simp add: mgr_inv_def)
qed

lemma process_inv [step_inv]:
  "ProcessRequest E order rq mm s = Some (mm', s', e) \<Longrightarrow> mgr_inv mm \<Longrightarrow> mgr_inv mm'"
  "ProcessResponse E order rs mm s = Some (mm', s', e) \<Longrightarrow> mgr_inv mm \<Longrightarrow> mgr_inv mm'"
  by (auto simp: ProcessRequest_def ProcessResponse_def split: if_splits
      intro!: same_modules_inv dest!: OnRequest_kind OnResponse_kind runModules_same)

lemma SetEnabled_inv [step_inv]: "mgr_inv mm \<Longrightarrow> mgr_inv (SetEnabled b mm)"
  by (auto simp: mgr_inv_defs SetEnabled_def)

lemma mgr_step_inv: "mgr_step E mm mm' \<Longrightarrow> mgr_inv mm \<Longrightarrow> mgr_inv mm'"
  by (erule mgr_stepE) (auto intro: step_inv)

lemma mgr_reachable_inv: "mgr_reachable E mm \<Longrightarrow> mgr_inv mm"
proof (induction rule: mgr_reachable.induct)
  case Init
  then show ?case by (simp add: mgr_inv_defs NewModuleManager_def)
next
  case (InitXatu i mm r)
  then show ?case
    by (auto simp: mgr_inv_defs NewModuleManager_def GenerateModuleID_def RegisterModule_def Let_def
        split: if_splits)
next
  case (Step mm mm')
  then show ?case by (blast intro: mgr_step_inv)
qed

subsection \<open>Frames on the wire\<close>

text \<open>Modules and the manager send to many connections; what one client reads are the frames of
  its connection, as its \<open>ReadMessage\<close> gives them.\<close>

type_synonym sending = "nat \<times> ws_message \<times> bytes option"

fun send_all :: "('q, 'm) env \<Rightarrow> sending list \<Rightarrow> 'm mod_state \<Rightarrow> 'm mod_state" where
  "send_all E [] s = s"
| "send_all E ((conn, msg, None) # ops) s = send_all E ops (fst (SendMessage E conn msg s))"
| "send_all E ((conn, msg, Some data) # ops) s = send_all E ops (fst (SendMessageWithBinary E conn msg data s))"

definition frames_to :: "nat \<Rightarrow> frames \<Rightarrow> frame list" where
  "frames_to c out = map snd (filter (\<lambda>(d, f). d = c) out)"

fun as_incoming :: "frame \<Rightarrow> incoming" where
  "as_incoming (JsonFrame msg) = Text (Some msg)"
| "as_incoming (BinaryFrame data) = Binary data"

fun frames_of :: "sending \<Rightarrow> frame list" where
  "frames_of (conn, msg, None) = [JsonFrame msg]"
| "frames_of (conn, msg, Some data) = [JsonFrame (msg\<lparr>wmBinary := True\<rparr>), BinaryFrame data]"

fun received :: "sending \<Rightarrow> ws_message \<times> bytes option" where
  "received (conn, msg, None) = (msg, None)"
| "received (conn, msg, Some data) = (msg\<lparr>wmBinary := True\<rparr>, Some data)"

text \<open>\<open>SendMessage\<close> is given messages that do not announce a binary frame.\<close>

definition plain_sending :: "sending \<Rightarrow> bool" where
  "plain_sending x \<longleftrightarrow> (snd (snd x) = None \<longrightarrow> \<not> wmBinary (fst (snd x)))"

lemma send_all_frames:
  assumes "\<And>c f. writeOk E c f"
  shows "frames_to c (outbox (send_all E ops s)) =
    frames_to c (outbox s) @ concat (map frames_of (filter (\<lambda>x. fst x = c) ops))"
  using assms
proof (induction E ops s rule: send_all.induct)
  case (2 E conn msg ops s)
  then show ?case by (simp add: SendMessage_def write_frame_def frames_to_def)
next
  case (3 E conn msg data ops s)
  then show ?case by (simp add: SendMessageWithBinary_def write_frame_def frames_to_def)
qed simp

lemma readAll_frames:
  assumes "list_all plain_sending ops"
  shows "readAll new_reader (map as_incoming (concat (map frames_of ops))) = map received ops"
  using assms
proof (induction ops)
  case (Cons x ops)
  obtain c m d where "x = (c, m, d)" by (cases x)
  with Cons show ?case by (cases d) (simp_all add: plain_sending_def new_reader_def)
qed simp

subsection \<open>Filters and failures\<close>

lemma wants_response_after_request:
  assumes "OnRequest E m ctx s = Some (m', s', e)" and "(\<exists>i c. m = ResponseSnooper i c) \<or> (\<exists>rt. m = ResponseTracer rt)"
  shows "GetData (callCtx s') (module_ID m) ''wants_response'' = Some (Any (JBool True))"
  using assms
  by (auto simp: ResponseSnooper_OnRequest_def ResponseTracer_OnRequest_def Let_def
      split: option.splits if_splits)

lemma runModules_append:
  assumes "runModules should oper xs mods s = Some (mods', s', Some err)"
  shows "runModules should oper (xs @ ys) mods s = Some (mods', s', Some err)"
  using assms
proof (induction xs arbitrary: mods s)
  case (Cons i xs)
  from Cons.prems show ?case
    by (cases rule: runModules_ConsE) (auto intro: Cons.IH)
qed simp

subsection \<open>Properties\<close>





text \<open>A client can take away any module by its number, its own or another client's or the
  built-in Xatu module: nobody checks who registered it, and the reply reports success.\<close>

theorem unregister_ignores_owner:
  assumes "wmResponseID msg = 0" and "wmMethod msg = ''unregister_module''"
    and "wmData msg = JsonData (JNum (of_nat n))" and "n < 2 ^ 64"
  shows "modules (fst (handleJSONMessage E c msg data mm out)) = (modules mm)(of_nat n := None) \<and>
    snd (handleJSONMessage E c msg data mm out) = sendResponse E c msg (JsonData (JObj
      [(''success'', JBool True), (''message'', JStr ''Module unregistered successfully'')])) out"
  using assms uint64_of_nat [OF assms(4)]
  by (simp add: handleJSONMessage_def handleRequest_def handleModuleUnregistration_def on_conn_def
      del: uint64_of_json.simps)

definition unregister_message :: ws_message where
  "unregister_message =
     \<lparr>wmRequestID = 9, wmResponseID = 0, wmModuleID = 0, wmMethod = ''unregister_module'',
      wmData = JsonData (JNum 1), wmError = None, wmTimestamp = 0, wmBinary = False\<rparr>"

theorem unregister_ignores_owner_witness:
  "modules (fst (handleJSONMessage quiet_env 5 unregister_message None
     (RegisterModule (XatuModule 1 None) None NewModuleManager) [])) 1 = None"
  using unregister_ignores_owner [of unregister_message 1 quiet_env 5 None
      "RegisterModule (XatuModule 1 None) None NewModuleManager" "[]"]
  by (simp add: unregister_message_def)

text \<open>C38: The response filter of a response snooper or tracer is never asked about a call whose
  request the module has seen: seeing the request marks the response as wanted, and that
  mark comes before the filter. So a configured response filter has no effect on the calls
  that pass the request filter.\<close>

theorem response_filter_ineffective:
  assumes "OnRequest E m rq s = Some (m', s', e)"
    and "(\<exists>i c. m = ResponseSnooper i c) \<or> (\<exists>rt. m = ResponseTracer rt)"
  shows "shouldProcessResponse E' mm rs m' s' = Some (True, s')"
  using wants_response_after_request [OF assms] OnRequest_kind [OF assms(1)]
  by (simp add: shouldProcessResponse_def)

theorem response_filter_ineffective_witness:
  "\<exists>m' s'. OnRequest quiet_env (ResponseSnooper 4 2) engine_request new_state = Some (m', s', None) \<and>
     shouldProcessResponse quiet_env (NewModuleManager\<lparr>filters := [4 \<mapsto>
       \<lparr>requestFilter = None, responseFilter = Some (empty_filter\<lparr>fStatusCodes := [500]\<rparr>)\<rparr>]\<rparr>)
       engine_response m' s' = Some (True, s')"
proof -
  obtain m' s' where op: "OnRequest quiet_env (ResponseSnooper 4 2) engine_request new_state = Some (m', s', None)"
    by (simp add: ResponseSnooper_OnRequest_def)
  from response_filter_ineffective [OF op] op show ?thesis by blast
qed

text \<open>A module that fails, for instance because its client went away, keeps every module
  that comes after it in the visiting order from seeing the request: what they would have
  done plays no role, and the map order decides who is spared.\<close>

theorem failing_module_stops_the_rest:
  assumes "ProcessRequest E order rq mm s = Some (mm', s', Some err)"
  shows "ProcessRequest E (order @ later) rq mm s = Some (mm', s', Some err)"
proof -
  obtain mods where "runModules (shouldProcessRequest E mm rq) (\<lambda>m s. OnRequest E m rq s) order (modules mm) s =
      Some (mods, s', Some err)" "mm' = mm\<lparr>modules := mods\<rparr>" "IsEnabled mm"
    using assms by (auto simp: ProcessRequest_def split: if_splits)
  then show ?thesis by (simp add: ProcessRequest_def runModules_append)
qed

theorem failing_module_stops_the_rest_witness:
  "\<exists>mm' s' err. ProcessRequest (quiet_env\<lparr>writeOk := \<lambda>c f. c \<noteq> 2\<rparr>) ([1] @ [7]) engine_request
     (NewModuleManager\<lparr>modules := [1 \<mapsto> RequestCounter (NewRequestCounter 1 2),
        7 \<mapsto> RequestCounter (NewRequestCounter 7 3)]\<rparr>) new_state = Some (mm', s', Some err) \<and>
     modules mm' 7 = Some (RequestCounter (NewRequestCounter 7 3))"
proof -
  let ?E = "quiet_env\<lparr>writeOk := \<lambda>c f. c \<noteq> 2\<rparr>"
  let ?mm = "NewModuleManager\<lparr>modules := [1 \<mapsto> RequestCounter (NewRequestCounter 1 2),
        7 \<mapsto> RequestCounter (NewRequestCounter 7 3)]\<rparr> :: unit module_manager"
  obtain mm' s' err where p: "ProcessRequest ?E [1] engine_request ?mm new_state = Some (mm', s', Some err)"
    and m: "modules mm' 7 = Some (RequestCounter (NewRequestCounter 7 3))"
    by (simp add: ProcessRequest_def IsEnabled_def NewModuleManager_def shouldProcessRequest_def
        RequestCounter_OnRequest_def SendMessage_def write_frame_def report_send_def Let_def
        NewRequestCounter_def)
  from failing_module_stops_the_rest [OF p] m show ?thesis by blast
qed


definition plain_message :: ws_message where
  "plain_message = module_message 1 ''counter_event'' NoData 0"


text \<open>What a registration does on every branch: an error reply and no module, or the new
  module under the next id with the compiled filters of its configuration, listed by the
  connection, and a reply that carries the id.\<close>

theorem registration_outcomes:
  assumes "register_request_of_json (message_json (wmData msg)) = Some req"
    and "connections mm c = Some cm"
  shows "case buildModule E c (moduleCounter mm + 1) req of
      Inl err \<Rightarrow>
        modules (fst (handleModuleRegistration E c msg mm out)) = modules mm \<and>
        connections (fst (handleModuleRegistration E c msg mm out)) = connections mm \<and>
        snd (handleModuleRegistration E c msg mm out) = sendErrorResponse E c msg err out
    | Inr (m, fc) \<Rightarrow>
        module_ID m = moduleCounter mm + 1 \<and>
        modules (fst (handleModuleRegistration E c msg mm out)) =
          (modules mm)(moduleCounter mm + 1 \<mapsto> m) \<and>
        filters (fst (handleModuleRegistration E c msg mm out)) =
          (filters mm)(moduleCounter mm + 1 \<mapsto> fc) \<and>
        connections (fst (handleModuleRegistration E c msg mm out)) = (connections mm)
          (c \<mapsto> cm\<lparr>connModules := connModules cm @ [moduleCounter mm + 1]\<rparr>) \<and>
        snd (handleModuleRegistration E c msg mm out) = sendResponse E c msg (RegisterData
          \<lparr>rrSuccess = True, rrModuleID = moduleCounter mm + 1,
           rrMessage = ''Module '' @ rrqType req @ '' registered successfully''\<rparr>) out"
proof (cases "buildModule E c (moduleCounter mm + 1) req")
  case (Inl err)
  with assms show ?thesis by (simp add: handleModuleRegistration_def GenerateModuleID_def)
next
  case (Inr mf)
  obtain m fc where mf: "mf = (m, fc)" by (cases mf)
  have "module_ID m = moduleCounter mm + 1" using buildModule_facts Inr mf by blast
  with assms Inr mf show ?thesis
    by (simp add: handleModuleRegistration_def GenerateModuleID_def RegisterModule_def on_conn_def)
qed

theorem registration_outcomes_witness:
  "snd (handleModuleRegistration quiet_env 5 (unregister_message\<lparr>wmData := NoData\<rparr>)
     (connect 5 NewModuleManager) []) =
   sendErrorResponse quiet_env 5 (unregister_message\<lparr>wmData := NoData\<rparr>) ''Unknown module type: '' []"
proof -
  let ?msg = "unregister_message\<lparr>wmData := NoData\<rparr>"
  let ?req = "\<lparr>rrqType = [], rrqName = [], rrqConfig = []\<rparr>"
  have r: "register_request_of_json (message_json (wmData ?msg)) = Some ?req" by simp
  have c: "connections (connect 5 (NewModuleManager :: unit module_manager)) 5 =
      Some \<lparr>pendingRequests = Map.empty, connModules = [], closed = False\<rparr>"
    by (simp add: connect_def)
  have "buildModule quiet_env 5 i ?req = Inl ''Unknown module type: ''" for i
    by (simp add: buildModule_def newModule_def)
  with registration_outcomes [OF r c, of quiet_env "[]"] show ?thesis by simp
qed

end
