(* ===== verification/Metrics.thy ===== *)
theory Metrics
  imports Manager
begin

text \<open>
  The metrics of a call: \<open>metrics/metrics.go\<close> and \<open>collectMetrics\<close> of \<open>snooper/snooper.go\<close>.
  Registering an entry adds to counters keyed by its labels; the counters are a map from
  labels to totals. The Prometheus registry and its HTTP listener are outside.
\<close>

record metrics_entry =
  meServer :: bytes
  meScheme :: bytes
  meMethod :: bytes
  meHostname :: bytes
  meStatus :: bytes
  meURI :: bytes
  meJRPCMethod :: bytes
  meBytesSent :: int
  meBytesReceived :: int
  meDuration :: rat

definition show_int :: "int \<Rightarrow> bytes" where
  "show_int i = (if i < 0 then ''-'' @ show_nat (nat (- i)) else show_nat (nat i))"

text \<open>The parts of a URL the entry uses: host, path, raw query; of the target: host, scheme.\<close>

record url_parts =
  uHost :: bytes
  uPath :: bytes
  uRawQuery :: bytes

text \<open>\<open>jrpc_method\<close> of the call's data, if it is a string.\<close>

definition jrpc_method :: "call_ctx \<Rightarrow> bytes" where
  "jrpc_method c = (case GetData c 0 ''jrpc_method'' of Some (Any (JStr m)) \<Rightarrow> m | _ \<Rightarrow> [])"

definition CreateMetricsEntryFromContexts ::
  "bytes \<Rightarrow> bytes \<Rightarrow> (url_parts \<times> request_ctx) option \<Rightarrow> (call_ctx \<times> response_ctx) option \<Rightarrow> metrics_entry" where
  "CreateMetricsEntryFromContexts host scheme reqCtx respCtx =
     (let e0 = \<lparr>meServer = host, meScheme = scheme, meMethod = [], meHostname = [], meStatus = [], meURI = [],
                meJRPCMethod = [], meBytesSent = 0, meBytesReceived = 0, meDuration = 0\<rparr>;
          e1 = (case reqCtx of
                  None \<Rightarrow> e0
                | Some (u, rq) \<Rightarrow>
                    e0\<lparr>meMethod := rqMethod rq, meHostname := uHost u,
                       meURI := (if uRawQuery u \<noteq> [] then uPath u @ ''?'' @ uRawQuery u else uPath u),
                       meBytesReceived := int (length (rqBodyBytes rq))\<rparr>)
      in case respCtx of
           None \<Rightarrow> e1
         | Some (c, rs) \<Rightarrow>
             e1\<lparr>meJRPCMethod := jrpc_method c, meStatus := show_int (rsStatusCode rs),
                meBytesSent := int (length (rsBodyBytes rs)),
                meDuration := of_int (rsDuration rs) / 1000000000\<rparr>)"

text \<open>\<open>collectMetrics\<close> makes a request context of its own, without the body.\<close>

definition metricsRequest :: "bytes \<Rightarrow> int \<Rightarrow> request_ctx" where
  "metricsRequest meth now =
     \<lparr>rqMethod = meth, rqBody = DataBody JNull, rqBodyBytes = [], rqContentType = [], rqTimestamp = now\<rparr>"

definition collectMetrics ::
  "bytes \<Rightarrow> bytes \<Rightarrow> bytes \<Rightarrow> url_parts \<Rightarrow> int \<Rightarrow> call_ctx \<Rightarrow> response_ctx \<Rightarrow> metrics_entry" where
  "collectMetrics host scheme meth u now c respCtx =
     (let entry = CreateMetricsEntryFromContexts host scheme (Some (u, metricsRequest meth now)) (Some (c, respCtx))
      in case GetData c 0 ''jrpc_method'' of
           Some (Any (JStr m)) \<Rightarrow> entry\<lparr>meJRPCMethod := m\<rparr>
         | _ \<Rightarrow> entry)"

record counters =
  requestCount :: int
  responseSize :: int
  requestSize :: int
  durations :: "rat list"

definition entry_labels :: "metrics_entry \<Rightarrow> bytes list" where
  "entry_labels e = [meServer e, meScheme e, meMethod e, meHostname e, meStatus e, meURI e, meJRPCMethod e]"

definition no_counters :: counters where
  "no_counters = \<lparr>requestCount = 0, responseSize = 0, requestSize = 0, durations = []\<rparr>"

definition PrometheusMetricsRegister :: "metrics_entry \<Rightarrow> (bytes list \<Rightarrow> counters) \<Rightarrow> (bytes list \<Rightarrow> counters)" where
  "PrometheusMetricsRegister e m =
     (let c = m (entry_labels e)
      in m(entry_labels e :=
           \<lparr>requestCount = requestCount c + 1, responseSize = responseSize c + meBytesSent e,
            requestSize = requestSize c + meBytesReceived e, durations = durations c @ [meDuration e]\<rparr>))"

subsection \<open>Lemmas\<close>

lemma collectMetrics_fields:
  "meMethod (collectMetrics h s meth u now c rs) = meth"
  "meBytesReceived (collectMetrics h s meth u now c rs) = 0"
  "meBytesSent (collectMetrics h s meth u now c rs) = int (length (rsBodyBytes rs))"
  "meJRPCMethod (collectMetrics h s meth u now c rs) = jrpc_method c"
  by (auto simp: collectMetrics_def CreateMetricsEntryFromContexts_def metricsRequest_def jrpc_method_def Let_def
      split: option.splits call_value.splits json.splits)

text \<open>The counters after a sequence of entries.\<close>

lemma register_total:
  "requestCount (fold PrometheusMetricsRegister es m ls) =
     requestCount (m ls) + int (length (filter (\<lambda>e. entry_labels e = ls) es)) \<and>
   responseSize (fold PrometheusMetricsRegister es m ls) =
     responseSize (m ls) + sum_list (map meBytesSent (filter (\<lambda>e. entry_labels e = ls) es)) \<and>
   requestSize (fold PrometheusMetricsRegister es m ls) =
     requestSize (m ls) + sum_list (map meBytesReceived (filter (\<lambda>e. entry_labels e = ls) es))"
  by (induction es arbitrary: m) (auto simp: PrometheusMetricsRegister_def Let_def)

subsection \<open>Property\<close>

text \<open>One answered call, as the metrics see it.\<close>

type_synonym metered_call = "bytes \<times> bytes \<times> bytes \<times> url_parts \<times> int \<times> call_ctx \<times> response_ctx"

definition meter :: "metered_call \<Rightarrow> metrics_entry" where
  "meter = (\<lambda>(h, s, meth, u, now, c, rs). collectMetrics h s meth u now c rs)"

text \<open>C34: Over any sequence of calls, the request counter of a label set is the number of calls
  with these labels and the response size their bytes sent; the request size counter stays
  at zero whatever the requests carried, since the entry is made from a context without the
  body.\<close>

theorem metrics_totals:
  "requestCount (fold PrometheusMetricsRegister (map meter calls) (\<lambda>_. no_counters) ls) =
     int (length (filter (\<lambda>e. entry_labels e = ls) (map meter calls))) \<and>
   responseSize (fold PrometheusMetricsRegister (map meter calls) (\<lambda>_. no_counters) ls) =
     sum_list (map meBytesSent (filter (\<lambda>e. entry_labels e = ls) (map meter calls))) \<and>
   requestSize (fold PrometheusMetricsRegister (map meter calls) (\<lambda>_. no_counters) ls) = 0"
proof -
  have "meBytesReceived (meter x) = 0" for x
    by (cases x) (simp add: meter_def collectMetrics_fields)
  then have "sum_list (map meBytesReceived (filter (\<lambda>e. entry_labels e = ls) (map meter calls))) = 0"
    by (induction calls) auto
  with register_total [of "map meter calls" "\<lambda>_. no_counters" ls] show ?thesis
    by (simp add: no_counters_def)
qed

end
