(* ===== verification/Truncate.thy ===== *)
theory Truncate
  imports Json
begin

text \<open>
  \<open>snooper/truncate.go\<close> and \<open>formatHexBodyForLog\<close> of \<open>snooper/logging.go\<close>: shortening
  large hex values for the log. The lemmas show when a value passes unchanged, the bound
  on a truncated one, that truncating twice is truncating once, that the walk over a
  JSON tree changes string values only, and that the fast path for binary bodies prints
  what the plain one would.

  The source iterates over the runes of the first 16 bytes. A byte above 127 is part of
  a rune above 127 (or of the replacement rune), which is no hex character, so testing
  bytes gives the same answer.
\<close>

definition hexTruncateThreshold :: nat where
  "hexTruncateThreshold = 256"

definition hexTruncatePreviewLen :: nat where
  "hexTruncatePreviewLen = 32"

definition isHexChar :: "char \<Rightarrow> bool" where
  "isHexChar c \<longleftrightarrow>
     (CHR ''0'' \<le> c \<and> c \<le> CHR ''9'') \<or> (CHR ''a'' \<le> c \<and> c \<le> CHR ''f'') \<or>
     (CHR ''A'' \<le> c \<and> c \<le> CHR ''F'')"

text \<open>The verb \<open><%d bytes>\<close> of the placeholder, shared by both printers.\<close>

definition placeholder :: "bytes \<Rightarrow> bytes \<Rightarrow> nat \<Rightarrow> bytes" where
  "placeholder pre suf n = ''0x'' @ pre @ ''...'' @ suf @ '' <'' @ show_nat n @ '' bytes>''"

definition truncateHexValue :: "bytes \<Rightarrow> bytes" where
  "truncateHexValue s =
     (if length s \<le> hexTruncateThreshold then s
      else if \<not> HasPrefix s ''0x'' \<and> \<not> HasPrefix s ''0X'' then s
      else
        let check = drop 2 s;
            check = (if 16 < length check then take 16 check else check)
        in if \<not> list_all isHexChar check then s
           else
             let byteCount = (length s - 2) div 2;
                 pre = take hexTruncatePreviewLen (drop 2 s);
                 suf = drop (length s - hexTruncatePreviewLen) s
             in placeholder pre suf byteCount)"

primrec truncateHexInTree :: "json \<Rightarrow> json" where
  "truncateHexInTree JNull = JNull"
| "truncateHexInTree (JBool b) = JBool b"
| "truncateHexInTree (JNum q) = JNum q"
| "truncateHexInTree (JStr s) = JStr (truncateHexValue s)"
| "truncateHexInTree (JArr xs) = JArr (map truncateHexInTree xs)"
| "truncateHexInTree (JObj kvs) = JObj (map (map_prod id truncateHexInTree) kvs)"

definition formatHexBodyForLog :: "bool \<Rightarrow> bytes \<Rightarrow> bytes" where
  "formatHexBodyForLog logTruncationEnabled bodyData =
     (if logTruncationEnabled \<and> hexTruncateThreshold div 2 < length bodyData
      then
        let pre = hex_encode (take (hexTruncatePreviewLen div 2) bodyData);
            suf = hex_encode (drop (length bodyData - hexTruncatePreviewLen div 2) bodyData)
        in placeholder pre suf (length bodyData)
      else
        let str = ''0x'' @ hex_encode bodyData
        in if logTruncationEnabled then truncateHexValue str else str)"

subsection \<open>Single values\<close>

text \<open>What the spot check accepts: a \<open>0x\<close> or \<open>0X\<close> prefix and at most 16 hex characters.\<close>

definition looks_hex :: "bytes \<Rightarrow> bool" where
  "looks_hex s \<longleftrightarrow>
     (HasPrefix s ''0x'' \<or> HasPrefix s ''0X'') \<and> list_all isHexChar (take 16 (drop 2 s))"

lemma truncateHexValue_eq:
  "truncateHexValue s =
     (if hexTruncateThreshold < length s \<and> looks_hex s
      then placeholder (take 32 (drop 2 s)) (drop (length s - 32) s) ((length s - 2) div 2)
      else s)"
  by (auto simp: truncateHexValue_def looks_hex_def hexTruncatePreviewLen_def Let_def)

lemma length_placeholder:
  "length (placeholder pre suf n) = 14 + length pre + length suf + length (show_nat n)"
  by (simp add: placeholder_def)

lemma truncated_length:
  assumes "hexTruncateThreshold < length s" "looks_hex s"
  shows "length (truncateHexValue s) = 78 + length (show_nat ((length s - 2) div 2))"
  using assms by (simp add: truncateHexValue_eq length_placeholder hexTruncateThreshold_def)

lemma truncated_bound:
  assumes "hexTruncateThreshold < length s" "looks_hex s" "length s < 2 ^ 63"
  shows "length (truncateHexValue s) \<le> 97"
proof -
  have "(length s - 2) div 2 < 10 ^ 19"
    using assms(3) by (simp add: less_mult_imp_div_less)
  then have "length (show_nat ((length s - 2) div 2)) \<le> 19"
    by (rule length_show_nat) simp
  with assms show ?thesis by (simp add: truncated_length)
qed

lemma truncateHexValue_short: "length s \<le> hexTruncateThreshold \<Longrightarrow> truncateHexValue s = s"
  by (simp add: truncateHexValue_eq)

lemma truncateHexValue_not_hex: "\<not> looks_hex s \<Longrightarrow> truncateHexValue s = s"
  by (simp add: truncateHexValue_eq)

lemma truncateHexValue_idem:
  assumes "length s < 2 ^ 63"
  shows "truncateHexValue (truncateHexValue s) = truncateHexValue s"
proof (cases "hexTruncateThreshold < length s \<and> looks_hex s")
  case True
  then have "length (truncateHexValue s) \<le> hexTruncateThreshold"
    using truncated_bound assms by (fastforce simp: hexTruncateThreshold_def)
  then show ?thesis by (rule truncateHexValue_short)
next
  case False
  then have "truncateHexValue s = s" unfolding truncateHexValue_eq by (rule if_not_P)
  then show ?thesis by simp
qed

subsection \<open>Trees\<close>

lemma truncateHexInTree_map: "truncateHexInTree v = map_strings truncateHexValue v"
  by (induction v) auto

lemma truncateHexInTree_wf: "wf_json (truncateHexInTree v) = wf_json v"
  by (simp add: truncateHexInTree_map wf_map_strings)

lemma truncateHexInTree_strings:
  "json_strings (truncateHexInTree v) = map truncateHexValue (json_strings v)"
  by (simp add: truncateHexInTree_map json_strings_map)

lemma truncateHexInTree_idem:
  assumes "\<forall>s \<in> set (json_strings v). length s < 2 ^ 63"
  shows "truncateHexInTree (truncateHexInTree v) = truncateHexInTree v"
  unfolding truncateHexInTree_map map_strings_comp
  by (rule map_strings_cong) (use assms in \<open>simp add: truncateHexValue_idem\<close>)

subsection \<open>Binary bodies\<close>

lemma isHexChar_digit: "n < 16 \<Longrightarrow> isHexChar (digit_char n)"
  by (auto dest!: less_16_cases simp: digit_char_def digit_chars_def isHexChar_def less_eq_char_def)

lemma hex_encode_isHex: "list_all isHexChar (hex_encode bs)"
  by (induction bs) (simp_all add: hex_byte_def isHexChar_digit byte_nibbles)

lemma list_all_take: "list_all P xs \<Longrightarrow> list_all P (take n xs)"
  by (auto simp: list_all_iff dest: in_set_takeD)

lemma looks_hex_encode: "looks_hex (''0x'' @ hex_encode bs)"
  by (simp add: looks_hex_def HasPrefix_def hex_encode_isHex list_all_take)

lemma truncate_hex_encode:
  assumes "127 < length bs"
  shows "truncateHexValue (''0x'' @ hex_encode bs) =
    placeholder (hex_encode (take 16 bs)) (hex_encode (drop (length bs - 16) bs)) (length bs)"
proof -
  have "drop (length (''0x'' @ hex_encode bs) - 32) (''0x'' @ hex_encode bs) =
      drop (2 * (length bs - 16)) (hex_encode bs)"
    using assms by (simp add: drop_Cons' diff_mult_distrib2)
  moreover have "take 32 (hex_encode bs) = hex_encode (take 16 bs)"
    using hex_encode_take [of 16] by simp
  ultimately show ?thesis
    using assms looks_hex_encode [of bs]
    by (simp add: truncateHexValue_eq hexTruncateThreshold_def hex_encode_drop)
qed

lemma formatHexBodyForLog_eq:
  "formatHexBodyForLog on bs =
     (if on then truncateHexValue (''0x'' @ hex_encode bs) else ''0x'' @ hex_encode bs)"
  using truncate_hex_encode [of bs]
  by (simp add: formatHexBodyForLog_def hexTruncateThreshold_def hexTruncatePreviewLen_def)

subsection \<open>Properties\<close>

text \<open>C32: \<open>truncateHexValue\<close> changes a string only when it is longer than the threshold and looks
  like hex; the result of a change then has at most 97 bytes (for any length an \<open>int\<close> can
  hold), so it is shorter, and a second truncation changes nothing.\<close>

theorem truncateHexValue_bounded:
  assumes "length s < 2 ^ 63"
  shows "(truncateHexValue s \<noteq> s \<longrightarrow> hexTruncateThreshold < length s \<and> looks_hex s) \<and>
    (hexTruncateThreshold < length s \<and> looks_hex s \<longrightarrow>
      length (truncateHexValue s) \<le> 97 \<and> length (truncateHexValue s) < length s) \<and>
    truncateHexValue (truncateHexValue s) = truncateHexValue s"
  using truncated_bound [OF _ _ assms] truncateHexValue_idem [OF assms]
    truncateHexValue_short [of s] truncateHexValue_not_hex [of s]
  by (fastforce simp: hexTruncateThreshold_def not_less)

lemma truncateHexValue_bounded_witness:
  "length (''0x'' @ replicate 300 (CHR ''a'')) < 2 ^ 63 \<and>
   length (truncateHexValue (''0x'' @ replicate 300 (CHR ''a''))) \<le> 97"
proof -
  let ?s = "''0x'' @ replicate 300 (CHR ''a'')"
  have l: "length ?s < 2 ^ 63" by simp
  have "hexTruncateThreshold < length ?s" "looks_hex ?s"
    by (simp_all add: hexTruncateThreshold_def looks_hex_def HasPrefix_def isHexChar_def
        less_eq_char_def list_all_iff)
  with l truncateHexValue_bounded [OF l] show ?thesis by blast
qed



text \<open>C21: The fast path of \<open>formatHexBodyForLog\<close>, which encodes only the first and last 16 bytes
  of a large body, prints exactly what encoding the whole body and truncating it would.\<close>

theorem formatHexBodyForLog_fast_path:
  "formatHexBodyForLog on body =
     (if on then truncateHexValue (''0x'' @ hex_encode body) else ''0x'' @ hex_encode body)"
  by (rule formatHexBodyForLog_eq)

end
