(* ===== verification/EventStream.thy ===== *)
theory EventStream
  imports GoStrings
begin

text \<open>
  Forwarding of a server-sent event stream: \<open>processEventStreamResponse\<close> of
  \<open>snooper/proxycall.go\<close>. The upstream body is the bytes it still holds before its end or
  error; \<open>bufio.Reader\<close> has its default buffer of 4096 bytes, and \<open>ReadSlice\<close> fails with
  \<open>ErrBufferFull\<close> when the buffer is full without a newline. Whether the \<open>k\<close>-th write to the
  client succeeds and whether the call is cancelled when the \<open>k\<close>-th blank line arrives are
  parameters. The state collects the writes, the lines of the current event, the events
  handed to the log and the number of deadline updates.
\<close>

definition LF :: char where
  "LF = CHR 0x0A"

definition bufioSize :: nat where
  "bufioSize = 4096"

datatype es_stop = StreamEnd | BufferFull | WriteFailed | StreamCancelled

definition readSlice :: "bytes \<Rightarrow> (bytes \<times> bytes) + es_stop" where
  "readSlice d =
     (case Index d [LF] of
        Some i \<Rightarrow> if i < bufioSize then Inl (take (i + 1) d, drop (i + 1) d) else Inr BufferFull
      | None \<Rightarrow> if bufioSize \<le> length d then Inr BufferFull else Inr StreamEnd)"

record es_state =
  esWrites :: "bytes list"
  esLineBuf :: bytes
  esEvents :: "bytes list"
  esUpdates :: nat

definition es_init :: es_state where
  "es_init = \<lparr>esWrites = [], esLineBuf = [], esEvents = [], esUpdates = 0\<rparr>"

text \<open>What follows a blank line: the event is logged if it is longer than two bytes, and its
  lines are forgotten.\<close>

definition end_event :: "es_state \<Rightarrow> es_state" where
  "end_event s =
     (if 2 < length (esLineBuf s) then s\<lparr>esEvents := esEvents s @ [esLineBuf s], esLineBuf := []\<rparr>
      else s\<lparr>esLineBuf := []\<rparr>)"

lemma readSlice_shorter: "readSlice d = Inl (evt, rest) \<Longrightarrow> length rest < length d"
  by (auto simp: readSlice_def split: option.splits if_splits dest!: Index_char_Some)

function processEventStream ::
  "(nat \<Rightarrow> bool) \<Rightarrow> (nat \<Rightarrow> bool) \<Rightarrow> bytes \<Rightarrow> es_state \<Rightarrow> es_state \<times> es_stop" where
  "processEventStream writeOk cancelledAt d s =
     (case readSlice d of
        Inr e \<Rightarrow> (s, e)
      | Inl (evt, rest) \<Rightarrow>
          if \<not> writeOk (length (esWrites s)) then (s, WriteFailed)
          else
            let s1 = s\<lparr>esWrites := esWrites s @ [evt]\<rparr>
            in if length evt = 1
               then (let s2 = end_event s1
                     in if cancelledAt (esUpdates s2) then (s2, StreamCancelled)
                        else processEventStream writeOk cancelledAt rest
                               (s2\<lparr>esUpdates := esUpdates s2 + 1\<rparr>))
               else processEventStream writeOk cancelledAt rest
                      (s1\<lparr>esLineBuf := esLineBuf s1 @ evt @ [LF]\<rparr>))"
  by pat_completeness auto
termination by (relation "measure (\<lambda>(w, c, d, s). length d)") (auto dest: readSlice_shorter)

declare processEventStream.simps [simp del]

subsection \<open>Lemmas\<close>

text \<open>A line with its newline, short enough for the buffer.\<close>

definition es_line :: "bytes \<Rightarrow> bool" where
  "es_line l \<longleftrightarrow> (\<exists>x. l = x @ [LF] \<and> LF \<notin> set x \<and> length x < bufioSize)"

lemma readSlice_line: "es_line l \<Longrightarrow> readSlice (l @ d) = Inl (l, d)"
  by (auto simp: es_line_def readSlice_def Index_char_append)

lemma readSlice_partial: "LF \<notin> set d \<Longrightarrow> length d < bufioSize \<Longrightarrow> readSlice d = Inr StreamEnd"
  by (simp add: readSlice_def split: option.split)

lemma Index_char_nth: "Index s [c] = Some i \<Longrightarrow> i < length s \<and> s ! i = c"
  by (drule Index_char_Some) (metis length_take less_imp_le min.absorb2 nth_append_length)

lemma readSlice_overlong:
  "LF \<notin> set x \<Longrightarrow> bufioSize \<le> length x \<Longrightarrow> readSlice (x @ d) = Inr BufferFull"
proof -
  assume x: "LF \<notin> set x" "bufioSize \<le> length x"
  show ?thesis
  proof (cases "Index (x @ d) [LF]")
    case None
    with x(2) show ?thesis by (simp add: readSlice_def del: Index_char_None)
  next
    case (Some i)
    then have i: "(x @ d) ! i = LF" using Index_char_nth by blast
    have "length x \<le> i"
    proof (rule ccontr)
      assume "\<not> length x \<le> i"
      then have "(x @ d) ! i \<in> set x" by (simp add: nth_append)
      with i x(1) show False by simp
    qed
    with Some x(2) show ?thesis by (simp add: readSlice_def)
  qed
qed

text \<open>The state after forwarding whole lines without trouble.\<close>

fun forward :: "bytes list \<Rightarrow> es_state \<Rightarrow> es_state" where
  "forward [] s = s"
| "forward (l # ls) s =
     (let s1 = s\<lparr>esWrites := esWrites s @ [l]\<rparr>
      in forward ls (if length l = 1 then (end_event s1)\<lparr>esUpdates := esUpdates s1 + 1\<rparr>
                     else s1\<lparr>esLineBuf := esLineBuf s1 @ l @ [LF]\<rparr>))"

lemma end_event_fields [simp]:
  "esWrites (end_event s) = esWrites s" "esUpdates (end_event s) = esUpdates s" "esLineBuf (end_event s) = []"
  by (simp_all add: end_event_def)

lemma process_lines:
  assumes "list_all es_line ls" and "\<And>k. writeOk k" and "\<And>k. \<not> cancelledAt k"
  shows "processEventStream writeOk cancelledAt (concat ls @ d) s =
    processEventStream writeOk cancelledAt d (forward ls s)"
  using assms(1)
proof (induction ls arbitrary: s)
  case (Cons l ls)
  then have "readSlice (l @ concat ls @ d) = Inl (l, concat ls @ d)" by (simp add: readSlice_line)
  with Cons.IH Cons.prems show ?case
    by (subst processEventStream.simps) (simp add: Let_def assms(2) [of "length (esWrites s)"] assms(3) [of "esUpdates s"])
qed simp

lemma forward_writes: "esWrites (forward ls s) = esWrites s @ ls"
  by (induction ls arbitrary: s) (simp_all add: Let_def)

text \<open>Lines of one event up to its blank line.\<close>

definition double_lf :: "bytes list \<Rightarrow> bytes" where
  "double_lf ls = concat (map (\<lambda>l. l @ [LF]) ls)"

lemma forward_nonblank:
  assumes "list_all (\<lambda>l. length l \<noteq> 1) ls"
  shows "forward ls s = s\<lparr>esWrites := esWrites s @ ls, esLineBuf := esLineBuf s @ double_lf ls\<rparr>"
  using assms by (induction ls arbitrary: s) (simp_all add: double_lf_def Let_def)

lemma forward_append: "forward (xs @ ys) s = forward ys (forward xs s)"
  by (induction xs arbitrary: s) (simp_all add: Let_def)

lemma forward_event:
  assumes "list_all (\<lambda>l. length l \<noteq> 1) ls" and "ls \<noteq> []" and "list_all es_line ls" and "esLineBuf s = []"
  shows "forward (ls @ [[LF]]) s =
    s\<lparr>esWrites := esWrites s @ ls @ [[LF]], esEvents := esEvents s @ [double_lf ls], esUpdates := esUpdates s + 1\<rparr>"
proof -
  obtain l ls' where l: "ls = l # ls'" using assms(2) by (cases ls) auto
  with assms(1,3) have "2 \<le> length l" by (auto simp: es_line_def Suc_le_eq)
  then have "2 < length (double_lf ls)" by (simp add: l double_lf_def)
  then show ?thesis
    by (simp add: forward_append forward_nonblank [OF assms(1)] assms(4) end_event_def Let_def)
qed

lemma forward_events:
  assumes "list_all (\<lambda>ls. ls \<noteq> [] \<and> list_all (\<lambda>l. length l \<noteq> 1) ls \<and> list_all es_line ls) evs"
    and "esLineBuf s = []"
  shows "forward (concat (map (\<lambda>ls. ls @ [[LF]]) evs)) s =
    s\<lparr>esWrites := esWrites s @ concat (map (\<lambda>ls. ls @ [[LF]]) evs), esEvents := esEvents s @ map double_lf evs,
       esUpdates := esUpdates s + length evs\<rparr>"
  using assms
proof (induction evs arbitrary: s)
  case (Cons ls evs)
  have "forward (concat (map (\<lambda>ls. ls @ [[LF]]) (ls # evs))) s =
      forward (concat (map (\<lambda>ls. ls @ [[LF]]) evs)) (forward (ls @ [[LF]]) s)"
    by (simp only: list.map concat.simps forward_append)
  with Cons show ?case by (simp add: forward_event)
qed simp

subsection \<open>Properties\<close>

text \<open>An event: at least one line, none of them blank, each shorter than the buffer.\<close>

definition es_event :: "bytes list \<Rightarrow> bool" where
  "es_event ls \<longleftrightarrow> ls \<noteq> [] \<and> list_all (\<lambda>l. length l \<noteq> 1) ls \<and> list_all es_line ls"

definition event_lines :: "bytes list list \<Rightarrow> bytes list" where
  "event_lines evs = concat (map (\<lambda>ls. ls @ [[LF]]) evs)"

lemma es_line_LF: "es_line [LF]"
  by (simp add: es_line_def bufioSize_def)

lemma event_lines_ok: "list_all es_event evs \<Longrightarrow> list_all es_line (event_lines evs)"
  by (induction evs) (auto simp: event_lines_def es_event_def es_line_LF)

text \<open>C17: While the client takes the writes and the call is not cancelled, a stream of events is
  forwarded line by line as it came, every event is handed to the log once with its lines,
  each followed by an extra newline, and the deadline is moved once per event; a last line
  without a newline is not forwarded.\<close>

theorem events_forwarded:
  assumes "list_all es_event evs" and "LF \<notin> set tail" and "length tail < bufioSize"
    and "\<And>k. writeOk k" and "\<And>k. \<not> cancelledAt k"
  shows "processEventStream writeOk cancelledAt (concat (event_lines evs) @ tail) es_init =
    (\<lparr>esWrites = event_lines evs, esLineBuf = [], esEvents = map double_lf evs, esUpdates = length evs\<rparr>,
     StreamEnd)"
proof -
  have "forward (event_lines evs) es_init =
      \<lparr>esWrites = event_lines evs, esLineBuf = [], esEvents = map double_lf evs, esUpdates = length evs\<rparr>"
    using forward_events [of evs es_init] assms(1)
    by (simp add: event_lines_def es_init_def es_event_def [abs_def])
  then show ?thesis
    by (subst process_lines [OF event_lines_ok [OF assms(1)] assms(4,5)])
       (simp add: processEventStream.simps readSlice_partial [OF assms(2,3)])
qed

theorem events_forwarded_witness:
  "processEventStream (\<lambda>_. True) (\<lambda>_. False)
     (concat (event_lines [[''event: head'' @ [LF], ''data: 1'' @ [LF]], [''data: 2'' @ [LF]]]) @ ''data'') es_init =
   (\<lparr>esWrites = [''event: head'' @ [LF], ''data: 1'' @ [LF], [LF], ''data: 2'' @ [LF], [LF]], esLineBuf = [],
     esEvents = [''event: head'' @ [LF, LF] @ ''data: 1'' @ [LF, LF], ''data: 2'' @ [LF, LF]], esUpdates = 2\<rparr>,
    StreamEnd)"
proof -
  let ?evs = "[[''event: head'' @ [LF], ''data: 1'' @ [LF]], [''data: 2'' @ [LF]]]"
  have "es_line (x @ [LF])" if "x \<in> {''event: head'', ''data: 1'', ''data: 2''}" for x
    using that by (auto simp: es_line_def bufioSize_def LF_def)
  from this [of "''event: head''"] this [of "''data: 1''"] this [of "''data: 2''"]
  have "list_all es_event ?evs" by (simp add: es_event_def)
  moreover have "LF \<notin> set ''data''" by (simp add: LF_def)
  ultimately show ?thesis
    by (subst events_forwarded) (simp_all add: event_lines_def double_lf_def bufioSize_def)
qed

text \<open>A line of 4096 bytes or more ends the stream: the lines before it are forwarded, and
  nothing of it or of what follows.\<close>

theorem overlong_line_ends_stream:
  assumes "list_all es_line ls" and "LF \<notin> set x" and "bufioSize \<le> length x"
    and "\<And>k. writeOk k" and "\<And>k. \<not> cancelledAt k"
  shows "esWrites (fst (processEventStream writeOk cancelledAt (concat ls @ x @ later) es_init)) = ls \<and>
    snd (processEventStream writeOk cancelledAt (concat ls @ x @ later) es_init) = BufferFull"
  by (simp add: process_lines [OF assms(1,4,5)] processEventStream.simps [of _ _ "x @ later"]
      readSlice_overlong [OF assms(2,3)] forward_writes es_init_def)

theorem overlong_line_ends_stream_witness:
  "snd (processEventStream (\<lambda>_. True) (\<lambda>_. False)
     (concat [''data: 1'' @ [LF], [LF]] @ replicate 4096 CHR ''x'' @ [LF]) es_init) = BufferFull"
proof -
  have "list_all es_line [''data: 1'' @ [LF], [LF]]"
    by (auto simp: es_line_def bufioSize_def LF_def)
  moreover have "LF \<notin> set (replicate 4096 CHR ''x'')" by (simp add: LF_def)
  ultimately show ?thesis
    by (rule overlong_line_ends_stream [THEN conjunct2]) (simp_all add: bufioSize_def)
qed

text \<open>C37: Only a line that is a newline and nothing else ends an event. A stream whose lines end
  in a carriage return and newline, which the event stream format allows, is forwarded but
  never logged and never moves the deadline, so it is cut off after the first timeout.\<close>

theorem crlf_stream_never_reports:
  assumes "list_all es_line ls" and "list_all (\<lambda>l. suffix [CHR 0x0D, LF] l) ls"
    and "LF \<notin> set tail" and "length tail < bufioSize" and "\<And>k. writeOk k" and "\<And>k. \<not> cancelledAt k"
  shows "case processEventStream writeOk cancelledAt (concat ls @ tail) es_init of (s, stop) \<Rightarrow>
    stop = StreamEnd \<and> esWrites s = ls \<and> esEvents s = [] \<and> esUpdates s = 0"
proof -
  have "list_all (\<lambda>l. length l \<noteq> 1) ls"
    using assms(2) by (auto simp: list_all_iff suffix_def)
  from forward_nonblank [OF this, of es_init] show ?thesis
    by (simp add: process_lines [OF assms(1,5,6)] processEventStream.simps [of _ _ tail]
        readSlice_partial [OF assms(3,4)] es_init_def)
qed

theorem crlf_stream_never_reports_witness:
  "case processEventStream (\<lambda>_. True) (\<lambda>_. False)
      (concat [''data: 1'' @ [CHR 0x0D, LF], [CHR 0x0D, LF]] @ []) es_init of (s, stop) \<Rightarrow>
    stop = StreamEnd \<and> esWrites s = [''data: 1'' @ [CHR 0x0D, LF], [CHR 0x0D, LF]] \<and> esEvents s = [] \<and>
    esUpdates s = 0"
proof -
  have "es_line (''data: 1'' @ [CHR 0x0D, LF])"
    unfolding es_line_def by (intro exI [of _ "''data: 1'' @ [CHR 0x0D]"]) (simp add: LF_def bufioSize_def)
  moreover have "es_line [CHR 0x0D, LF]"
    unfolding es_line_def by (intro exI [of _ "[CHR 0x0D]"]) (simp add: LF_def bufioSize_def)
  ultimately have ok: "list_all es_line [''data: 1'' @ [CHR 0x0D, LF], [CHR 0x0D, LF]]" by simp
  have cr: "list_all (\<lambda>l. suffix [CHR 0x0D, LF] l) [''data: 1'' @ [CHR 0x0D, LF], [CHR 0x0D, LF]]"
    by (simp add: suffix_def)
  have t: "LF \<notin> set []" "length ([] :: bytes) < bufioSize" by (simp_all add: bufioSize_def)
  show ?thesis by (rule crlf_stream_never_reports [OF ok cr t]) simp_all
qed

end
