(* ===== verification/FlowApi.thy ===== *)
theory FlowApi
  imports Http "HOL-Library.AList"
begin

text \<open>
  Flow control: \<open>snooper/api.go\<close> and the gate at the head of \<open>processProxyCall\<close>. The state
  is the pair of fields guarded by \<open>flowMutex\<close>; each handler is one critical section and
  the response it writes. The map \<open>flowBlocked\<close> is an association list in the order the
  gate's loop happens to visit it; the lemmas show that this order does not matter.
\<close>

record flow =
  flowEnabled :: bool
  flowBlocked :: "(bytes \<times> bool) list"

definition initial_flow :: flow where
  "initial_flow = \<lparr>flowEnabled = True, flowBlocked = []\<rparr>"

subsection \<open>Handlers\<close>

definition json_reply :: "int \<Rightarrow> (bytes \<times> json) list \<Rightarrow> rw \<Rightarrow> rw" where
  "json_reply code body w =
     rw_write (Json (JObj body))
       (WriteHeader code (on_header (header_set content_type application_json) w))"

definition handleStart :: "flow \<Rightarrow> http_request \<Rightarrow> rw \<Rightarrow> flow \<times> rw" where
  "handleStart f r w =
     (f\<lparr>flowEnabled := True\<rparr>,
      json_reply 200 [(''status'', JStr ''success''), (''message'', JStr ''Flow started''),
        (''enabled'', JBool True)] w)"

definition handleStop :: "flow \<Rightarrow> http_request \<Rightarrow> rw \<Rightarrow> flow \<times> rw" where
  "handleStop f r w =
     (f\<lparr>flowEnabled := False\<rparr>,
      json_reply 200 [(''status'', JStr ''success''), (''message'', JStr ''Flow stopped''),
        (''enabled'', JBool False)] w)"

definition bad_request :: "rw \<Rightarrow> rw" where
  "bad_request w = WriteHeader 400 (on_header (header_set content_type application_json) w)"

definition handleBlock :: "flow \<Rightarrow> http_request \<Rightarrow> rw \<Rightarrow> flow \<times> rw" where
  "handleBlock f r w =
     (let route = query_get r ''route''
      in if route = '''' then (f, bad_request w)
         else (f\<lparr>flowBlocked := AList.update route True (flowBlocked f)\<rparr>,
               json_reply 200 [(''status'', JStr ''success''), (''message'', JStr ''Flow blocked'')] w))"

definition handleUnblock :: "flow \<Rightarrow> http_request \<Rightarrow> rw \<Rightarrow> flow \<times> rw" where
  "handleUnblock f r w =
     (let route = query_get r ''route''
      in if route = '''' then (f, bad_request w)
         else (f\<lparr>flowBlocked := AList.delete route (flowBlocked f)\<rparr>,
               json_reply 200 [(''status'', JStr ''success''), (''message'', JStr ''Flow unblocked'')] w))"

definition handleStatus :: "flow \<Rightarrow> http_request \<Rightarrow> rw \<Rightarrow> flow \<times> rw" where
  "handleStatus f r w =
     (f, json_reply 200 [(''status'', JStr ''success''), (''enabled'', JBool (flowEnabled f)),
        (''message'', JStr (if flowEnabled f then ''Flow is enabled'' else ''Flow is disabled''))] w)"

text \<open>The routes of \<open>initRouter\<close>, tried in the order of registration; \<open>None\<close> as the method
  stands for a route without a \<open>Methods\<close> matcher. What no route takes goes to the default
  mux of the process.\<close>

datatype api_target = WebSocketControl | ApiStart | ApiStop | ApiStatus | ApiBlock | ApiUnblock | DefaultMux

definition api_routes :: "(bytes \<times> bytes option \<times> api_target) list" where
  "api_routes =
     [(''/_snooper/control'', None, WebSocketControl),
      (''/_snooper/start'', Some ''POST'', ApiStart),
      (''/_snooper/stop'', Some ''POST'', ApiStop),
      (''/_snooper/status'', Some ''GET'', ApiStatus),
      (''/_snooper/block'', Some ''GET'', ApiBlock),
      (''/_snooper/unblock'', Some ''GET'', ApiUnblock)]"

definition api_route :: "http_request \<Rightarrow> api_target" where
  "api_route r =
     (case find (\<lambda>(path, meth, _). rPath r = path \<and> (meth = None \<or> meth = Some (rMethod r))) api_routes of
        Some (_, _, target) \<Rightarrow> target
      | None \<Rightarrow> DefaultMux)"

fun api_handler :: "api_target \<Rightarrow> (flow \<Rightarrow> http_request \<Rightarrow> rw \<Rightarrow> flow \<times> rw) option" where
  "api_handler ApiStart = Some handleStart"
| "api_handler ApiStop = Some handleStop"
| "api_handler ApiStatus = Some handleStatus"
| "api_handler ApiBlock = Some handleBlock"
| "api_handler ApiUnblock = Some handleUnblock"
| "api_handler WebSocketControl = None"
| "api_handler DefaultMux = None"

text \<open>The effect of one API request on the flow state.\<close>

definition api_step :: "flow \<Rightarrow> http_request \<Rightarrow> flow" where
  "api_step f r = (case api_handler (api_route r) of None \<Rightarrow> f | Some h \<Rightarrow> fst (h f r rw_new))"

subsection \<open>The gate\<close>

fun scanBlocked :: "bytes \<Rightarrow> (bytes \<times> bool) list \<Rightarrow> bool \<Rightarrow> bool" where
  "scanBlocked path [] acc = acc"
| "scanBlocked path ((p, blocked) # rest) acc =
     scanBlocked path rest (if HasPrefix path p then acc \<or> blocked else acc)"

text \<open>\<open>Some\<close> of the response when the request is turned away, \<open>None\<close> when it goes on to the
  proxy.\<close>

definition flowGate :: "flow \<Rightarrow> http_request \<Rightarrow> rw \<Rightarrow> rw option" where
  "flowGate f r w =
     (let enabled = flowEnabled f; blocked = scanBlocked (rPath r) (flowBlocked f) False
      in if \<not> enabled \<or> blocked
         then
           let reason = (if blocked then ''Proxy flow is currently blocked''
                         else ''Proxy flow is currently disabled'')
           in Some (json_reply 503 [(''status'', JStr ''error''), (''message'', JStr reason)] w)
         else None)"

subsection \<open>Lemmas\<close>

lemma scanBlocked_iff:
  "scanBlocked path bs acc \<longleftrightarrow> acc \<or> (\<exists>p. (p, True) \<in> set bs \<and> HasPrefix path p)"
  by (induction path bs acc rule: scanBlocked.induct) auto

definition wf_flow :: "flow \<Rightarrow> bool" where
  "wf_flow f \<longleftrightarrow> distinct (map fst (flowBlocked f)) \<and> (\<forall>e \<in> set (flowBlocked f). snd e)"

definition blockedRoutes :: "flow \<Rightarrow> bytes set" where
  "blockedRoutes f = fst ` set (flowBlocked f)"

lemma wf_initial_flow: "wf_flow initial_flow"
  by (simp add: wf_flow_def initial_flow_def)

lemma snd_update: "e \<in> set (AList.update k True xs) \<Longrightarrow> e = (k, True) \<or> e \<in> set xs"
  by (induction xs) (auto split: if_splits)

lemma snd_delete: "e \<in> set (AList.delete k xs) \<Longrightarrow> e \<in> set xs"
  by (auto simp: AList.delete_eq)

lemma keys_update: "fst ` set (AList.update k v xs) = insert k (fst ` set xs)"
  by (induction xs) auto

lemma keys_delete: "fst ` set (AList.delete k xs) = fst ` set xs - {k}"
  by (auto simp: AList.delete_eq image_iff)

lemma blocked_iff:
  assumes "wf_flow f"
  shows "scanBlocked path (flowBlocked f) False \<longleftrightarrow> (\<exists>p \<in> blockedRoutes f. HasPrefix path p)"
proof -
  have "(p, True) \<in> set (flowBlocked f) \<longleftrightarrow> p \<in> blockedRoutes f" for p
    using assms by (force simp: wf_flow_def blockedRoutes_def)
  then show ?thesis by (auto simp: scanBlocked_iff)
qed

lemma handler_wf:
  assumes "api_handler t = Some h" and "wf_flow f"
  shows "wf_flow (fst (h f r w))"
  using assms
  by (cases t)
     (auto simp: wf_flow_def handleStart_def handleStop_def handleStatus_def handleBlock_def
       handleUnblock_def Let_def distinct_update distinct_delete dest: snd_update snd_delete)

lemma api_step_wf: "wf_flow f \<Longrightarrow> wf_flow (api_step f r)"
  by (auto simp: api_step_def handler_wf split: option.split)

subsection \<open>The contract: switch and blocked set\<close>

text \<open>What an operator asked for, seen abstractly: a switch and a set of blocked routes.\<close>

fun spec_step :: "bool \<times> bytes set \<Rightarrow> api_target \<Rightarrow> bytes \<Rightarrow> bool \<times> bytes set" where
  "spec_step (on, bs) ApiStart route = (True, bs)"
| "spec_step (on, bs) ApiStop route = (False, bs)"
| "spec_step (on, bs) ApiBlock route = (on, if route = '''' then bs else insert route bs)"
| "spec_step (on, bs) ApiUnblock route = (on, bs - {route})"
| "spec_step (on, bs) _ route = (on, bs)"

definition flow_abs :: "flow \<Rightarrow> bool \<times> bytes set" where
  "flow_abs f = (flowEnabled f, blockedRoutes f)"

definition no_empty_route :: "flow \<Rightarrow> bool" where
  "no_empty_route f \<longleftrightarrow> '''' \<notin> blockedRoutes f"

lemma api_step_no_empty: "no_empty_route f \<Longrightarrow> no_empty_route (api_step f r)"
  by (cases "api_route r")
     (auto simp: api_step_def no_empty_route_def blockedRoutes_def handleStart_def handleStop_def
       handleStatus_def handleBlock_def handleUnblock_def Let_def keys_update keys_delete)

lemma api_step_abs:
  assumes "no_empty_route f"
  shows "flow_abs (api_step f r) = spec_step (flow_abs f) (api_route r) (query_get r ''route'')"
  using assms
  by (cases "api_route r")
     (auto simp: api_step_def flow_abs_def no_empty_route_def blockedRoutes_def handleStart_def
       handleStop_def handleStatus_def handleBlock_def handleUnblock_def Let_def keys_update keys_delete)

lemma api_run_abs:
  assumes "no_empty_route f"
  shows "flow_abs (foldl api_step f rs) =
    foldl (\<lambda>a r. spec_step a (api_route r) (query_get r ''route'')) (flow_abs f) rs"
  using assms
  by (induction rs arbitrary: f) (simp_all add: api_step_abs api_step_no_empty)

lemma api_run_wf: "wf_flow f \<Longrightarrow> wf_flow (foldl api_step f rs)"
  by (induction rs arbitrary: f) (simp_all add: api_step_wf)

lemma gate_none:
  assumes "wf_flow f"
  shows "flowGate f r w = None \<longleftrightarrow>
    flowEnabled f \<and> \<not> (\<exists>p \<in> blockedRoutes f. HasPrefix (rPath r) p)"
  using blocked_iff [OF assms, of "rPath r"] by (auto simp: flowGate_def Let_def)

lemma json_reply_facts:
  "status_of (json_reply code body rw_new) = Some code"
  "sent_header (json_reply code body rw_new) content_type = application_json"
  "written (json_reply code body rw_new) = [Json (JObj body)]"
  by (simp_all add: json_reply_def status_of_def sent_header_def)

lemma bad_request_facts:
  "status_of (bad_request rw_new) = Some 400" "written (bad_request rw_new) = []"
  by (simp_all add: bad_request_def status_of_def)

lemma abs_initial: "flow_abs initial_flow = (True, {})" "no_empty_route initial_flow"
  by (simp_all add: flow_abs_def initial_flow_def blockedRoutes_def no_empty_route_def)

subsection \<open>Properties\<close>

text \<open>C16: After any sequence of API requests, a proxied request passes the gate exactly when
  the last of start and stop was not stop and no route blocked since and not unblocked is
  a prefix of its path. The order in which the blocked map is visited plays no role.\<close>

theorem gate_follows_history:
  "flowGate (foldl api_step initial_flow qs) r w = None \<longleftrightarrow>
     (case foldl (\<lambda>a q. spec_step a (api_route q) (query_get q ''route'')) (True, {}) qs of
        (on, routes) \<Rightarrow> on \<and> \<not> (\<exists>p \<in> routes. HasPrefix (rPath r) p))"
proof -
  let ?f = "foldl api_step initial_flow qs"
  have "flow_abs ?f = foldl (\<lambda>a q. spec_step a (api_route q) (query_get q ''route'')) (True, {}) qs"
    using api_run_abs [OF abs_initial(2)] by (simp add: abs_initial)
  moreover have "wf_flow ?f" by (rule api_run_wf [OF wf_initial_flow])
  ultimately show ?thesis by (auto simp: gate_none flow_abs_def)
qed

text \<open>A request the gate turns away gets status 503 and a JSON body with the reason,
  with the content type sent, and blocked takes precedence over disabled.\<close>

theorem gate_rejection_reply:
  assumes "flowGate f r rw_new = Some w"
  shows "status_of w = Some 503 \<and> sent_header w ''Content-Type'' = ''application/json'' \<and>
    written w = [Json (JObj [(''status'', JStr ''error''), (''message'', JStr
      (if scanBlocked (rPath r) (flowBlocked f) False then ''Proxy flow is currently blocked''
       else ''Proxy flow is currently disabled''))])]"
  using assms json_reply_facts by (auto simp: flowGate_def Let_def split: if_splits)

text \<open>A plain request, for the examples.\<close>

definition plain_request :: "bytes \<Rightarrow> bytes \<Rightarrow> (bytes \<rightharpoonup> bytes list) \<Rightarrow> http_request" where
  "plain_request meth path query =
     \<lparr>rMethod = meth, rURLHost = [], rPath = path, rEscapedPath = path, rRawQuery = [],
      rQuery = query, rHeader = [], rRemoteAddr = ''10.0.0.1:5'', rContentLength = 0, rClose = False\<rparr>"

theorem gate_rejection_reply_witness:
  "\<exists>w. flowGate (api_step initial_flow (plain_request ''GET'' ''/_snooper/block'' [''route'' \<mapsto> [''/eth'']]))
       (plain_request ''POST'' ''/eth/v1'' Map.empty) rw_new = Some w \<and> status_of w = Some 503"
proof -
  let ?f = "api_step initial_flow (plain_request ''GET'' ''/_snooper/block'' [''route'' \<mapsto> [''/eth'']])"
  let ?r = "plain_request ''POST'' ''/eth/v1'' Map.empty"
  have f: "?f = \<lparr>flowEnabled = True, flowBlocked = [(''/eth'', True)]\<rparr>"
    by (simp add: api_step_def api_route_def api_routes_def plain_request_def handleBlock_def
        query_get_def initial_flow_def)
  have "flowGate ?f ?r rw_new \<noteq> None"
    unfolding f by (simp add: flowGate_def plain_request_def Let_def)
  then obtain w where "flowGate ?f ?r rw_new = Some w" by blast
  with gate_rejection_reply show ?thesis by blast
qed

text \<open>Every API handler answers in JSON with status 200 and reports the state it leaves:
  start and stop the new value of the switch, status the current one; block and unblock
  without a route answer 400 with an empty body and change nothing.\<close>

theorem api_replies:
  assumes "api_handler t = Some h"
  shows "if t \<in> {ApiBlock, ApiUnblock} \<and> query_get r ''route'' = []
    then fst (h f r rw_new) = f \<and> status_of (snd (h f r rw_new)) = Some 400 \<and>
         written (snd (h f r rw_new)) = []
    else status_of (snd (h f r rw_new)) = Some 200 \<and>
         sent_header (snd (h f r rw_new)) ''Content-Type'' = ''application/json'' \<and>
         (\<exists>body. written (snd (h f r rw_new)) = [Json (JObj body)] \<and>
            map_of body ''status'' = Some (JStr ''success'') \<and>
            (t \<in> {ApiBlock, ApiUnblock} \<or>
             map_of body ''enabled'' = Some (JBool (flowEnabled (fst (h f r rw_new))))))"
  using assms
  by (cases t)
     (auto simp: handleStart_def handleStop_def handleStatus_def handleBlock_def handleUnblock_def
       json_reply_facts bad_request_facts Let_def)

theorem api_replies_witness:
  "status_of (snd (handleStop initial_flow (plain_request ''POST'' ''/_snooper/stop'' Map.empty) rw_new)) =
     Some 200"
  using api_replies [of ApiStop handleStop "plain_request ''POST'' ''/_snooper/stop'' Map.empty" initial_flow]
  by simp

end
