(* ===== verification/Logging.thy ===== *)
theory Logging
  imports Metrics Truncate EventStream FlowApi
begin

text \<open>
  What is logged and what modules see: the log functions of \<open>snooper/logging.go\<close> from the
  point where their turn has come (the ordering is in \<open>LogOrder\<close>). Compression and JSON
  printing are parameters; \<open>printJSON\<close> gives \<open>None\<close> where \<open>json.MarshalIndent\<close> fails. A log
  record is the list of its fields. The operations return the module manager, the world and
  the record, \<open>None\<close> when a body that does not decompress keeps the call from being logged,
  and do not return at all (the outer \<open>None\<close>) when a module's query never ends.
\<close>

datatype log_value = LogStr bytes | LogInt int | LogRaw bytes | LogColor bytes

type_synonym log_fields = "(bytes \<times> log_value) list"

record log_config =
  logTruncationEnabled :: bool
  hideBodies :: bool
  metricsEnabled :: bool
  targetHost :: bytes
  targetScheme :: bytes

record codec =
  gunzip :: "bytes \<Rightarrow> bytes option"
  unbrotli :: "bytes \<Rightarrow> bytes"
  printJSON :: "json \<Rightarrow> bytes option"

subsection \<open>Bodies\<close>

definition decompressBody :: "codec \<Rightarrow> bytes \<Rightarrow> bytes \<Rightarrow> bytes option" where
  "decompressBody C data contentEncoding =
     (if contentEncoding = ''gzip'' then gunzip C data
      else if contentEncoding = ''br'' then Some (unbrotli C data)
      else Some data)"

definition beautifyJSON :: "('q, 'm) env \<Rightarrow> codec \<Rightarrow> bytes \<Rightarrow> bytes" where
  "beautifyJSON E C bd =
     (case unmarshal E bd of
        None \<Rightarrow> []
      | Some obj \<Rightarrow> (case printJSON C obj of None \<Rightarrow> [] | Some res \<Rightarrow> res))"

definition beautifyJSONForLog :: "('q, 'm) env \<Rightarrow> codec \<Rightarrow> bool \<Rightarrow> bytes \<Rightarrow> bytes" where
  "beautifyJSONForLog E C truncation bd =
     (if \<not> truncation then beautifyJSON E C bd
      else case unmarshal E bd of
             None \<Rightarrow> []
           | Some obj \<Rightarrow> (case printJSON C (truncateHexInTree obj) of
                            None \<Rightarrow> beautifyJSON E C bd
                          | Some res \<Rightarrow> res))"

text \<open>The switch of \<open>logRequest\<close> and \<open>logResponse\<close>: the fields about the body, the body modules
  are given, and the parsed data (\<open>JNull\<close> for Go's nil).\<close>

definition bodySwitch ::
  "('q, 'm) env \<Rightarrow> codec \<Rightarrow> log_config \<Rightarrow> int \<Rightarrow> bytes \<Rightarrow> bytes \<Rightarrow> log_fields \<times> bytes \<times> json" where
  "bodySwitch E C cfg contentLength contentType bodyData =
     (if contentLength = 0 then ([], [], JNull)
      else if Contains contentType ''application/octet-stream''
      then ((if hideBodies cfg then []
             else [(''type'', LogStr ''ssz''),
                   (''body'', LogStr (formatHexBodyForLog (logTruncationEnabled cfg) bodyData))]),
            hex_encode bodyData, JNull)
      else ((if hideBodies cfg then []
             else
               let beautified = beautifyJSONForLog E C (logTruncationEnabled cfg) bodyData
               in if 0 < length beautified then [(''type'', LogStr ''json''), (''body'', LogStr beautified)]
                  else [(''type'', LogStr ''unknown''),
                        (''body'', LogStr (formatHexBodyForLog (logTruncationEnabled cfg) bodyData))]),
            bodyData, (case unmarshal E bodyData of None \<Rightarrow> JNull | Some v \<Rightarrow> v)))"

text \<open>The JSON-RPC methods of a batch.\<close>

definition batchMethods :: "json list \<Rightarrow> bytes list" where
  "batchMethods items =
     List.map_filter (\<lambda>item. case as_obj item of None \<Rightarrow> None | Some obj \<Rightarrow> str_field obj ''method'') items"

fun methodFields :: "json \<Rightarrow> log_fields" where
  "methodFields (JObj kvs) =
     (case str_field kvs ''method'' of None \<Rightarrow> [] | Some m \<Rightarrow> [(''method'', LogStr m)])"
| "methodFields (JArr items) =
     (let methods = batchMethods items
      in if 0 < length methods then [(''methods'', LogStr (Join methods '', ''))] else [])"
| "methodFields _ = []"

fun storeMethod :: "log_config \<Rightarrow> json \<Rightarrow> call_ctx \<Rightarrow> call_ctx" where
  "storeMethod cfg (JObj kvs) c =
     (case str_field kvs ''method'' of
        None \<Rightarrow> c
      | Some m \<Rightarrow> if metricsEnabled cfg then SetData c 0 ''jrpc_method'' (Any (JStr m)) else c)"
| "storeMethod cfg _ c = c"

definition bodyForModules :: "json \<Rightarrow> bytes \<Rightarrow> body" where
  "bodyForModules parsedData bodyData = (if parsedData \<noteq> JNull then DataBody parsedData else RawBody bodyData)"

subsection \<open>Requests\<close>

definition processRequestModules ::
  "('q, 'm) env \<Rightarrow> u64 list \<Rightarrow> bytes \<Rightarrow> bytes \<Rightarrow> json \<Rightarrow> bytes \<Rightarrow> 'q module_manager \<Rightarrow> 'm mod_state \<Rightarrow>
   ('q module_manager \<times> 'm mod_state) option" where
  "processRequestModules E order meth bodyData parsedData contentType mm s =
     (if \<not> IsEnabled mm then Some (mm, s)
      else
        let reqCtx = \<lparr>rqMethod = meth, rqBody = bodyForModules parsedData bodyData, rqBodyBytes = bodyData,
                      rqContentType = contentType, rqTimestamp = clock E\<rparr>
        in map_option (\<lambda>(mm', s', err). (mm', s')) (ProcessRequest E order reqCtx mm s))"

definition logRequest ::
  "('q, 'm) env \<Rightarrow> codec \<Rightarrow> log_config \<Rightarrow> u64 list \<Rightarrow> http_request \<Rightarrow> bytes \<Rightarrow> 'q module_manager \<Rightarrow> 'm mod_state \<Rightarrow>
   ('q module_manager \<times> 'm mod_state \<times> log_fields option) option" where
  "logRequest E C cfg order req bodyBytes mm s =
     (case decompressBody C bodyBytes (req_header_get req ''Content-Encoding'') of
        None \<Rightarrow> Some (mm, s, None)
      | Some bodyData0 \<Rightarrow>
          let contentType = req_header_get req ''Content-Type'';
              (fields, bodyData, parsedData) =
                bodySwitch E C cfg (rContentLength req) contentType bodyData0;
              c1 = SetData (callCtx s) 0 ''request_size'' (IntVal (int (length bodyData)));
              s1 = s\<lparr>callCtx := storeMethod cfg parsedData c1\<rparr>
          in map_option
               (\<lambda>(mm', s'). (mm', s', Some ([(''color'', LogColor ''cyan''), (''length'', LogInt (rContentLength req))] @
                  fields @ methodFields parsedData)))
               (processRequestModules E order (rMethod req) bodyData parsedData contentType mm s1))"

subsection \<open>Responses\<close>

text \<open>The parts of an upstream response the log uses.\<close>

record http_response =
  hrStatusCode :: int
  hrHeader :: header
  hrContentLength :: int

definition request_url :: "http_request \<Rightarrow> url_parts" where
  "request_url r = \<lparr>uHost = rURLHost r, uPath = rPath r, uRawQuery = rRawQuery r\<rparr>"

definition processResponseModules ::
  "('q, 'm) env \<Rightarrow> log_config \<Rightarrow> u64 list \<Rightarrow> http_request \<Rightarrow> http_response \<Rightarrow> bytes \<Rightarrow> json \<Rightarrow> bytes \<Rightarrow>
   'q module_manager \<Rightarrow> 'm mod_state \<Rightarrow> ('q module_manager \<times> 'm mod_state \<times> metrics_entry list) option" where
  "processResponseModules E cfg order req rsp bodyData parsedData contentType mm s =
     (if \<not> IsEnabled mm then Some (mm, s, [])
      else
        let respCtx = \<lparr>rsStatusCode = hrStatusCode rsp, rsBody = bodyForModules parsedData bodyData,
                       rsBodyBytes = bodyData, rsContentType = contentType, rsTimestamp = clock E,
                       rsDuration = CallDuration (callCtx s)\<rparr>
        in map_option
             (\<lambda>(mm', s', err). (mm', s',
                if metricsEnabled cfg
                then [collectMetrics (targetHost cfg) (targetScheme cfg) (rMethod req) (request_url req) (clock E)
                        (callCtx s') respCtx]
                else []))
             (ProcessResponse E order respCtx mm s))"

definition logResponse ::
  "('q, 'm) env \<Rightarrow> codec \<Rightarrow> log_config \<Rightarrow> u64 list \<Rightarrow> http_request \<Rightarrow> http_response \<Rightarrow> bytes \<Rightarrow>
   'q module_manager \<Rightarrow> 'm mod_state \<Rightarrow>
   ('q module_manager \<times> 'm mod_state \<times> metrics_entry list \<times> log_fields option) option" where
  "logResponse E C cfg order req rsp bodyBytes mm s =
     (case decompressBody C bodyBytes (header_get (hrHeader rsp) ''Content-Encoding'') of
        None \<Rightarrow> Some (mm, s, [], None)
      | Some bodyData0 \<Rightarrow>
          let contentType = header_get (hrHeader rsp) ''Content-Type'';
              color = (if 200 \<le> hrStatusCode rsp \<and> hrStatusCode rsp \<le> 299 then ''green'' else ''red'');
              (fields, bodyData, parsedData) =
                bodySwitch E C cfg (hrContentLength rsp) contentType bodyData0;
              d = CallDuration (callCtx s);
              durationField = (if 0 < d then [(''duration_ms'', LogInt (milliseconds d))] else [])
          in map_option
               (\<lambda>(mm', s', es). (mm', s', es,
                  Some ([(''status'', LogInt (hrStatusCode rsp)), (''length'', LogInt (hrContentLength rsp)),
                         (''color'', LogColor color)] @ fields @ durationField)))
               (processResponseModules E cfg order req rsp bodyData parsedData contentType mm s))"

subsection \<open>Events\<close>

definition trimLine :: "bytes \<Rightarrow> bytes" where
  "trimLine l =
     (let cut = (\<lambda>c. c = CHR 0x0D \<or> c = LF \<or> c = CHR '' '')
      in rev (dropWhile cut (rev (dropWhile cut l))))"

text \<open>One line of an event: its effect on the map \<open>evt\<close>, an association list. A \<open>data\<close> line must
  hold an object, or \<open>null\<close>, which Go decodes to a nil map, here the empty object.\<close>

fun data_object :: "json \<Rightarrow> (bytes \<times> json) list option" where
  "data_object (JObj kvs) = Some kvs"
| "data_object JNull = Some []"
| "data_object _ = None"

definition eventLine :: "('q, 'm) env \<Rightarrow> bytes \<Rightarrow> (bytes \<times> json) list \<Rightarrow> (bytes \<times> json) list" where
  "eventLine E line0 evt =
     (let line = trimLine line0
      in if line = [] then evt
         else case Index line '':'' of
                None \<Rightarrow> evt
              | Some sep \<Rightarrow>
                  if sep = 0 then evt
                  else if take sep line = ''data''
                  then (case unmarshal E (drop (sep + 1) line) of
                          None \<Rightarrow> evt
                        | Some v \<Rightarrow> (case data_object v of
                                       None \<Rightarrow> evt
                                     | Some kvs \<Rightarrow> AList.update (take sep line) (JObj kvs) evt))
                  else AList.update (take sep line) (JStr (drop (sep + 1) line)) evt)"

definition parseEvent :: "('q, 'm) env \<Rightarrow> bytes \<Rightarrow> (bytes \<times> json) list" where
  "parseEvent E bd = fold (eventLine E) (Split bd [LF]) []"

definition processEventModules ::
  "('q, 'm) env \<Rightarrow> u64 list \<Rightarrow> int \<Rightarrow> bytes \<Rightarrow> json \<Rightarrow> 'q module_manager \<Rightarrow> 'm mod_state \<Rightarrow>
   ('q module_manager \<times> 'm mod_state) option" where
  "processEventModules E order status bodyData parsedData mm s =
     (if \<not> IsEnabled mm then Some (mm, s)
      else
        let respCtx = \<lparr>rsStatusCode = status, rsBody = bodyForModules parsedData bodyData, rsBodyBytes = [],
                       rsContentType = ''text/event-stream'', rsTimestamp = clock E, rsDuration = 0\<rparr>
        in map_option (\<lambda>(mm', s', err). (mm', s')) (ProcessResponse E order respCtx mm s))"

text \<open>\<open>marshalled\<close> is \<open>json.Marshal\<close> of the event map.\<close>

definition logEventResponse ::
  "('q, 'm) env \<Rightarrow> codec \<Rightarrow> log_config \<Rightarrow> (json \<Rightarrow> bytes option) \<Rightarrow> u64 list \<Rightarrow> int \<Rightarrow> bytes \<Rightarrow>
   'q module_manager \<Rightarrow> 'm mod_state \<Rightarrow> ('q module_manager \<times> 'm mod_state \<times> log_fields) option" where
  "logEventResponse E C cfg marshalled order status bd mm s =
     (let evt = parseEvent E bd;
          (fields, parsedEventData) =
            (if 2 \<le> length evt
             then (case marshalled (JObj evt) of
                     None \<Rightarrow> ([], JNull)
                   | Some bodyJSON \<Rightarrow>
                       ((if hideBodies cfg then []
                         else [(''body'', LogStr (beautifyJSONForLog E C (logTruncationEnabled cfg) bodyJSON))]),
                        JObj evt))
             else (if hideBodies cfg then [] else [(''body'', LogRaw bd)], JNull))
      in map_option (\<lambda>(mm', s'). (mm', s', [(''color'', LogColor ''green'')] @ fields))
           (processEventModules E order status bd parsedEventData mm s))"

subsection \<open>Lemmas\<close>

lemma bodySwitch_view: "snd (bodySwitch E C cfg n ct d) = snd (bodySwitch E C cfg' n ct d)"
  by (simp add: bodySwitch_def Let_def)

lemma storeMethod_view: "metricsEnabled cfg = metricsEnabled cfg' \<Longrightarrow> storeMethod cfg v c = storeMethod cfg' v c"
  by (cases v) (simp_all split: option.split)

text \<open>The part of a call that is not display.\<close>

lemma logRequest_view:
  assumes "metricsEnabled cfg = metricsEnabled cfg'"
  shows "map_option (\<lambda>(mm', s', f). (mm', s', f \<noteq> None)) (logRequest E C cfg order req bd mm s) =
    map_option (\<lambda>(mm', s', f). (mm', s', f \<noteq> None)) (logRequest E C cfg' order req bd mm s)"
proof (cases "decompressBody C bd (req_header_get req ''Content-Encoding'')")
  case None
  then show ?thesis by (simp add: logRequest_def)
next
  case (Some d)
  let ?ct = "req_header_get req ''Content-Type''" and ?n = "rContentLength req"
  obtain f b v f' where sw: "bodySwitch E C cfg ?n ?ct d = (f, b, v)" "bodySwitch E C cfg' ?n ?ct d = (f', b, v)"
    using bodySwitch_view [of E C cfg ?n ?ct d cfg']
    by (metis prod.exhaust_sel snd_conv)
  show ?thesis
    by (simp add: logRequest_def Some sw storeMethod_view [OF assms] option.map_comp comp_def split_def)
qed

lemma logResponse_view:
  assumes "metricsEnabled cfg = metricsEnabled cfg'" "targetHost cfg = targetHost cfg'"
    "targetScheme cfg = targetScheme cfg'"
  shows "map_option (\<lambda>(mm', s', es, f). (mm', s', es, f \<noteq> None)) (logResponse E C cfg order req rsp bd mm s) =
    map_option (\<lambda>(mm', s', es, f). (mm', s', es, f \<noteq> None)) (logResponse E C cfg' order req rsp bd mm s)"
proof (cases "decompressBody C bd (header_get (hrHeader rsp) ''Content-Encoding'')")
  case None
  then show ?thesis by (simp add: logResponse_def)
next
  case (Some d)
  let ?ct = "header_get (hrHeader rsp) ''Content-Type''" and ?n = "hrContentLength rsp"
  obtain f b v f' where sw: "bodySwitch E C cfg ?n ?ct d = (f, b, v)" "bodySwitch E C cfg' ?n ?ct d = (f', b, v)"
    using bodySwitch_view [of E C cfg ?n ?ct d cfg']
    by (metis prod.exhaust_sel snd_conv)
  have "processResponseModules E cfg order req rsp b v ?ct mm s =
      processResponseModules E cfg' order req rsp b v ?ct mm s"
    unfolding processResponseModules_def assms ..
  then show ?thesis
    by (simp add: logResponse_def Some sw option.map_comp comp_def split_def Let_def)
qed

text \<open>Events.\<close>

lemma eventLine_Nil [simp]: "eventLine E [] evt = evt"
  by (simp add: eventLine_def trimLine_def)

lemma Split_double_lf:
  assumes "list_all es_line ls"
  shows "splitAux [LF] [] (double_lf ls) = concat (map (\<lambda>l. [butlast l, []]) ls) @ [[]]"
  using assms
proof (induction ls)
  case Nil
  then show ?case by (simp add: double_lf_def)
next
  case (Cons l ls)
  then obtain x where x: "l = x @ [LF]" "LF \<notin> set x" by (auto simp: es_line_def)
  have d: "double_lf (l # ls) = x @ LF # [] @ LF # double_lf ls" by (simp add: double_lf_def x)
  show ?case
    unfolding d using x Cons by (simp add: splitAux_char_append)
qed

lemma parseEvent_double_lf:
  assumes "list_all es_line ls"
  shows "parseEvent E (double_lf ls) = fold (eventLine E) (map butlast ls) []"
proof -
  have "fold (eventLine E) (concat (map (\<lambda>l. [butlast l, []]) ls) @ [[]]) acc =
      fold (eventLine E) (map butlast ls) acc" for acc
    by (induction ls arbitrary: acc) simp_all
  then show ?thesis by (simp add: parseEvent_def Split_def Split_double_lf [OF assms])
qed

lemma Split_lines: "list_all es_line ls \<Longrightarrow> splitAux [LF] [] (concat ls) = map butlast ls @ [[]]"
  by (induction ls) (auto simp: es_line_def splitAux_char_append)

lemma parseEvent_lines: "list_all es_line ls \<Longrightarrow> parseEvent E (concat ls) = fold (eventLine E) (map butlast ls) []"
  by (simp add: parseEvent_def Split_def Split_lines)

text \<open>What modules write while an event is processed.\<close>

lemma runModules_rel:
  assumes "runModules should oper order mods s = Some (mods', s', e)"
    and refl: "\<And>s. R s s" and trans: "\<And>a b c. R a b \<Longrightarrow> R b c \<Longrightarrow> R a c"
    and should: "\<And>m s b s'. should m s = Some (b, s') \<Longrightarrow> R s s'"
    and oper: "\<And>m s m' s' e. oper m s = Some (m', s', e) \<Longrightarrow> R s s'"
  shows "R s s'"
  using assms(1)
proof (induction order arbitrary: mods s)
  case Nil
  then show ?case by (simp add: refl)
next
  case (Cons i order)
  from Cons.prems show ?case
  proof (cases rule: runModules_ConsE)
    case absent
    then show ?thesis by (blast intro: Cons.IH)
  next
    case (skipped m s1)
    then show ?thesis by (blast intro: Cons.IH trans should)
  next
    case (failed m s1 m' err)
    then show ?thesis by (blast intro: trans should oper)
  next
    case (ran m s1 m' s2)
    then show ?thesis by (blast intro: Cons.IH trans should oper)
  qed
qed

definition wrote :: "(nat \<times> frame \<Rightarrow> bool) \<Rightarrow> 'm mod_state \<Rightarrow> 'm mod_state \<Rightarrow> bool" where
  "wrote P s s' \<longleftrightarrow> (\<exists>fs. outbox s' = outbox s @ fs \<and> list_all P fs)"

lemma wrote_refl: "wrote P s s"
  by (simp add: wrote_def)

lemma wrote_trans: "wrote P a b \<Longrightarrow> wrote P b c \<Longrightarrow> wrote P a c"
  by (auto simp: wrote_def)

fun bodiless :: "nat \<times> frame \<Rightarrow> bool" where
  "bodiless (c, BinaryFrame b) = (b = [])"
| "bodiless (c, JsonFrame m) = True"

lemma wrote_effects: "wrote P s (s\<lparr>effects := es\<rparr>)"
  by (simp add: wrote_def)

lemma write_frame_wrote: "P (c, f) \<Longrightarrow> wrote P s (fst (write_frame E c f s))"
  by (auto simp: write_frame_def wrote_def)

lemma SendMessage_bodiless: "wrote bodiless s (fst (SendMessage E c msg s))"
  by (simp add: SendMessage_def write_frame_wrote)

lemma SendMessageWithBinary_bodiless: "wrote bodiless s (fst (SendMessageWithBinary E c msg [] s))"
proof -
  obtain s1 ok where w: "write_frame E c (JsonFrame (msg\<lparr>wmBinary := True\<rparr>)) s = (s1, ok)"
    by (cases "write_frame E c (JsonFrame (msg\<lparr>wmBinary := True\<rparr>)) s")
  have "wrote bodiless s s1" using write_frame_wrote [of bodiless c _ s E] by (metis bodiless.simps(2) fst_conv w)
  moreover have "wrote bodiless s1 (fst (write_frame E c (BinaryFrame []) s1))"
    by (simp add: write_frame_wrote)
  ultimately show ?thesis by (auto simp: SendMessageWithBinary_def w intro: wrote_trans)
qed

lemma OnResponse_bodiless:
  assumes "OnResponse E m rs s = Some (m', s', e)" "rsBodyBytes rs = []"
  shows "wrote bodiless s s'"
  using assms
  by (cases m)
     (auto simp: wrote_refl ResponseSnooper_OnResponse_def ResponseTracer_OnResponse_def report_send_def
       Xatu_OnResponse_def wrote_effects split_def Let_def
       intro: SendMessage_bodiless SendMessageWithBinary_bodiless
       split: option.splits call_value.splits)

lemma shouldProcessResponse_keeps: "shouldProcessResponse E mm ctx m s = Some (b, s') \<Longrightarrow> s' = s"
  by (auto simp: shouldProcessResponse_def split: if_splits option.splits)

lemma ProcessResponse_bodiless:
  assumes "ProcessResponse E order rs mm s = Some (mm', s', e)" "rsBodyBytes rs = []"
  shows "wrote bodiless s s'"
proof (cases "IsEnabled mm")
  case True
  with assms(1) obtain mods where
    run: "runModules (shouldProcessResponse E mm rs) (\<lambda>m s. OnResponse E m rs s) order (modules mm) s =
      Some (mods, s', e)"
    by (auto simp: ProcessResponse_def)
  show ?thesis
    by (rule runModules_rel [OF run, where R = "wrote bodiless"])
       (auto intro: wrote_refl wrote_trans OnResponse_bodiless [OF _ assms(2)] dest: shouldProcessResponse_keeps)
qed (use assms in \<open>auto simp: ProcessResponse_def wrote_refl\<close>)

lemma processEventModules_bodiless:
  assumes "processEventModules E order status bd v mm s = Some (mm', s')"
  shows "wrote bodiless s s'"
  using assms
  by (auto simp: processEventModules_def Let_def wrote_refl split: if_splits
      intro: ProcessResponse_bodiless)

subsection \<open>Properties\<close>

text \<open>C20: Log truncation and hiding bodies change the log records only: under two configurations
  that agree on the metrics flag and the target, a request leaves the same modules, the same
  call data, connections and published events behind, and a response besides the same metrics
  entries; the same calls are logged.\<close>

theorem display_flags_invisible:
  assumes "metricsEnabled cfg = metricsEnabled cfg'" "targetHost cfg = targetHost cfg'"
    "targetScheme cfg = targetScheme cfg'"
  shows "map_option (\<lambda>(mm', s', f). (mm', s', f \<noteq> None)) (logRequest E C cfg order req bd mm s) =
      map_option (\<lambda>(mm', s', f). (mm', s', f \<noteq> None)) (logRequest E C cfg' order req bd mm s) \<and>
    map_option (\<lambda>(mm', s', es, f). (mm', s', es, f \<noteq> None)) (logResponse E C cfg order req rsp bd' mm s) =
      map_option (\<lambda>(mm', s', es, f). (mm', s', es, f \<noteq> None)) (logResponse E C cfg' order req rsp bd' mm s)"
  using logRequest_view [OF assms(1)] logResponse_view [OF assms] by blast

definition plain_cfg :: log_config where
  "plain_cfg = \<lparr>logTruncationEnabled = False, hideBodies = False, metricsEnabled = True, targetHost = ''h'',
     targetScheme = ''http''\<rparr>"

definition plain_codec :: codec where
  "plain_codec = \<lparr>gunzip = \<lambda>_. None, unbrotli = \<lambda>d. d, printJSON = \<lambda>_. None\<rparr>"

theorem display_flags_invisible_witness:
  "map_option (\<lambda>(mm', s', es, f). (mm', s', es, f \<noteq> None))
     (logResponse quiet_env plain_codec plain_cfg [] (plain_request ''GET'' ''/a'' Map.empty)
        \<lparr>hrStatusCode = 200, hrHeader = Map.empty, hrContentLength = 1\<rparr> ''x'' NewModuleManager new_state) =
   map_option (\<lambda>(mm', s', es, f). (mm', s', es, f \<noteq> None))
     (logResponse quiet_env plain_codec (plain_cfg\<lparr>logTruncationEnabled := True, hideBodies := True\<rparr>) []
        (plain_request ''GET'' ''/a'' Map.empty)
        \<lparr>hrStatusCode = 200, hrHeader = Map.empty, hrContentLength = 1\<rparr> ''x'' NewModuleManager new_state)"
  using display_flags_invisible [of plain_cfg "plain_cfg\<lparr>logTruncationEnabled := True, hideBodies := True\<rparr>"
      quiet_env plain_codec "[]" "plain_request ''GET'' ''/a'' Map.empty" "''x''" NewModuleManager new_state
      "\<lparr>hrStatusCode = 200, hrHeader = Map.empty, hrContentLength = 1\<rparr>" "''x''"]
  by simp

definition no_body :: "log_fields \<Rightarrow> bool" where
  "no_body fs \<longleftrightarrow> ''body'' \<notin> set (map fst fs) \<and> ''type'' \<notin> set (map fst fs)"

text \<open>C30: With bodies hidden, no log record of a request, a response or an event has a body or a
  body type field.\<close>

theorem hidden_bodies_stay_hidden:
  assumes "hideBodies cfg"
  shows "pred_option (\<lambda>(_, _, f). pred_option no_body f) (logRequest E C cfg order req bd mm s) \<and>
    pred_option (\<lambda>(_, _, _, f). pred_option no_body f) (logResponse E C cfg order req rsp bd' mm s) \<and>
    pred_option (\<lambda>(_, _, f). no_body f) (logEventResponse E C cfg marshalled order status ev mm s)"
proof (intro conjI)
  have sw: "fst (bodySwitch E C cfg n ct d) = []" for n ct d by (simp add: bodySwitch_def assms)
  have m: "no_body (methodFields v)" for v
    by (cases v) (auto simp: no_body_def Let_def split: option.splits)
  have c: "no_body (a @ b) \<longleftrightarrow> no_body a \<and> no_body b" "no_body [] = True" for a b
    by (auto simp: no_body_def)
  have k: "no_body (x # b) \<longleftrightarrow> fst x \<noteq> ''body'' \<and> fst x \<noteq> ''type'' \<and> no_body b" for x b
    by (auto simp: no_body_def)
  show "pred_option (\<lambda>(_, _, f). pred_option no_body f) (logRequest E C cfg order req bd mm s)"
    by (simp add: logRequest_def Let_def split_def sw m k comp_def pred_option_def option.set_map split: option.split)
  show "pred_option (\<lambda>(_, _, _, f). pred_option no_body f) (logResponse E C cfg order req rsp bd' mm s)"
    by (simp add: logResponse_def Let_def split_def sw k c comp_def pred_option_def option.set_map split: option.split)
  show "pred_option (\<lambda>(_, _, f). no_body f) (logEventResponse E C cfg marshalled order status ev mm s)"
    by (simp add: logEventResponse_def Let_def split_def assms k c comp_def pred_option_def option.set_map split: option.split)
qed

theorem hidden_bodies_stay_hidden_witness:
  "pred_option (\<lambda>(_, _, f). pred_option no_body f) (logRequest quiet_env plain_codec
      (plain_cfg\<lparr>hideBodies := True\<rparr>) [] (plain_request ''GET'' ''/a'' Map.empty) ''x'' NewModuleManager new_state) \<and>
   pred_option (\<lambda>(_, _, f). no_body f) (logEventResponse quiet_env plain_codec (plain_cfg\<lparr>hideBodies := True\<rparr>)
     (\<lambda>_. None) [] 200 ''id:7'' NewModuleManager new_state)"
  using hidden_bodies_stay_hidden [of "plain_cfg\<lparr>hideBodies := True\<rparr>" quiet_env plain_codec "[]"
      "plain_request ''GET'' ''/a'' Map.empty" "''x''"
      NewModuleManager new_state "\<lparr>hrStatusCode = 200, hrHeader = Map.empty, hrContentLength = 1\<rparr>" "[]"
      "\<lambda>_. None" 200 "''id:7''"]
  by simp

text \<open>The event a stream reports with each line feed doubled is parsed like the lines as they
  came: parsing the doubled text processes exactly the lines, in order.\<close>

theorem doubled_event_parses_alike:
  assumes "list_all es_line ls"
  shows "parseEvent E (double_lf ls) = parseEvent E (concat ls)"
  using assms by (simp add: parseEvent_double_lf parseEvent_lines)

theorem doubled_event_parses_alike_witness:
  "parseEvent quiet_env (double_lf [''id:7'' @ [LF], ''event:x'' @ [LF]]) =
     parseEvent quiet_env (concat [''id:7'' @ [LF], ''event:x'' @ [LF]])"
  by (rule doubled_event_parses_alike) (simp add: es_line_def LF_def bufioSize_def)

text \<open>A module's view of a server-sent event has no body bytes: every binary message that
  modules send while an event is processed is empty, whatever the event holds.\<close>

theorem event_bodies_are_empty:
  assumes "logEventResponse E C cfg marshalled order status bd mm s = Some (mm', s', fs)"
  shows "\<exists>frames. outbox s' = outbox s @ frames \<and> list_all bodiless frames"
proof -
  obtain v where "processEventModules E order status bd v mm s = Some (mm', s')"
    using assms by (auto simp: logEventResponse_def split_def Let_def)
  then have "wrote bodiless s s'" by (rule processEventModules_bodiless)
  then show ?thesis by (simp add: wrote_def)
qed

theorem event_bodies_are_empty_witness:
  "\<exists>mm' s' fs frames. logEventResponse quiet_env plain_codec plain_cfg (\<lambda>_. None) [4] 200 []
      (NewModuleManager\<lparr>modules := [4 \<mapsto> ResponseSnooper 4 2]\<rparr>) new_state = Some (mm', s', fs) \<and>
    2 = length (outbox s') \<and> outbox s' = outbox new_state @ frames \<and> list_all bodiless frames"
proof -
  let ?mm = "NewModuleManager\<lparr>modules := [4 \<mapsto> ResponseSnooper 4 2]\<rparr>"
  have p: "parseEvent quiet_env [] = []" by (simp add: parseEvent_def Split_def)
  have f: "shouldProcessResponse quiet_env ?mm ctx (ResponseSnooper 4 2) new_state = Some (True, new_state)" for ctx
    by (simp add: shouldProcessResponse_def NewModuleManager_def GetData_def new_state_def newProxyCallContext_def)
  have o: "map_option (\<lambda>(m, s, e). (length (outbox s), e))
      (ResponseSnooper_OnResponse quiet_env 4 2 ctx new_state) = Some (2, None)" for ctx
    by (simp add: ResponseSnooper_OnResponse_def report_send_def SendMessageWithBinary_def write_frame_def
        quiet_env_def new_state_def)
  have m: "modules ?mm 4 = Some (ResponseSnooper 4 2)" "IsEnabled ?mm"
    by (simp_all add: NewModuleManager_def IsEnabled_def)
  obtain mm' s' fs where r: "logEventResponse quiet_env plain_codec plain_cfg (\<lambda>_. None) [4] 200 [] ?mm new_state =
      Some (mm', s', fs)" "length (outbox s') = 2"
  proof -
    let ?rs = "\<lparr>rsStatusCode = 200, rsBody = RawBody [], rsBodyBytes = [], rsContentType = ''text/event-stream'',
      rsTimestamp = clock quiet_env, rsDuration = 0\<rparr>"
    obtain m' s' where o': "ResponseSnooper_OnResponse quiet_env 4 2 ?rs new_state = Some (m', s', None)"
      "length (outbox s') = 2"
      using o [of ?rs] by auto
    show thesis
      by (rule that [of _ s'])
         (simp_all add: logEventResponse_def p processEventModules_def ProcessResponse_def m f o' bodyForModules_def)
  qed
  with event_bodies_are_empty [OF r(1)] show ?thesis by auto
qed

end
