(* ===== verification/ProxyCall.thy ===== *)
theory ProxyCall
  imports FlowApi EventStream
begin

text \<open>
  One proxied call from the client's point of view: \<open>processProxyCall\<close> of
  \<open>snooper/proxycall.go\<close> and \<open>ServeHTTP\<close> of \<open>snooper/snooper.go\<close>. What the network does is a
  parameter: whether the target URL parses, what the upstream answers to the request it is
  sent, whether the call was cancelled meanwhile, how the client takes writes. The tee
  streams that feed the log are in \<open>TeeLog\<close>; they leave the bytes alone.
\<close>

record proxy_request =
  prMethod :: bytes
  prURL :: bytes
  prHeader :: header
  prContentLength :: int
  prClose :: bool

text \<open>An upstream response; \<open>usBody\<close> is what can be read of its body, and \<open>usBodyOk\<close> says
  whether the body then ends or fails.\<close>

record upstream =
  usStatus :: int
  usHeader :: header_list
  usBody :: bytes
  usBodyOk :: bool

record network =
  parseOk :: "bytes \<Rightarrow> bool"
  roundTrip :: "proxy_request \<Rightarrow> upstream option"
  cancelledAfter :: bool
  streamWriteOk :: "nat \<Rightarrow> bool"
  streamCancelled :: "nat \<Rightarrow> bool"
  failText :: bytes

subsection \<open>The request to the origin\<close>

definition proxyIPChain :: "http_request \<Rightarrow> bytes list" where
  "proxyIPChain r =
     (let forwardedFor = req_header_get r ''X-Forwarded-For''
      in (if forwardedFor \<noteq> [] then Split forwardedFor '', '' else []) @ [rRemoteAddr r])"

definition proxyHeader :: "http_request \<Rightarrow> header" where
  "proxyHeader r =
     (let hh = copy_header (rHeader r) Map.empty
      in header_set ''X-Forwarded-For'' (Join (proxyIPChain r) '', '') hh)"

definition proxyURL :: "bytes \<Rightarrow> http_request \<Rightarrow> bytes" where
  "proxyURL target r =
     (let queryArgs = (if rRawQuery r \<noteq> [] then ''?'' @ rRawQuery r else [])
      in target @ rEscapedPath r @ queryArgs)"

definition proxyRequest :: "bytes \<Rightarrow> http_request \<Rightarrow> proxy_request" where
  "proxyRequest target r =
     \<lparr>prMethod = rMethod r, prURL = proxyURL target r, prHeader = proxyHeader r,
      prContentLength = rContentLength r, prClose = rClose r\<rparr>"

subsection \<open>The response to the client\<close>

definition isEventStream :: "http_request \<Rightarrow> upstream \<Rightarrow> bool" where
  "isEventStream r us \<longleftrightarrow>
     header_get (map_of (usHeader us)) ''Content-Type'' = ''text/event-stream'' \<or>
     HasPrefix (rEscapedPath r) ''/eth/v1/events''"

definition passHeaders :: "upstream \<Rightarrow> rw \<Rightarrow> rw" where
  "passHeaders us w = on_header (copy_header (usHeader us)) w"

definition writeRaw :: "bytes \<Rightarrow> rw \<Rightarrow> rw" where
  "writeRaw d w = (if d = [] then w else rw_write (Raw d) w)"

definition respond :: "network \<Rightarrow> http_request \<Rightarrow> upstream \<Rightarrow> rw \<Rightarrow> rw \<times> bytes option" where
  "respond N r us w =
     (let stream = isEventStream r us;
          w1 = (if stream
                then WriteHeader (usStatus us)
                       (on_header (header_set ''X-Accel-Buffering'' ''no'') (passHeaders us w))
                else w)
      in if stream \<and> usStatus us = 200
         then (fold (\<lambda>l. rw_write (Raw l))
                 (esWrites (fst (processEventStream (streamWriteOk N) (streamCancelled N) (usBody us) es_init))) w1,
               None)
         else (let w2 = WriteHeader (usStatus us) (passHeaders us w1);
                   w3 = writeRaw (usBody us) w2
               in (w3, if usBodyOk us then None else Some (''proxy response stream error: '' @ failText N))))"

definition processProxyCall ::
  "flow \<Rightarrow> bytes \<Rightarrow> network \<Rightarrow> http_request \<Rightarrow> rw \<Rightarrow> rw \<times> bytes option" where
  "processProxyCall f target N r w =
     (case flowGate f r w of
        Some w' \<Rightarrow> (w', None)
      | None \<Rightarrow>
          if \<not> parseOk N (proxyURL target r)
          then (w, Some (''error parsing proxy url: '' @ failText N))
          else (case roundTrip N (proxyRequest target r) of
                  None \<Rightarrow> (w, Some (''proxy request error: '' @ failText N))
                | Some us \<Rightarrow>
                    if cancelledAfter N then (w, Some ''proxy context cancelled'')
                    else respond N r us w))"

definition error_reply :: "bytes \<Rightarrow> rw \<Rightarrow> rw" where
  "error_reply err w =
     rw_write (Json (JObj [(''status'', JStr ''error''), (''message'', JStr err)]))
       (on_header (header_set content_type application_json) (WriteHeader 500 w))"

definition ServeHTTP :: "flow \<Rightarrow> bytes \<Rightarrow> network \<Rightarrow> http_request \<Rightarrow> rw \<Rightarrow> rw" where
  "ServeHTTP f target N r w =
     (case processProxyCall f target N r w of
        (w', None) \<Rightarrow> w'
      | (w', Some err) \<Rightarrow> error_reply err w')"

subsection \<open>Lemmas\<close>

lemma copy_header_fresh: "wf_header_list kvs \<Longrightarrow> copy_header kvs Map.empty = map_of kvs"
  by (rule ext) (simp add: copy_header_map_of split: option.split)

lemma chain_value:
  "Join (proxyIPChain r) '', '' =
    (if req_header_get r ''X-Forwarded-For'' = [] then rRemoteAddr r
     else req_header_get r ''X-Forwarded-For'' @ '', '' @ rRemoteAddr r)"
  by (simp add: proxyIPChain_def Let_def Join_snoc Join_Split)

lemma passHeaders_new: "wf_header_list (usHeader us) \<Longrightarrow> passHeaders us rw_new = rw_new\<lparr>live := map_of (usHeader us)\<rparr>"
  by (simp add: passHeaders_def on_header_def rw_new_def copy_header_fresh)

lemma fold_writes:
  "sent w = Some h \<Longrightarrow> sent (fold (\<lambda>l. rw_write (Raw l)) ls w) = Some h \<and>
     written (fold (\<lambda>l. rw_write (Raw l)) ls w) = written w @ map Raw ls"
  by (induction ls arbitrary: w) simp_all

text \<open>The call gets past the gate and the upstream answers.\<close>

definition answered :: "flow \<Rightarrow> bytes \<Rightarrow> network \<Rightarrow> http_request \<Rightarrow> upstream \<Rightarrow> bool" where
  "answered f target N r us \<longleftrightarrow>
     flowGate f r rw_new = None \<and> parseOk N (proxyURL target r) \<and>
     roundTrip N (proxyRequest target r) = Some us \<and> \<not> cancelledAfter N \<and> wf_header_list (usHeader us)"

lemma ServeHTTP_answered:
  "answered f target N r us \<Longrightarrow> ServeHTTP f target N r rw_new =
     (case respond N r us rw_new of (w', None) \<Rightarrow> w' | (w', Some err) \<Rightarrow> error_reply err w')"
  by (simp add: ServeHTTP_def processProxyCall_def answered_def)

lemma respond_plain:
  assumes "wf_header_list (usHeader us)" and "\<not> isEventStream r us"
  shows "respond N r us rw_new =
    (writeRaw (usBody us) (WriteHeader (usStatus us) (rw_new\<lparr>live := map_of (usHeader us)\<rparr>)),
     if usBodyOk us then None else Some (''proxy response stream error: '' @ failText N))"
  using assms by (simp add: respond_def passHeaders_new)

subsection \<open>Properties\<close>

text \<open>C6: An ordinary call is transparent: the client gets the upstream's status, exactly its
  header fields with all their values, and its body, and nothing else.\<close>

theorem proxy_is_transparent:
  assumes "answered f target N r us" and "\<not> isEventStream r us" and "usBodyOk us"
  shows "sent (ServeHTTP f target N r rw_new) = Some (usStatus us, map_of (usHeader us)) \<and>
    written (ServeHTTP f target N r rw_new) = (if usBody us = [] then [] else [Raw (usBody us)])"
proof -
  have "wf_header_list (usHeader us)" using assms(1) by (simp add: answered_def)
  with assms show ?thesis
    by (simp add: ServeHTTP_answered respond_plain writeRaw_def)
qed

text \<open>A call and a network for the examples.\<close>

definition sample_get :: http_request where
  "sample_get = (plain_request ''GET'' ''/a'' Map.empty)\<lparr>rHeader := [(''Accept'', [''x''])]\<rparr>"

definition sample_network :: "upstream \<Rightarrow> network" where
  "sample_network us =
     \<lparr>parseOk = (\<lambda>_. True), roundTrip = (\<lambda>_. Some us), cancelledAfter = False,
      streamWriteOk = (\<lambda>_. True), streamCancelled = (\<lambda>_. False), failText = ''eof''\<rparr>"

definition sample_answer :: upstream where
  "sample_answer = \<lparr>usStatus = 404, usHeader = [(''Content-Type'', [''text/plain''])], usBody = ''no'', usBodyOk = True\<rparr>"

lemma sample_answered:
  "answered initial_flow t (sample_network sample_answer) sample_get sample_answer"
  "answered initial_flow t (sample_network (sample_answer\<lparr>usBodyOk := False\<rparr>)) sample_get
     (sample_answer\<lparr>usBodyOk := False\<rparr>)"
  by (simp_all add: answered_def flowGate_def initial_flow_def sample_network_def sample_answer_def
      wf_header_list_def Let_def)

lemma sample_plain: "\<not> isEventStream sample_get (sample_answer\<lparr>usBodyOk := b\<rparr>)"
  by (simp add: isEventStream_def sample_get_def sample_answer_def plain_request_def header_get_def)

theorem proxy_is_transparent_witness:
  "sent (ServeHTTP initial_flow ''http://up'' (sample_network sample_answer) sample_get rw_new) =
     Some (404, [''Content-Type'' \<mapsto> [''text/plain'']]) \<and>
   written (ServeHTTP initial_flow ''http://up'' (sample_network sample_answer) sample_get rw_new) = [Raw ''no'']"
  using proxy_is_transparent [OF sample_answered(1), of "''http://up''"] sample_plain [of True]
  by (simp add: sample_answer_def)

text \<open>C25: The request the origin sees has the client's method, length, path and query under the
  target, and every header field of the client unchanged except \<open>X-Forwarded-For\<close>, which is
  the client's first value of it followed by the client's address.\<close>

theorem proxied_request:
  assumes "wf_header_list (rHeader r)"
  shows "proxyRequest target r =
    \<lparr>prMethod = rMethod r,
     prURL = target @ rEscapedPath r @ (if rRawQuery r = [] then [] else ''?'' @ rRawQuery r),
     prHeader = (map_of (rHeader r))(''X-Forwarded-For'' \<mapsto>
       [(if req_header_get r ''X-Forwarded-For'' = [] then [] else req_header_get r ''X-Forwarded-For'' @ '', '') @
        rRemoteAddr r]),
     prContentLength = rContentLength r, prClose = rClose r\<rparr>"
  by (simp add: proxyRequest_def proxyURL_def proxyHeader_def header_set_def copy_header_fresh [OF assms]
      chain_value Let_def)

theorem proxied_request_witness:
  "prHeader (proxyRequest ''http://up'' sample_get) =
     [''Accept'' \<mapsto> [''x''], ''X-Forwarded-For'' \<mapsto> [''10.0.0.1:5'']]"
proof -
  have wf: "wf_header_list (rHeader sample_get)"
    by (simp add: sample_get_def wf_header_list_def canonicalKey_def is_token_char_def lower_letters_def
        upper_letters_def to_upper_def to_lower_def)
  show ?thesis
    by (subst proxied_request [OF wf]) (simp add: sample_get_def plain_request_def req_header_get_def header_get_def)
qed

text \<open>When the upstream body breaks off, the client has already been told the upstream's
  status and header; it gets the beginning of the body with a JSON error object appended to
  it, and nothing marks the response as failed.\<close>

theorem broken_body_gets_error_appended:
  assumes "answered f target N r us" and "\<not> isEventStream r us" and "\<not> usBodyOk us" and "usBody us \<noteq> []"
  shows "sent (ServeHTTP f target N r rw_new) = Some (usStatus us, map_of (usHeader us)) \<and>
    written (ServeHTTP f target N r rw_new) =
      [Raw (usBody us), Json (JObj [(''status'', JStr ''error''),
        (''message'', JStr (''proxy response stream error: '' @ failText N))])]"
proof -
  have "wf_header_list (usHeader us)" using assms(1) by (simp add: answered_def)
  with assms show ?thesis
    by (simp add: ServeHTTP_answered respond_plain writeRaw_def error_reply_def)
qed

theorem broken_body_gets_error_appended_witness:
  "written (ServeHTTP initial_flow ''http://up'' (sample_network (sample_answer\<lparr>usBodyOk := False\<rparr>)) sample_get rw_new) =
     [Raw ''no'', Json (JObj [(''status'', JStr ''error''),
        (''message'', JStr ''proxy response stream error: eof'')])]"
  using broken_body_gets_error_appended [OF sample_answered(2) sample_plain, of "''http://up''"]
  by (simp add: sample_answer_def sample_network_def)

text \<open>A call that fails before the upstream has answered ends with status 500 and a JSON
  error, whose content type is set too late to be sent.\<close>

theorem early_failure_reply:
  assumes "processProxyCall f target N r rw_new = (rw_new, Some err)"
  shows "status_of (ServeHTTP f target N r rw_new) = Some 500 \<and>
    sent_header (ServeHTTP f target N r rw_new) ''Content-Type'' = [] \<and>
    written (ServeHTTP f target N r rw_new) =
      [Json (JObj [(''status'', JStr ''error''), (''message'', JStr err)])]"
  using assms by (simp add: ServeHTTP_def error_reply_def status_of_def sent_header_def header_get_def)

theorem early_failure_reply_witness:
  "status_of (ServeHTTP initial_flow ''http://up''
     ((sample_network sample_answer)\<lparr>roundTrip := \<lambda>_. None\<rparr>) sample_get rw_new) = Some 500"
proof -
  have "processProxyCall initial_flow ''http://up'' ((sample_network sample_answer)\<lparr>roundTrip := \<lambda>_. None\<rparr>)
      sample_get rw_new = (rw_new, Some (''proxy request error: '' @ ''eof''))"
    by (simp add: processProxyCall_def flowGate_def initial_flow_def sample_network_def Let_def)
  from early_failure_reply [OF this] show ?thesis by blast
qed

text \<open>An event stream is passed on with the upstream's header fields and a request not to
  buffer, and its body is the lines the stream loop forwards; a broken stream is not an error
  of the call, so nothing is appended to it.\<close>

theorem event_stream_response:
  assumes "answered f target N r us" and "isEventStream r us" and "usStatus us = 200"
  shows "sent (ServeHTTP f target N r rw_new) =
      Some (200, (map_of (usHeader us))(''X-Accel-Buffering'' \<mapsto> [''no''])) \<and>
    written (ServeHTTP f target N r rw_new) =
      map Raw (esWrites (fst (processEventStream (streamWriteOk N) (streamCancelled N) (usBody us) es_init)))"
proof -
  let ?w = "WriteHeader 200 (on_header (header_set ''X-Accel-Buffering'' ''no'') (passHeaders us rw_new))"
  have wf: "wf_header_list (usHeader us)" using assms(1) by (simp add: answered_def)
  have "sent ?w = Some (200, (map_of (usHeader us))(''X-Accel-Buffering'' \<mapsto> [''no'']))" "written ?w = []"
    by (simp_all add: passHeaders_new [OF wf] header_set_def fun_eq_iff)
  from fold_writes [OF this(1)] this(2) assms show ?thesis
    by (simp add: ServeHTTP_answered respond_def)
qed

definition sample_stream :: upstream where
  "sample_stream =
     \<lparr>usStatus = 200, usHeader = [(''Content-Type'', [''text/event-stream''])], usBody = [], usBodyOk = False\<rparr>"

theorem event_stream_response_witness:
  "written (ServeHTTP initial_flow ''http://up'' (sample_network sample_stream) sample_get rw_new) = []"
proof -
  have a: "answered initial_flow ''http://up'' (sample_network sample_stream) sample_get sample_stream"
    by (simp add: answered_def flowGate_def initial_flow_def sample_network_def sample_stream_def
        wf_header_list_def Let_def)
  have s: "isEventStream sample_get sample_stream" "usStatus sample_stream = 200"
    by (simp_all add: isEventStream_def sample_stream_def header_get_def)
  from event_stream_response [OF a s] show ?thesis
    by (simp add: sample_stream_def processEventStream.simps readSlice_def bufioSize_def es_init_def)
qed

end
