(* ===== verification/Auth.thy ===== *)
theory Auth
  imports Http "HOL-Library.AList"
begin

text \<open>
  Authentication of the separate API server: the parsing of \<open>--api-auth\<close> in
  \<open>StartAPIServer\<close>, \<open>authMiddleware\<close> and \<open>sendUnauthorized\<close> of \<open>snooper/snooper.go\<close>. A
  constant-time comparison of equal-length byte strings is equality of the strings. The
  handler behind the middleware is a parameter.
\<close>

type_synonym credentials = "(bytes \<times> bytes) list"

definition addCredential :: "credentials \<Rightarrow> bytes \<Rightarrow> credentials" where
  "addCredential auth cred =
     (case SplitN2 cred CHR '':'' of [user, pass] \<Rightarrow> AList.update user pass auth | _ \<Rightarrow> auth)"

definition parseAuthConfig :: "bytes \<Rightarrow> credentials" where
  "parseAuthConfig authConfig =
     (if authConfig = '''' then [] else foldl addCredential [] (Split authConfig '',''))"

definition basic_prefix :: bytes where
  "basic_prefix = ''Basic ''"

text \<open>The checks of \<open>authMiddleware\<close> on the \<open>Authorization\<close> header, in their order.\<close>

definition authorised :: "credentials \<Rightarrow> bytes \<Rightarrow> bool" where
  "authorised apiAuth auth =
     (if auth = '''' then False
      else if \<not> HasPrefix auth basic_prefix then False
      else
        case b64_decode (drop (length basic_prefix) auth) of
          None \<Rightarrow> False
        | Some cred \<Rightarrow>
            (case Index cred '':'' of
               None \<Rightarrow> False
             | Some colonIndex \<Rightarrow>
                 let username = take colonIndex cred; password = drop (colonIndex + 1) cred
                 in (case map_of apiAuth username of
                       None \<Rightarrow> False
                     | Some expected \<Rightarrow> password = expected)))"

definition realm_value :: bytes where
  "realm_value = ''Basic realm='' @ [CHR 34] @ ''Snooper API'' @ [CHR 34]"

definition sendUnauthorized :: "rw \<Rightarrow> rw" where
  "sendUnauthorized w =
     (let w1 = on_header (header_set ''WWW-Authenticate'' realm_value) w;
          w2 = WriteHeader 401 w1;
          w3 = on_header (header_set content_type application_json) w2
      in rw_write (Json (JObj [(''status'', JStr ''error''), (''message'', JStr ''Unauthorized'')])) w3)"

definition authMiddleware ::
  "credentials \<Rightarrow> (http_request \<Rightarrow> rw \<Rightarrow> rw) \<Rightarrow> http_request \<Rightarrow> rw \<Rightarrow> rw" where
  "authMiddleware apiAuth next r w =
     (if authorised apiAuth (req_header_get r ''Authorization'') then next r w
      else sendUnauthorized w)"

text \<open>The handler chain \<open>StartAPIServer\<close> builds: the middleware is installed only when the
  parsed configuration has a user.\<close>

definition apiServerHandler ::
  "bytes \<Rightarrow> (http_request \<Rightarrow> rw \<Rightarrow> rw) \<Rightarrow> http_request \<Rightarrow> rw \<Rightarrow> rw" where
  "apiServerHandler authConfig router =
     (let apiAuth = parseAuthConfig authConfig
      in if 0 < length apiAuth then authMiddleware apiAuth router else router)"

subsection \<open>Lemmas\<close>

lemma SplitN2_append [simp]: "CHR '':'' \<notin> set u \<Longrightarrow> SplitN2 (u @ CHR '':'' # p) CHR '':'' = [u, p]"
  by (simp add: SplitN2_def)

lemma addCredential_pair [simp]:
  "CHR '':'' \<notin> set u \<Longrightarrow> addCredential auth (u @ CHR '':'' # p) = AList.update u p auth"
  by (simp add: addCredential_def)

lemma addCredential_malformed:
  "CHR '':'' \<notin> set cred \<Longrightarrow> addCredential auth cred = auth"
  by (simp add: addCredential_def SplitN2_def iffD2 [OF Cut_None])

lemma addCredential_origin:
  "map_of (addCredential auth cred) u = Some p \<Longrightarrow>
     map_of auth u = Some p \<or> (cred = u @ CHR '':'' # p \<and> CHR '':'' \<notin> set u)"
  by (auto simp: addCredential_def SplitN2_def Cut_Some update_conv' split: option.splits if_splits)

lemma foldl_origin:
  "map_of (foldl addCredential auth creds) u = Some p \<Longrightarrow>
     map_of auth u = Some p \<or> (u @ CHR '':'' # p \<in> set creds \<and> CHR '':'' \<notin> set u)"
proof (induction creds arbitrary: auth)
  case (Cons c cs)
  then show ?case using addCredential_origin by fastforce
qed simp

text \<open>A user the server knows stands in the configuration as \<open>user:password\<close>.\<close>

lemma parseAuthConfig_origin:
  assumes "map_of (parseAuthConfig cfg) u = Some p"
  shows "u @ CHR '':'' # p \<in> set (Split cfg '','') \<and> CHR '':'' \<notin> set u"
  using assms foldl_origin [of "[]"] by (auto simp: parseAuthConfig_def split: if_splits)

lemma parseAuthConfig_malformed:
  assumes "CHR '':'' \<notin> set cfg"
  shows "parseAuthConfig cfg = []"
proof -
  have "foldl addCredential [] cs = []" if "\<forall>c \<in> set cs. CHR '':'' \<notin> set c" for cs
    using that by (induction cs) (auto simp: addCredential_malformed)
  moreover have "CHR '':'' \<notin> set c" if "c \<in> set (Split cfg '','')" for c
    using in_set_Join [OF that, of "CHR '':''" "'',''"] assms by (auto simp: Join_Split)
  ultimately show ?thesis by (simp add: parseAuthConfig_def)
qed

text \<open>A configuration of well-formed pairs, written and read back.\<close>

definition render_credentials :: "credentials \<Rightarrow> bytes" where
  "render_credentials creds = Join (map (\<lambda>(u, p). u @ CHR '':'' # p) creds) '',''"

definition wf_credentials :: "credentials \<Rightarrow> bool" where
  "wf_credentials creds \<longleftrightarrow> creds \<noteq> [] \<and> distinct (map fst creds) \<and>
     (\<forall>(u, p) \<in> set creds. CHR '':'' \<notin> set u \<and> CHR '','' \<notin> set u \<and> CHR '','' \<notin> set p)"

lemma update_fresh: "k \<notin> fst ` set xs \<Longrightarrow> AList.update k v xs = xs @ [(k, v)]"
  by (induction xs) auto

lemma foldl_credentials:
  assumes "distinct (map fst (auth @ creds))" and "\<forall>(u, p) \<in> set creds. CHR '':'' \<notin> set u"
  shows "foldl addCredential auth (map (\<lambda>(u, p). u @ CHR '':'' # p) creds) = auth @ creds"
  using assms
proof (induction creds arbitrary: auth)
  case (Cons c cs)
  obtain u p where c: "c = (u, p)" by (cases c)
  with Cons.prems have "addCredential auth (u @ CHR '':'' # p) = auth @ [(u, p)]"
    by (auto simp: update_fresh)
  with Cons.prems Cons.IH [of "auth @ [(u, p)]"] show ?case by (simp add: c)
qed simp

lemma render_not_Nil: "wf_credentials creds \<Longrightarrow> render_credentials creds \<noteq> []"
  by (cases creds; cases "tl creds") (auto simp: wf_credentials_def render_credentials_def Join_Cons)

lemma parse_render:
  assumes "wf_credentials creds"
  shows "parseAuthConfig (render_credentials creds) = creds"
proof -
  have "Split (render_credentials creds) '','' = map (\<lambda>(u, p). u @ CHR '':'' # p) creds"
    unfolding render_credentials_def
    by (rule Split_Join_char) (use assms in \<open>auto simp: wf_credentials_def\<close>)
  moreover have "foldl addCredential [] (map (\<lambda>(u, p). u @ CHR '':'' # p) creds) = creds"
    using foldl_credentials [of "[]" creds] assms by (auto simp: wf_credentials_def)
  ultimately show ?thesis
    using render_not_Nil [OF assms] by (simp add: parseAuthConfig_def)
qed

lemma length_basic_prefix: "length basic_prefix = 6"
  by (simp add: basic_prefix_def)

lemma authorised_sound:
  assumes "authorised auth hdr"
  obtains u p where "map_of auth u = Some p" "CHR '':'' \<notin> set u"
    "HasPrefix hdr basic_prefix" "b64_decode (drop 6 hdr) = Some (u @ CHR '':'' # p)"
proof -
  from assms obtain cred i p where d: "b64_decode (drop 6 hdr) = Some cred"
    and i: "Index cred '':'' = Some i" and m: "map_of auth (take i cred) = Some p"
    and p: "drop (i + 1) cred = p" and pre: "HasPrefix hdr basic_prefix"
    by (auto simp: authorised_def length_basic_prefix Let_def split: if_splits option.splits)
  from Index_char_Some [OF i] p have "cred = take i cred @ CHR '':'' # p" "CHR '':'' \<notin> set (take i cred)"
    by auto
  with d m pre that show ?thesis by metis
qed

lemma authorised_complete:
  assumes "CHR '':'' \<notin> set u" and "map_of auth u = Some p"
  shows "authorised auth (basic_prefix @ b64_encode (u @ CHR '':'' # p))"
proof -
  have "basic_prefix @ x \<noteq> []" for x by (simp add: basic_prefix_def)
  with assms show ?thesis
    by (simp add: authorised_def b64_decode_encode Index_char_append)
qed

lemma unauthorised_reply:
  "status_of (sendUnauthorized rw_new) = Some 401"
  "sent_header (sendUnauthorized rw_new) ''WWW-Authenticate'' = realm_value"
  "sent_header (sendUnauthorized rw_new) content_type = []"
  "header_get (live (sendUnauthorized rw_new)) content_type = application_json"
  by (simp_all add: sendUnauthorized_def status_of_def sent_header_def header_get_def header_set_def
      Let_def)

lemma authorised_iff:
  assumes "wf_credentials creds"
  shows "authorised creds hdr \<longleftrightarrow>
    (\<exists>u p. (u, p) \<in> set creds \<and> HasPrefix hdr basic_prefix \<and>
       b64_decode (drop 6 hdr) = Some (u @ CHR '':'' # p))"
proof
  assume "authorised creds hdr"
  then show "\<exists>u p. (u, p) \<in> set creds \<and> HasPrefix hdr basic_prefix \<and>
       b64_decode (drop 6 hdr) = Some (u @ CHR '':'' # p)"
    by (rule authorised_sound) (metis map_of_SomeD)
next
  assume "\<exists>u p. (u, p) \<in> set creds \<and> HasPrefix hdr basic_prefix \<and>
       b64_decode (drop 6 hdr) = Some (u @ CHR '':'' # p)"
  then obtain u p where up: "(u, p) \<in> set creds" "HasPrefix hdr basic_prefix"
    "b64_decode (drop 6 hdr) = Some (u @ CHR '':'' # p)" by blast
  with assms have "map_of creds u = Some p" "CHR '':'' \<notin> set u"
    by (auto simp: wf_credentials_def)
  moreover have "hdr \<noteq> []" using up(2) by (auto simp: basic_prefix_def)
  ultimately show "authorised creds hdr"
    using up by (simp add: authorised_def length_basic_prefix Index_char_append)
qed

subsection \<open>Properties\<close>

text \<open>A request with nothing but an \<open>Authorization\<close> header, for the examples.\<close>

definition auth_request :: "bytes \<Rightarrow> http_request" where
  "auth_request hdr =
     \<lparr>rMethod = ''GET'', rURLHost = [], rPath = ''/_snooper/status'',
      rEscapedPath = ''/_snooper/status'', rRawQuery = [], rQuery = Map.empty,
      rHeader = [(''Authorization'', [hdr])], rRemoteAddr = ''127.0.0.1:1'', rContentLength = 0,
      rClose = False\<rparr>"

text \<open>C15: An API server configured with a list of \<open>user:password\<close> pairs answers exactly the
  requests whose \<open>Authorization\<close> header is \<open>Basic\<close> followed by the base64 of one of the
  pairs: the handler behind the middleware runs iff the header says so, and every other
  request gets the 401 reply, whatever the handler. Passwords may hold colons.\<close>

theorem api_auth_exact:
  assumes "wf_credentials creds"
  shows "apiServerHandler (render_credentials creds) router r w =
    (if \<exists>u p. (u, p) \<in> set creds \<and> HasPrefix (req_header_get r ''Authorization'') basic_prefix \<and>
          b64_decode (drop 6 (req_header_get r ''Authorization'')) = Some (u @ CHR '':'' # p)
     then router r w else sendUnauthorized w)"
  using assms authorised_iff [OF assms]
  by (auto simp: apiServerHandler_def parse_render authMiddleware_def wf_credentials_def)

theorem api_auth_exact_witness:
  "apiServerHandler (render_credentials [(''op'', ''a:b''), (''x'', [])]) (\<lambda>r w. rw_write (Raw ''ok'') w)
     (auth_request (basic_prefix @ b64_encode ''op:a:b'')) rw_new = rw_write (Raw ''ok'') rw_new \<and>
   apiServerHandler (render_credentials [(''op'', ''a:b''), (''x'', [])]) (\<lambda>r w. rw_write (Raw ''ok'') w)
     (auth_request (basic_prefix @ b64_encode ''op:a'')) rw_new = sendUnauthorized rw_new"
proof -
  have wf: "wf_credentials [(''op'', ''a:b''), (''x'', [])]" by (simp add: wf_credentials_def)
  have hdr: "req_header_get (auth_request h) ''Authorization'' = h" for h
    by (simp add: req_header_get_def auth_request_def header_get_def)
  have pre: "drop 6 (basic_prefix @ x) = x" for x by (simp add: basic_prefix_def)
  show ?thesis
    by (simp only: api_auth_exact [OF wf] hdr pre b64_decode_encode HasPrefix_append)
       (simp add: conj_disj_distribR ex_disj_distrib)
qed

text \<open>An \<open>--api-auth\<close> value with no colon in it switches authentication off: the
  operator asked for a password and the API server serves every request without one.\<close>

theorem malformed_auth_fails_open:
  assumes "CHR '':'' \<notin> set cfg"
  shows "apiServerHandler cfg router r w = router r w"
  by (simp add: apiServerHandler_def parseAuthConfig_malformed [OF assms])

theorem malformed_auth_fails_open_witness:
  "apiServerHandler ''s3cret'' (\<lambda>r w. rw_write (Raw ''ok'') w) (auth_request []) rw_new =
     rw_write (Raw ''ok'') rw_new"
  by (rule malformed_auth_fails_open) simp

text \<open>The 401 reply reaches the client with its status and the \<open>WWW-Authenticate\<close>
  challenge but without the JSON \<open>Content-Type\<close>, which is set after the header was sent.\<close>

theorem unauthorised_reply_headers:
  "status_of (sendUnauthorized rw_new) = Some 401 \<and>
   sent_header (sendUnauthorized rw_new) ''WWW-Authenticate'' = realm_value \<and>
   sent_header (sendUnauthorized rw_new) ''Content-Type'' = [] \<and>
   header_get (live (sendUnauthorized rw_new)) ''Content-Type'' = ''application/json''"
  using unauthorised_reply by simp

end
