(* ===== verification/OrderedProcessor.thy ===== *)
theory OrderedProcessor
  imports Prelude
begin

text \<open>
  \<open>snooper/ordered_processor.go\<close>: the sequencer that puts log records in the order in
  which their goroutines asked for a sequence number.

  \<open>op_state\<close> holds the fields of the struct. A channel made by \<open>WaitForSequence\<close> is a
  number below \<open>chanCount\<close>; \<open>closedChans\<close> are the ones already closed, so that closing
  one twice is the panic it is in Go. Every operation runs under the mutex and is one
  atomic function. \<open>WaitForSequence\<close> gives the mutex up before its \<open>select\<close>, so it is
  two functions: \<open>WaitBegin\<close> up to the unlock, and \<open>WaitEnd\<close> for the branch of the
  \<open>select\<close> that was taken. The loop of \<open>skipCompletedSequences\<close> is a partial function:
  \<open>None\<close> would be a loop that does not end.
\<close>

type_synonym chan = nat

record op_state =
  sequenceCounter :: u64
  nextSequence :: u64
  activeSequences :: "u64 set"
  waiters :: "u64 \<rightharpoonup> chan"
  chanCount :: nat
  closedChans :: "chan set"
  stopClosed :: bool

definition NewOrderedProcessor :: op_state where
  "NewOrderedProcessor =
     \<lparr>sequenceCounter = 0, nextSequence = 1, activeSequences = {}, waiters = Map.empty,
      chanCount = 0, closedChans = {}, stopClosed = False\<rparr>"

definition Stop :: "op_state \<Rightarrow> go_panic + op_state" where
  "Stop p = (if stopClosed p then Inl CloseOfClosedChannel else Inr (p\<lparr>stopClosed := True\<rparr>))"

definition GetNextSequence :: "op_state \<Rightarrow> u64 \<times> op_state" where
  "GetNextSequence p =
     (let seq = sequenceCounter p + 1
      in (seq, p\<lparr>sequenceCounter := seq, activeSequences := insert seq (activeSequences p)\<rparr>))"

definition closeChan :: "chan \<Rightarrow> op_state \<Rightarrow> go_panic + op_state" where
  "closeChan c p =
     (if c \<in> closedChans p then Inl CloseOfClosedChannel
      else Inr (p\<lparr>closedChans := insert c (closedChans p)\<rparr>))"

text \<open>One turn of the loop of \<open>skipCompletedSequences\<close>.\<close>

definition skipOne :: "op_state \<Rightarrow> go_panic + op_state" where
  "skipOne p =
     (let p1 = p\<lparr>nextSequence := nextSequence p + 1\<rparr>
      in case waiters p1 (nextSequence p1) of
           None \<Rightarrow> Inr p1
         | Some waiter \<Rightarrow>
             (case closeChan waiter p1 of
                Inl e \<Rightarrow> Inl e
              | Inr p2 \<Rightarrow> Inr (p2\<lparr>waiters := (waiters p2)(nextSequence p2 := None)\<rparr>)))"

definition mustSkip :: "op_state \<Rightarrow> bool" where
  "mustSkip p \<longleftrightarrow> nextSequence p \<le> sequenceCounter p \<and> nextSequence p \<notin> activeSequences p"

partial_function (option) skipCompletedSequences ::
  "op_state \<Rightarrow> (go_panic + op_state) option" where
  "skipCompletedSequences p =
     (if mustSkip p
      then (case skipOne p of Inl e \<Rightarrow> Some (Inl e) | Inr p' \<Rightarrow> skipCompletedSequences p')
      else Some (Inr p))"

datatype wait_start = Ready | Waiting chan

definition WaitBegin :: "u64 \<Rightarrow> op_state \<Rightarrow> (go_panic + wait_start \<times> op_state) option" where
  "WaitBegin sequence p =
     (case skipCompletedSequences p of
        None \<Rightarrow> None
      | Some (Inl e) \<Rightarrow> Some (Inl e)
      | Some (Inr p1) \<Rightarrow>
          if sequence \<le> nextSequence p1 then Some (Inr (Ready, p1))
          else
            let waiter = chanCount p1
            in Some (Inr (Waiting waiter,
                 p1\<lparr>chanCount := Suc waiter, waiters := (waiters p1)(sequence \<mapsto> waiter)\<rparr>)))"

datatype wait_event = WaiterClosed | StopClosed | TimerFired

fun WaitEnd :: "u64 \<Rightarrow> wait_event \<Rightarrow> op_state \<Rightarrow> bool \<times> op_state" where
  "WaitEnd sequence WaiterClosed p = (True, p)"
| "WaitEnd sequence StopClosed p = (False, p)"
| "WaitEnd sequence TimerFired p = (True, p\<lparr>waiters := (waiters p)(sequence := None)\<rparr>)"

text \<open>The channel operations that make a branch of the \<open>select\<close> available.\<close>

fun wait_enabled :: "chan \<Rightarrow> wait_event \<Rightarrow> op_state \<Rightarrow> bool" where
  "wait_enabled c WaiterClosed p = (c \<in> closedChans p)"
| "wait_enabled c StopClosed p = stopClosed p"
| "wait_enabled c TimerFired p = True"

definition CompleteSequence :: "u64 \<Rightarrow> op_state \<Rightarrow> (go_panic + op_state) option" where
  "CompleteSequence sequence p =
     skipCompletedSequences (p\<lparr>activeSequences := activeSequences p - {sequence}\<rparr>)"

subsection \<open>The data invariant\<close>

definition roomFor :: "op_state \<Rightarrow> bool" where
  "roomFor p \<longleftrightarrow> unat (sequenceCounter p) + 1 < 2 ^ 64"

definition op_inv :: "op_state \<Rightarrow> bool" where
  "op_inv p \<longleftrightarrow>
     roomFor p \<and> 1 \<le> nextSequence p \<and> nextSequence p \<le> sequenceCounter p + 1 \<and>
     (\<forall>k \<in> activeSequences p. nextSequence p \<le> k \<and> k \<le> sequenceCounter p) \<and>
     (\<forall>k c. waiters p k = Some c \<longrightarrow>
        nextSequence p < k \<and> c < chanCount p \<and> c \<notin> closedChans p) \<and>
     (\<forall>j k c. waiters p j = Some c \<longrightarrow> waiters p k = Some c \<longrightarrow> j = k) \<and>
     (\<forall>c \<in> closedChans p. c < chanCount p)"

definition normalised :: "op_state \<Rightarrow> bool" where
  "normalised p \<longleftrightarrow> \<not> mustSkip p"

text \<open>What the loop computes: how the result \<open>p'\<close> relates to \<open>p\<close>.\<close>

definition skipped :: "op_state \<Rightarrow> op_state \<Rightarrow> bool" where
  "skipped p p' \<longleftrightarrow>
     nextSequence p \<le> nextSequence p' \<and>
     (\<forall>k. nextSequence p \<le> k \<and> k < nextSequence p' \<longrightarrow> k \<notin> activeSequences p) \<and>
     sequenceCounter p' = sequenceCounter p \<and> activeSequences p' = activeSequences p \<and>
     chanCount p' = chanCount p \<and> stopClosed p' = stopClosed p \<and>
     (\<forall>k. waiters p' k = (if k \<le> nextSequence p' then None else waiters p k)) \<and>
     closedChans p' =
       closedChans p \<union> {c. \<exists>k. waiters p k = Some c \<and> k \<le> nextSequence p'}"

lemma op_inv_init [step_inv]: "op_inv NewOrderedProcessor" "normalised NewOrderedProcessor"
  by (auto simp: op_inv_def normalised_def mustSkip_def NewOrderedProcessor_def roomFor_def)

lemma skip_normalised: "normalised p \<Longrightarrow> skipCompletedSequences p = Some (Inr p)"
  by (subst skipCompletedSequences.simps) (simp add: normalised_def)

lemma succ_gt: "k \<le> sequenceCounter p \<Longrightarrow> roomFor p \<Longrightarrow> unat (k + 1) = unat k + 1"
  unfolding roomFor_def word_le_nat_alt by (intro unat_succ_u64) linarith

subsection \<open>The loop\<close>

lemma waiters_above: "op_inv p \<Longrightarrow> waiters p k = Some c \<Longrightarrow> nextSequence p < k"
  unfolding op_inv_def by blast

lemma waiters_low: "op_inv p \<Longrightarrow> k \<le> nextSequence p \<Longrightarrow> waiters p k = None"
  by (metis leD not_None_eq waiters_above)

lemma waiters_open: "op_inv p \<Longrightarrow> waiters p k = Some c \<Longrightarrow> c < chanCount p \<and> c \<notin> closedChans p"
  unfolding op_inv_def by blast

lemma waiters_inj: "op_inv p \<Longrightarrow> waiters p j = Some c \<Longrightarrow> waiters p k = Some c \<Longrightarrow> j = k"
  unfolding op_inv_def by blast

lemma active_range: "op_inv p \<Longrightarrow> k \<in> activeSequences p \<Longrightarrow> nextSequence p \<le> k \<and> k \<le> sequenceCounter p"
  unfolding op_inv_def by blast

lemma skippedD:
  assumes "skipped p q"
  shows "nextSequence p \<le> nextSequence q" "sequenceCounter q = sequenceCounter p"
    "activeSequences q = activeSequences p" "chanCount q = chanCount p" "stopClosed q = stopClosed p"
    "nextSequence p \<le> k \<Longrightarrow> k < nextSequence q \<Longrightarrow> k \<notin> activeSequences p"
    "waiters q k = (if k \<le> nextSequence q then None else waiters p k)"
    "closedChans p \<subseteq> closedChans q"
    "waiters p k = Some c \<Longrightarrow> k \<le> nextSequence q \<Longrightarrow> c \<in> closedChans q"
  using assms unfolding skipped_def by blast+

lemma skipped_refl: "op_inv p \<Longrightarrow> skipped p p"
  unfolding skipped_def by (auto simp: waiters_low dest: waiters_above)

lemma skipped_trans:
  assumes "skipped p q" and "skipped q r"
  shows "skipped p r"
proof -
  have le: "nextSequence p \<le> nextSequence q" "nextSequence q \<le> nextSequence r"
    using assms by (auto simp: skipped_def)
  have wq: "waiters q k = (if k \<le> nextSequence q then None else waiters p k)" for k
    using assms(1) by (simp add: skipped_def)
  have wr: "waiters r k = (if k \<le> nextSequence r then None else waiters p k)" for k
    using assms(2) wq le(2) by (auto simp: skipped_def)
  have "{c. \<exists>k. waiters p k = Some c \<and> k \<le> nextSequence q} \<union>
      {c. \<exists>k. waiters q k = Some c \<and> k \<le> nextSequence r} =
      {c. \<exists>k. waiters p k = Some c \<and> k \<le> nextSequence r}"
    unfolding wq using le(2) by (force split: if_splits)
  then have "closedChans r = closedChans p \<union> {c. \<exists>k. waiters p k = Some c \<and> k \<le> nextSequence r}"
    using assms by (simp add: skipped_def Un_assoc)
  moreover have "\<forall>k. nextSequence p \<le> k \<and> k < nextSequence r \<longrightarrow> k \<notin> activeSequences p"
    using assms unfolding skipped_def by (metis not_le)
  ultimately show ?thesis
    using assms le wr unfolding skipped_def by simp
qed

lemma skipOne_effect:
  assumes "op_inv p" and "mustSkip p"
  obtains p' where "skipOne p = Inr p'"
    "p' = p\<lparr>nextSequence := nextSequence p + 1,
           waiters := (waiters p)(nextSequence p + 1 := None),
           closedChans := closedChans p \<union> set_option (waiters p (nextSequence p + 1))\<rparr>"
proof (cases "waiters p (nextSequence p + 1)")
  case None
  then have "(waiters p)(nextSequence p + 1 := None) = waiters p" by auto
  with None that show ?thesis by (simp add: skipOne_def)
next
  case (Some c)
  with assms(1) have "c \<notin> closedChans p" by (simp add: waiters_open)
  with Some that show ?thesis by (simp add: skipOne_def closeChan_def)
qed

lemma skipOne_ok:
  assumes inv: "op_inv p" and must: "mustSkip p"
  obtains p' where "skipOne p = Inr p'" "op_inv p'" "skipped p p'"
    "nextSequence p' = nextSequence p + 1"
proof -
  obtain p' where p': "skipOne p = Inr p'"
    "p' = p\<lparr>nextSequence := nextSequence p + 1,
           waiters := (waiters p)(nextSequence p + 1 := None),
           closedChans := closedChans p \<union> set_option (waiters p (nextSequence p + 1))\<rparr>"
    using skipOne_effect [OF inv must] .
  let ?n = "nextSequence p"
  have le: "?n \<le> sequenceCounter p" and room: "roomFor p"
    using inv must by (auto simp: op_inv_def mustSkip_def)
  then have n1: "unat (?n + 1) = unat ?n + 1" by (simp add: succ_gt)
  then have le1: "k \<le> ?n + 1 \<longleftrightarrow> k \<le> ?n \<or> k = ?n + 1" for k
    by (auto simp: word_le_nat_alt le_Suc_eq word_unat_eq_iff)
  have lt1: "k < ?n + 1 \<longleftrightarrow> k \<le> ?n" for k
    by (simp add: word_less_nat_alt word_le_nat_alt n1 less_Suc_eq_le)
  have "unat (sequenceCounter p + 1) = unat (sequenceCounter p) + 1"
    using room by (intro succ_gt [of _ p]) simp_all
  then have next_le: "?n + 1 \<le> sequenceCounter p + 1"
    using le by (simp add: word_le_nat_alt n1)
  have one_le: "1 \<le> ?n + 1" by (simp add: word_le_nat_alt n1)
  have act: "?n + 1 \<le> k \<and> k \<le> sequenceCounter p" if "k \<in> activeSequences p" for k
  proof -
    have "?n \<le> k" "k \<le> sequenceCounter p" using active_range [OF inv that] by auto
    moreover have "k \<noteq> ?n" using must that by (auto simp: mustSkip_def)
    ultimately show ?thesis using lt1 [of k] by (auto simp: not_less [symmetric])
  qed
  have above: "?n + 1 < k" if "waiters p k = Some c" "k \<noteq> ?n + 1" for k c
    using waiters_above [OF inv that(1)] le1 [of k] that(2) by (auto simp: not_le [symmetric])
  have "op_inv p'"
    using inv room next_le one_le act above waiters_inj [OF inv] waiters_open [OF inv]
    unfolding op_inv_def p'(2)
    by (auto simp: roomFor_def split: if_splits dest: sym)
  moreover have "skipped p p'"
  proof -
    have "?n \<le> ?n + 1" by (simp add: word_le_nat_alt n1)
    moreover have "k \<notin> activeSequences p" if "?n \<le> k" "k < ?n + 1" for k
      using that lt1 [of k] must by (auto simp: mustSkip_def)
    moreover have "set_option (waiters p (?n + 1)) = {c. \<exists>k. waiters p k = Some c \<and> k \<le> ?n + 1}"
      using waiters_low [OF inv] le1 by (auto simp: set_eq_iff)
    ultimately show ?thesis
      using waiters_low [OF inv] le1 unfolding skipped_def p'(2) by auto
  qed
  ultimately show ?thesis using that p' by simp
qed

text \<open>Each turn of the loop moves \<open>nextSequence\<close> one step towards the counter, so the loop
  ends; it never closes a channel twice, and it stops at the first sequence that is
  still active.\<close>

lemma skip_total_aux:
  assumes "op_inv p" and "unat (sequenceCounter p) + 1 - unat (nextSequence p) = n"
  shows "\<exists>p'. skipCompletedSequences p = Some (Inr p') \<and> op_inv p' \<and> normalised p' \<and> skipped p p'"
  using assms
proof (induction n arbitrary: p rule: less_induct)
  case (less n)
  show ?case
  proof (cases "mustSkip p")
    case False
    then have "normalised p" by (simp add: normalised_def)
    with less.prems(1) show ?thesis by (auto simp: skip_normalised skipped_refl)
  next
    case True
    with less.prems(1) obtain p1 where p1: "skipOne p = Inr p1" "op_inv p1" "skipped p p1"
      "nextSequence p1 = nextSequence p + 1"
      by (rule skipOne_ok)
    have le: "nextSequence p \<le> sequenceCounter p" and room: "roomFor p"
      using less.prems(1) True by (auto simp: mustSkip_def op_inv_def)
    have "unat (nextSequence p1) = unat (nextSequence p) + 1"
      unfolding p1(4) by (rule succ_gt [OF le room])
    moreover have "sequenceCounter p1 = sequenceCounter p" using p1(3) by (simp add: skipped_def)
    ultimately have "unat (sequenceCounter p1) + 1 - unat (nextSequence p1) < n"
      using less.prems(2) le by (simp add: word_le_nat_alt)
    from less.IH [OF this p1(2) refl] obtain p' where
      "skipCompletedSequences p1 = Some (Inr p')" "op_inv p'" "normalised p'" "skipped p1 p'"
      by blast
    with p1 True show ?thesis
      by (subst skipCompletedSequences.simps) (auto intro: skipped_trans)
  qed
qed

lemma skip_total:
  assumes "op_inv p"
  obtains p' where "skipCompletedSequences p = Some (Inr p')" "op_inv p'" "normalised p'" "skipped p p'"
  using skip_total_aux [OF assms refl] by blast

text \<open>The abstract view: the next sequence to run is the least active one, or the one
  after the counter when nothing is active.\<close>

definition spec_next :: "u64 \<Rightarrow> u64 set \<Rightarrow> u64" where
  "spec_next counter active = (if active = {} then counter + 1 else Min active)"

lemma normalised_next:
  assumes inv: "op_inv p" and norm: "normalised p"
  shows "nextSequence p = spec_next (sequenceCounter p) (activeSequences p)"
proof (cases "nextSequence p \<in> activeSequences p")
  case True
  have "Min (activeSequences p) = nextSequence p"
    by (rule Min_eqI) (use True active_range [OF inv] in auto)
  with True show ?thesis by (auto simp: spec_next_def)
next
  case False
  with norm have gt: "sequenceCounter p < nextSequence p"
    by (auto simp: normalised_def mustSkip_def)
  moreover from gt have "activeSequences p = {}"
    using active_range [OF inv] by fastforce
  moreover have "nextSequence p \<le> sequenceCounter p + 1" and "roomFor p"
    using inv by (auto simp: op_inv_def)
  ultimately have "nextSequence p = sequenceCounter p + 1"
    by (auto simp: u64_less_succ roomFor_def)
  with \<open>activeSequences p = {}\<close> show ?thesis by (simp add: spec_next_def)
qed

subsection \<open>The operations\<close>

definition roomForNext :: "op_state \<Rightarrow> bool" where
  "roomForNext p \<longleftrightarrow> unat (sequenceCounter p) + 2 < 2 ^ 64"

lemma succ_counter: "roomForNext p \<Longrightarrow> unat (sequenceCounter p + 1) = unat (sequenceCounter p) + 1"
  unfolding roomForNext_def by (intro unat_succ_u64) simp

lemma GetNextSequence_inv [step_inv]:
  assumes inv: "op_inv p" and norm: "normalised p" and room: "roomForNext p"
    and get: "GetNextSequence p = (seq, p')"
  shows "op_inv p'" "normalised p'" "seq \<notin> activeSequences p" "seq = sequenceCounter p + 1"
proof -
  let ?c = "sequenceCounter p"
  have p': "p' = p\<lparr>sequenceCounter := ?c + 1, activeSequences := insert (?c + 1) (activeSequences p)\<rparr>"
    and seq: "seq = ?c + 1"
    using get by (auto simp: GetNextSequence_def Let_def)
  have c: "unat (?c + 1) = unat ?c + 1" using room by (rule succ_counter)
  then have "unat (?c + 1 + 1) = unat ?c + 2"
    using room by (subst unat_succ_u64) (auto simp: roomForNext_def)
  then have le: "?c + 1 \<le> ?c + 1 + 1" and up: "\<And>k. k \<le> ?c \<Longrightarrow> k \<le> ?c + 1"
    by (auto simp: word_le_nat_alt c)
  show "seq = sequenceCounter p + 1" by (fact seq)
  show "seq \<notin> activeSequences p"
    using active_range [OF inv, of seq] by (auto simp: seq word_le_nat_alt c)
  have nle: "nextSequence p \<le> ?c + 1" using inv by (simp add: op_inv_def)
  show "op_inv p'"
    using inv room le nle up order.trans [OF nle le]
    unfolding op_inv_def p' by (auto simp: roomFor_def roomForNext_def c)
  have "nextSequence p \<in> insert (?c + 1) (activeSequences p) \<or> ?c + 1 < nextSequence p"
    using norm nle by (auto simp: normalised_def mustSkip_def u64_less_succ word_le_nat_alt c
        word_less_nat_alt word_unat_eq_iff)
  then show "normalised p'" by (auto simp: normalised_def mustSkip_def p')
qed

lemma op_inv_deactivate: "op_inv p \<Longrightarrow> op_inv (p\<lparr>activeSequences := activeSequences p - A\<rparr>)"
  by (auto simp: op_inv_def roomFor_def)

lemma CompleteSequence_total:
  assumes "op_inv p"
  obtains p' where "CompleteSequence seq p = Some (Inr p')" "op_inv p'" "normalised p'"
    "skipped (p\<lparr>activeSequences := activeSequences p - {seq}\<rparr>) p'"
  using skip_total [OF op_inv_deactivate [OF assms, of "{seq}"]]
  by (auto simp: CompleteSequence_def)

lemma CompleteSequence_effect:
  assumes "op_inv p" and "CompleteSequence seq p = Some (Inr p')"
  shows "op_inv p'" "normalised p'" "activeSequences p' = activeSequences p - {seq}"
    "sequenceCounter p' = sequenceCounter p" "nextSequence p \<le> nextSequence p'"
    "chanCount p' = chanCount p" "stopClosed p' = stopClosed p"
    "closedChans p \<subseteq> closedChans p'"
    "waiters p' k = (if k \<le> nextSequence p' then None else waiters p k)"
    "waiters p k = Some c \<Longrightarrow> k \<le> nextSequence p' \<Longrightarrow> c \<in> closedChans p'"
proof -
  obtain q where "CompleteSequence seq p = Some (Inr q)" and q: "op_inv q" "normalised q"
    and sk: "skipped (p\<lparr>activeSequences := activeSequences p - {seq}\<rparr>) q"
    using CompleteSequence_total [OF assms(1)] .
  with assms(2) have "p' = q" by simp
  with sk have sk: "skipped (p\<lparr>activeSequences := activeSequences p - {seq}\<rparr>) p'" by simp
  show "op_inv p'" "normalised p'" using q by (simp_all add: \<open>p' = q\<close>)
  show "activeSequences p' = activeSequences p - {seq}" "sequenceCounter p' = sequenceCounter p"
    "nextSequence p \<le> nextSequence p'" "chanCount p' = chanCount p" "stopClosed p' = stopClosed p"
    "closedChans p \<subseteq> closedChans p'"
    "waiters p' k = (if k \<le> nextSequence p' then None else waiters p k)"
    using skippedD [OF sk] by simp_all
  show "waiters p k = Some c \<Longrightarrow> k \<le> nextSequence p' \<Longrightarrow> c \<in> closedChans p'"
    using skippedD(9) [OF sk, of k c] by simp
qed

lemma WaitBegin_normalised:
  "normalised p \<Longrightarrow> WaitBegin seq p = Some (Inr
     (if seq \<le> nextSequence p then (Ready, p)
      else (Waiting (chanCount p),
            p\<lparr>chanCount := Suc (chanCount p), waiters := (waiters p)(seq \<mapsto> chanCount p)\<rparr>)))"
  by (simp add: WaitBegin_def skip_normalised Let_def)

lemma register_inv [step_inv]:
  assumes "op_inv p" and "nextSequence p < seq" and "waiters p seq = None"
  shows "op_inv (p\<lparr>chanCount := Suc (chanCount p), waiters := (waiters p)(seq \<mapsto> chanCount p)\<rparr>)"
  using assms waiters_open [OF assms(1)] unfolding op_inv_def roomFor_def
  by (auto simp: less_Suc_eq)

lemma unregister_inv [step_inv]: "op_inv p \<Longrightarrow> op_inv (p\<lparr>waiters := (waiters p)(seq := None)\<rparr>)"
  unfolding op_inv_def roomFor_def by auto

lemma normalised_frame [simp]:
  "normalised (p\<lparr>waiters := w\<rparr>) = normalised p"
  "normalised (p\<lparr>chanCount := n\<rparr>) = normalised p"
  "normalised (p\<lparr>stopClosed := b\<rparr>) = normalised p"
  by (simp_all add: normalised_def mustSkip_def)

lemma Stop_inv [step_inv]:
  "op_inv p \<Longrightarrow> Stop p = Inr p' \<Longrightarrow> op_inv p' \<and> p' = p\<lparr>stopClosed := True\<rparr>"
  by (auto simp: Stop_def op_inv_def roomFor_def split: if_splits)

subsection \<open>Properties\<close>

text \<open>C5: \<open>skipCompletedSequences\<close> always returns and never panics. It leaves \<open>nextSequence\<close> at
  the least active sequence (one past the counter when none is active), it touches neither
  the counter nor the active set, and the channels it closes are exactly those of the
  waiters whose sequence has been reached, which it forgets.\<close>

theorem skip_refines_least_active:
  assumes "op_inv p"
  shows "\<exists>p'. skipCompletedSequences p = Some (Inr p') \<and> op_inv p' \<and>
    nextSequence p' = spec_next (sequenceCounter p) (activeSequences p) \<and>
    sequenceCounter p' = sequenceCounter p \<and> activeSequences p' = activeSequences p \<and>
    (\<forall>k. waiters p' k = (if k \<le> nextSequence p' then None else waiters p k)) \<and>
    closedChans p' = closedChans p \<union> {c. \<exists>k. waiters p k = Some c \<and> k \<le> nextSequence p'}"
proof -
  obtain p' where p': "skipCompletedSequences p = Some (Inr p')" "op_inv p'" "normalised p'"
    "skipped p p'"
    using skip_total [OF assms] .
  then have "nextSequence p' = spec_next (sequenceCounter p) (activeSequences p)"
    by (simp add: normalised_next skippedD)
  with p' show ?thesis unfolding skipped_def by blast
qed

definition three_issued :: op_state where
  "three_issued =
     \<lparr>sequenceCounter = 3, nextSequence = 1, activeSequences = {3}, waiters = [3 \<mapsto> 0],
      chanCount = 1, closedChans = {}, stopClosed = False\<rparr>"

lemma skip_refines_least_active_witness:
  "op_inv three_issued \<and>
   (\<exists>p'. skipCompletedSequences three_issued = Some (Inr p') \<and> nextSequence p' = 3 \<and>
     waiters p' 3 = None \<and> closedChans p' = {0})"
proof -
  have inv: "op_inv three_issued"
    by (simp add: op_inv_def three_issued_def roomFor_def)
  obtain p' where p': "skipCompletedSequences three_issued = Some (Inr p')"
    "nextSequence p' = spec_next (sequenceCounter three_issued) (activeSequences three_issued)"
    "\<forall>k. waiters p' k = (if k \<le> nextSequence p' then None else waiters three_issued k)"
    "closedChans p' = closedChans three_issued \<union>
       {c. \<exists>k. waiters three_issued k = Some c \<and> k \<le> nextSequence p'}"
    using skip_refines_least_active [OF inv] by blast
  from p'(2) have "nextSequence p' = 3" by (simp add: spec_next_def three_issued_def)
  with p' inv show ?thesis by (auto simp: three_issued_def)
qed

end
