(* ===== verification/Startup.thy ===== *)
theory Startup
  imports XatuService Metadata Logging ProxyCall Auth OrderedProcessor
begin

text \<open>
  How the program is put together: \<open>NewSnooper\<close>, the servers and \<open>Shutdown\<close> of
  \<open>snooper/snooper.go\<close> and \<open>main\<close> of \<open>cmd/snooper/main.go\<close>. URL parsing, the flag parser, the
  file system and listening on a port are parameters. The Xatu service publishes decorated
  events that carry client metadata; what handling a response does outside the modules is
  applied to the publisher and the metadata fetcher here.
\<close>

type_synonym event = "client_meta decorated_event"

record target_url =
  tuString :: bytes
  tuHost :: bytes
  tuScheme :: bytes

record 'q snooper =
  snTarget :: target_url
  snManager :: "'q module_manager"
  snTruncation :: bool
  snHideBodies :: bool
  snFlow :: flow
  snXatu :: "event xatu_service"
  snJwtSecret :: bytes
  snFetcher :: "fetcher option"
  snOrdered :: op_state
  snApiAuth :: credentials
  snMetricsEnabled :: bool

datatype init_error = BadTarget | BadXatu config_error

record world =
  parseURL :: "bytes \<Rightarrow> target_url option"
  readFile :: "bytes \<Rightarrow> bytes option"

definition NewSnooper ::
  "world \<Rightarrow> bytes \<Rightarrow> xatu_config option \<Rightarrow> bytes \<Rightarrow> init_error + 'q snooper" where
  "NewSnooper W target xatuConfig jwtSecret =
     (case parseURL W target of
        None \<Rightarrow> Inl BadTarget
      | Some targetURL \<Rightarrow>
          (case NewService xatuConfig of
             Inl err \<Rightarrow> Inl (BadXatu err)
           | Inr xatuService \<Rightarrow>
               let s = \<lparr>snTarget = targetURL, snManager = NewModuleManager, snTruncation = False,
                        snHideBodies = False, snFlow = initial_flow, snXatu = xatuService, snJwtSecret = jwtSecret,
                        snFetcher = None, snOrdered = NewOrderedProcessor, snApiAuth = [],
                        snMetricsEnabled = False\<rparr>
               in if \<not> svc_IsEnabled xatuService then Inr s
                  else
                    let fetcher = NewExecutionMetadataFetcher (readFile W) (tuString targetURL) jwtSecret;
                        svc = svc_RegisterMetadataUpdateCallback (svc_SetMetadataProvider xatuService);
                        (i, mm) = GenerateModuleID (snManager s)
                    in Inr (s\<lparr>snFetcher := Some fetcher, snXatu := svc,
                              snManager := RegisterModule (XatuModule i (svc_Router svc)) None mm\<rparr>)))"

definition EnableLogTruncation :: "'q snooper \<Rightarrow> 'q snooper" where
  "EnableLogTruncation s = s\<lparr>snTruncation := True\<rparr>"

definition EnableHideBodies :: "'q snooper \<Rightarrow> 'q snooper" where
  "EnableHideBodies s = s\<lparr>snHideBodies := True\<rparr>"

text \<open>What logging reads of the snooper.\<close>

definition snooper_log_config :: "'q snooper \<Rightarrow> log_config" where
  "snooper_log_config s =
     \<lparr>logTruncationEnabled = snTruncation s, hideBodies = snHideBodies s, metricsEnabled = snMetricsEnabled s,
      targetHost = tuHost (snTarget s), targetScheme = tuScheme (snTarget s)\<rparr>"

subsection \<open>Servers\<close>

datatype server = ApiServer bytes int | MetricsServer bytes int | MainServer bytes int bool

definition StartAPIServer :: "bytes \<Rightarrow> int \<Rightarrow> bytes \<Rightarrow> 'q snooper \<Rightarrow> 'q snooper \<times> server" where
  "StartAPIServer host port authConfig s =
     ((if authConfig \<noteq> [] then s\<lparr>snApiAuth := parseAuthConfig authConfig\<rparr> else s), ApiServer host port)"

definition StartMetricsServer :: "bytes \<Rightarrow> int \<Rightarrow> 'q snooper \<Rightarrow> 'q snooper \<times> server" where
  "StartMetricsServer host port s = (s\<lparr>snMetricsEnabled := True\<rparr>, MetricsServer host port)"

text \<open>\<open>StartServer\<close> up to listening; the metadata fetcher then runs in the background.\<close>

definition StartServer ::
  "event sink_lib \<Rightarrow> bytes \<Rightarrow> int \<Rightarrow> bool \<Rightarrow> 'q snooper \<Rightarrow> 'q snooper \<times> (publisher_error + server)" where
  "StartServer L host port noAPI s =
     (if svc_IsEnabled (snXatu s)
      then (case svc_Start L (snXatu s) of
              (svc, Some err) \<Rightarrow> (s\<lparr>snXatu := svc\<rparr>, Inl err)
            | (svc, None) \<Rightarrow> (s\<lparr>snXatu := svc\<rparr>, Inr (MainServer host port noAPI)))
      else (s, Inr (MainServer host port noAPI)))"

text \<open>\<open>Shutdown\<close>: a panic of the sequencer or the fetcher ends it; the service's error is only
  logged.\<close>

definition stopFetcher :: "fetcher option \<Rightarrow> go_panic + fetcher option" where
  "stopFetcher fo =
     (case fo of
        None \<Rightarrow> Inr None
      | Some f \<Rightarrow> (case fetcher_Stop f of None \<Rightarrow> Inl CloseOfClosedChannel | Some f' \<Rightarrow> Inr (Some f')))"

definition Shutdown :: "event sink_lib \<Rightarrow> 'q snooper \<Rightarrow> go_panic + 'q snooper" where
  "Shutdown L s =
     (case Stop (snOrdered s) of
        Inl p \<Rightarrow> Inl p
      | Inr ord \<Rightarrow>
          (case stopFetcher (snFetcher s) of
             Inl p \<Rightarrow> Inl p
           | Inr fo \<Rightarrow>
               Inr (s\<lparr>snOrdered := ord, snFetcher := fo, snXatu := fst (svc_Stop L (snXatu s))\<rparr>)))"

text \<open>The router of the main server; \<open>other\<close> answers for the web socket and the default mux.\<close>

definition mainHandler ::
  "bool \<Rightarrow> (http_request \<Rightarrow> rw \<Rightarrow> rw) \<Rightarrow> bytes \<Rightarrow> network \<Rightarrow> flow \<Rightarrow> http_request \<Rightarrow> rw \<Rightarrow> flow \<times> rw" where
  "mainHandler noAPI other target N f r w =
     (if \<not> noAPI \<and> HasPrefix (rPath r) ''/_snooper/''
      then (case api_handler (api_route r) of
              Some h \<Rightarrow> h f r w
            | None \<Rightarrow> (f, other r w))
      else (f, ServeHTTP f target N r w))"

subsection \<open>Effects of handling a response\<close>

fun applyEffect ::
  "event sink_lib \<Rightarrow> (bytes \<Rightarrow> execution_metadata) \<Rightarrow> client_meta effect \<Rightarrow> 'q snooper \<Rightarrow> 'q snooper" where
  "applyEffect L V (Publish ev) s =
     s\<lparr>snXatu := fst (svc_Publish L (Option.bind (snFetcher s) Get) ev (snXatu s))\<rparr>"
| "applyEffect L V (UpdateMetadata vs) s = s\<lparr>snFetcher := map_option (Update V vs) (snFetcher s)\<rparr>"

subsection \<open>The program\<close>

datatype main_end =
    ShowHelp
  | ShowVersion
  | TargetMissing
  | BadConfig config_error
  | InitFailed init_error
  | ServerFailed publisher_error
  | Serving

definition chooseTarget :: "environment \<Rightarrow> bytes list \<Rightarrow> bytes option" where
  "chooseTarget en args =
     (if 2 \<le> length args \<and> args ! 1 \<noteq> [] then Some (args ! 1)
      else if getenv en ''SNOOPER_TARGET'' \<noteq> [] then Some (getenv en ''SNOOPER_TARGET'')
      else None)"

text \<open>After the flags: the optional servers, then the main one.\<close>

definition runServers :: "event sink_lib \<Rightarrow> cli_args \<Rightarrow> 'q snooper \<Rightarrow> main_end \<times> server list \<times> 'q snooper" where
  "runServers L a s0 =
     (let s1 = (if argTruncate a then EnableLogTruncation s0 else s0);
          s2 = (if argHideBodies a then EnableHideBodies s1 else s1);
          (s3, up1) = (if 0 < argApiPort a
                       then (case StartAPIServer (argApiBind a) (argApiPort a) (argApiAuth a) s2 of (s, v) \<Rightarrow> (s, [v]))
                       else (s2, []));
          (s4, up2) = (if 0 < argMetricsPort a
                       then (case StartMetricsServer (argMetricsBind a) (argMetricsPort a) s3 of (s, v) \<Rightarrow> (s, up1 @ [v]))
                       else (s3, up1))
      in case StartServer L (argBind a) (argPort a) (argNoapi a) s4 of
           (s5, Inl err) \<Rightarrow> (ServerFailed err, up2, s5)
         | (s5, Inr v) \<Rightarrow> (Serving, up2 @ [v], s5))"

text \<open>\<open>parseFlags\<close> gives the arguments with the flags applied and what is left of the command
  line.\<close>

definition main ::
  "environment \<Rightarrow> (cli_args \<Rightarrow> cli_args \<times> bytes list) \<Rightarrow> world \<Rightarrow> event sink_lib \<Rightarrow>
   main_end \<times> server list \<times> 'q snooper option" where
  "main en parseFlags W L =
     (let (a, args) = parseFlags (environmentArgs en)
      in if argHelp a then (ShowHelp, [], None)
         else if argVersion a then (ShowVersion, [], None)
         else case chooseTarget en args of
                None \<Rightarrow> (TargetMissing, [], None)
              | Some target \<Rightarrow>
                  (case buildXatuConfig a of
                     Inl err \<Rightarrow> (BadConfig err, [], None)
                   | Inr c \<Rightarrow>
                       (case NewSnooper W target (Some c) (argJwtSecret a) of
                          Inl err \<Rightarrow> (InitFailed err, [], None)
                        | Inr s \<Rightarrow> (case runServers L a s of (r, up, s') \<Rightarrow> (r, up, Some s')))))"

subsection \<open>One observed call\<close>

text \<open>What the modules see of a call and what follows from it: the request and the response go
  through the module manager, in the given orders, and the effects are applied.\<close>

definition observe ::
  "('q, client_meta) env \<Rightarrow> ('q, client_meta) env \<Rightarrow> event sink_lib \<Rightarrow> (bytes \<Rightarrow> execution_metadata) \<Rightarrow> u64 list \<Rightarrow>
   request_ctx \<Rightarrow> response_ctx \<Rightarrow> call_ctx \<Rightarrow> 'q snooper \<Rightarrow> 'q snooper option" where
  "observe E E' L V order rq rs c sn =
     (case ProcessRequest E order rq (snManager sn) \<lparr>callCtx = c, outbox = [], effects = []\<rparr> of
        None \<Rightarrow> None
      | Some (mm1, s1, _) \<Rightarrow>
          (case ProcessResponse E' order rs mm1 s1 of
             None \<Rightarrow> None
           | Some (mm2, s2, _) \<Rightarrow> Some (fold (applyEffect L V) (effects s2) (sn\<lparr>snManager := mm2\<rparr>))))"

subsection \<open>Lemmas\<close>

text \<open>A manager with the Xatu module alone, whose router has the three handlers.\<close>

definition xatu_router :: "router \<Rightarrow> bool" where
  "xatu_router r \<longleftrightarrow> (\<exists>a b. r = [EngineGetBlobs a, EngineNewPayload b, EngineClientVersion])"

definition only_xatu :: "router \<Rightarrow> 'q module_manager \<Rightarrow> bool" where
  "only_xatu r mm \<longleftrightarrow> modules mm = [1 \<mapsto> XatuModule 1 (Some r)] \<and> filters mm = Map.empty \<and> enabled mm"

lemma observe_xatu:
  assumes "only_xatu r (snManager sn)" and "ctxData c = Map.empty"
    and rq: "Xatu_OnRequest E 1 (Some r) rq \<lparr>callCtx = c, outbox = [], effects = []\<rparr> =
      Some (XatuModule 1 (Some r1), \<lparr>callCtx = SetData c 1 ''xatu_handler'' h, outbox = [], effects = []\<rparr>, None)"
    and rs: "Xatu_OnResponse E' 1 (Some r1) rs
        \<lparr>callCtx = SetData c 1 ''xatu_handler'' h, outbox = [], effects = []\<rparr> =
      Some (XatuModule 1 (Some r2), \<lparr>callCtx = SetData c 1 ''xatu_handler'' h, outbox = [], effects = es\<rparr>, None)"
  shows "observe E E' L V [1] rq rs c sn =
    Some (fold (applyEffect L V) es (sn\<lparr>snManager := (snManager sn)\<lparr>modules := [1 \<mapsto> XatuModule 1 (Some r2)]\<rparr>\<rparr>))"
proof -
  have "GetData (SetData c 1 ''xatu_handler'' h) 1 k = None" if "k \<noteq> ''xatu_handler''" for k
    using that assms(2) by (simp add: GetData_def SetData_def dataKey_inject)
  then show ?thesis
    using assms(1)
    by (simp add: observe_def ProcessRequest_def ProcessResponse_def only_xatu_def IsEnabled_def rq rs
        shouldProcessRequest_def shouldProcessResponse_def)
qed

lemma slot_set: "GetData (SetData c i k v) i k = Some v"
  by (simp add: GetData_def SetData_def)

lemma responseEvent_set: "responseEvent (SetData c i k v) rs = responseEvent c rs"
  by (simp add: responseEvent_def ID_def)

lemma respond_clientVersion:
  "respond_at u m r 2 [a, b, EngineClientVersion] =
     ([a, b, EngineClientVersion],
      case clientVersion_HandleResponse r of None \<Rightarrow> [] | Some vs \<Rightarrow> [UpdateMetadata vs])"
  by (simp add: respond_at_def)

lemma route_xatu_newPayload:
  assumes "HasPrefix (rqeMethod e) ''engine_newPayload''"
  shows "RouteRequest now e [EngineGetBlobs a, EngineNewPayload b, EngineClientVersion] =
    ([EngineGetBlobs a, EngineNewPayload (fst (newPayload_HandleRequest now e b)), EngineClientVersion], Some 1)"
proof -
  obtain v where "rqeMethod e = ''engine_newPayload'' @ v"
    using assms by (auto simp: HasPrefix_prefix prefix_def)
  then show ?thesis by (simp add: newPayload_HandleRequest_def)
qed

lemma route_xatu_clientVersion:
  assumes "HasPrefix (rqeMethod e) ''engine_getClientVersion''"
  shows "RouteRequest now e [EngineGetBlobs a, EngineNewPayload b, EngineClientVersion] =
    ([EngineGetBlobs a, EngineNewPayload b, EngineClientVersion], Some 2)"
proof -
  obtain v where "rqeMethod e = ''engine_getClientVersion'' @ v"
    using assms by (auto simp: HasPrefix_prefix prefix_def)
  then show ?thesis by simp
qed

lemma observe_newPayload:
  assumes "only_xatu r (snManager sn)" and "xatu_router r" and "ctxData c = Map.empty"
    and "HasPrefix (extractMethod (rqBody rq)) ''engine_newPayload''"
  shows "\<exists>r'. xatu_router r' \<and> observe E E' L V [1] rq rs c sn =
    Some (applyEffect L V (Publish (newPayload_buildDecoratedEvent (uuid E') (clientMeta E')
        (extractPayloadData (requestEvent c rq)) (responseEvent c rs)))
      (sn\<lparr>snManager := (snManager sn)\<lparr>modules := [1 \<mapsto> XatuModule 1 (Some r')]\<rparr>\<rparr>))"
proof -
  obtain a b where r: "r = [EngineGetBlobs a, EngineNewPayload b, EngineClientVersion]"
    using assms(2) by (auto simp: xatu_router_def)
  let ?e = "requestEvent c rq" and ?w = "responseEvent c rs"
  let ?b = "fst (newPayload_HandleRequest (clock E) ?e b)"
  let ?b' = "fst (newPayload_HandleResponse (uuid E') (clientMeta E') ?w ?b)"
  have ne: "extractMethod (rqBody rq) \<noteq> []" using assms(4) by auto
  have "HasPrefix (rqeMethod ?e) ''engine_newPayload''" using assms(4) by (simp add: requestEvent_def)
  from route_xatu_newPayload [OF this]
  have rq: "Xatu_OnRequest E 1 (Some r) rq \<lparr>callCtx = c, outbox = [], effects = []\<rparr> =
      Some (XatuModule 1 (Some [EngineGetBlobs a, EngineNewPayload ?b, EngineClientVersion]),
        \<lparr>callCtx = SetData c 1 ''xatu_handler'' (Handler 1), outbox = [], effects = []\<rparr>, None)"
    using ne by (simp add: Xatu_OnRequest_def r)
  have "rseCallID ?w = rqeCallID ?e" by (simp add: responseEvent_def requestEvent_def)
  then have "snd (newPayload_HandleResponse (uuid E') (clientMeta E') ?w ?b) =
      [newPayload_buildDecoratedEvent (uuid E') (clientMeta E') (extractPayloadData ?e) ?w]"
    by (simp add: np.response_events np.request_pend)
  then have rs: "Xatu_OnResponse E' 1 (Some [EngineGetBlobs a, EngineNewPayload ?b, EngineClientVersion]) rs
        \<lparr>callCtx = SetData c 1 ''xatu_handler'' (Handler 1), outbox = [], effects = []\<rparr> =
      Some (XatuModule 1 (Some [EngineGetBlobs a, EngineNewPayload ?b', EngineClientVersion]),
        \<lparr>callCtx = SetData c 1 ''xatu_handler'' (Handler 1), outbox = [],
         effects = [Publish (newPayload_buildDecoratedEvent (uuid E') (clientMeta E') (extractPayloadData ?e) ?w)]\<rparr>,
        None)"
    by (simp add: Xatu_OnResponse_def slot_set responseEvent_set respond_newPayload [simplified])
  show ?thesis
    by (intro exI [of _ "[EngineGetBlobs a, EngineNewPayload ?b', EngineClientVersion]"])
       (simp add: observe_xatu [OF assms(1,3) rq rs] xatu_router_def)
qed

lemma observe_clientVersion:
  assumes "only_xatu r (snManager sn)" and "xatu_router r" and "ctxData c = Map.empty"
    and "HasPrefix (extractMethod (rqBody rq)) ''engine_getClientVersion''"
    and "clientVersion_HandleResponse (responseEvent c rs) = Some vs"
  shows "observe E E' L V [1] rq rs c sn =
    Some (applyEffect L V (UpdateMetadata vs) (sn\<lparr>snManager := (snManager sn)\<lparr>modules := [1 \<mapsto> XatuModule 1 (Some r)]\<rparr>\<rparr>))"
proof -
  obtain a b where r: "r = [EngineGetBlobs a, EngineNewPayload b, EngineClientVersion]"
    using assms(2) by (auto simp: xatu_router_def)
  have ne: "extractMethod (rqBody rq) \<noteq> []" using assms(4) by auto
  have "HasPrefix (rqeMethod (requestEvent c rq)) ''engine_getClientVersion''"
    using assms(4) by (simp add: requestEvent_def)
  from route_xatu_clientVersion [OF this]
  have rq: "Xatu_OnRequest E 1 (Some r) rq \<lparr>callCtx = c, outbox = [], effects = []\<rparr> =
      Some (XatuModule 1 (Some r), \<lparr>callCtx = SetData c 1 ''xatu_handler'' (Handler 2), outbox = [], effects = []\<rparr>, None)"
    using ne by (simp add: Xatu_OnRequest_def r)
  have rs: "Xatu_OnResponse E' 1 (Some r) rs
        \<lparr>callCtx = SetData c 1 ''xatu_handler'' (Handler 2), outbox = [], effects = []\<rparr> =
      Some (XatuModule 1 (Some r), \<lparr>callCtx = SetData c 1 ''xatu_handler'' (Handler 2), outbox = [],
        effects = [UpdateMetadata vs]\<rparr>, None)"
    using assms(5) by (simp add: Xatu_OnResponse_def slot_set responseEvent_set r respond_clientVersion)
  show ?thesis by (simp add: observe_xatu [OF assms(1,3) rq rs])
qed

text \<open>A new snooper.\<close>

lemma NewSnooper_xatu:
  assumes "NewSnooper W t (Some c) j = Inr s" and "xcEnabled c"
  shows "only_xatu serviceRouter (snManager s) \<and> fresh_service c (snXatu s) \<and> svc_IsEnabled (snXatu s) \<and>
    (\<exists>tu. snFetcher s = Some (NewExecutionMetadataFetcher (readFile W) tu j))"
  using assms
  by (auto simp: NewSnooper_def NewService_def only_xatu_def GenerateModuleID_def NewModuleManager_def
      RegisterModule_def serviceRouter_def fresh_service_def pub_SetMetadataProvider_def NewPublisher_def Let_def
      split: option.splits sum.splits if_splits)

lemma serviceRouter_xatu: "xatu_router serviceRouter"
  by (simp add: xatu_router_def serviceRouter_def RegisterMetadataUpdateCallback_def registerHandlers_def Register_def)

lemma StartServer_feeds:
  assumes "fresh_service c (snXatu s)" "svc_IsEnabled (snXatu s)" "StartServer L host port noAPI s = (s', Inr v)"
  shows "feeds_outputs (xcOutputs c) (snXatu s') \<and> snManager s' = snManager s \<and> snFetcher s' = snFetcher s \<and>
    list_all (\<lambda>out. ocType out \<in> {''stdout'', ''http'', ''xatu''}) (xcOutputs c)"
proof -
  obtain svc where "svc_Start L (snXatu s) = (svc, None)" "s' = s\<lparr>snXatu := svc\<rparr>"
    using assms(2,3) by (auto simp: StartServer_def split: prod.splits option.splits)
  with start_feeds [OF assms(1)] show ?thesis by simp
qed

lemma only_xatu_update: "only_xatu r mm \<Longrightarrow> only_xatu r' (mm\<lparr>modules := [1 \<mapsto> XatuModule 1 (Some r')]\<rparr>)"
  by (simp add: only_xatu_def)

lemma applyEffect_manager: "snManager (applyEffect L V e s) = snManager s"
  by (cases e) simp_all

lemma StartServer_kafka:
  assumes "fresh_service c (snXatu s)" "svc_IsEnabled (snXatu s)" "out \<in> set (xcOutputs c)" "ocType out = ''kafka''"
  shows "\<exists>s' err. StartServer L host port noAPI s = (s', Inl err)"
proof (cases "snd (StartServer L host port noAPI s)")
  case (Inl err)
  then show ?thesis by (metis prod.collapse)
next
  case (Inr v)
  then have "StartServer L host port noAPI s = (fst (StartServer L host port noAPI s), Inr v)" by (metis prod.collapse)
  from StartServer_feeds [OF assms(1,2) this] assms(3,4) show ?thesis by (auto simp: list_all_iff)
qed

lemma runServers_kafka:
  assumes "fresh_service c (snXatu s)" "svc_IsEnabled (snXatu s)" "out \<in> set (xcOutputs c)" "ocType out = ''kafka''"
    and "runServers L a s = (r, up, s')"
  shows "r \<noteq> Serving \<and> list_all (\<lambda>v. case v of MainServer h p n \<Rightarrow> False | _ \<Rightarrow> True) up"
proof -
  have "\<exists>s'' err. StartServer L h p n s4 = (s'', Inl err)" if "snXatu s4 = snXatu s" for s4 h p n
    using that StartServer_kafka [of c s4 out L h p n] assms(1-4) by simp
  note fails = this
  define s2 where "s2 = (let s1 = (if argTruncate a then EnableLogTruncation s else s)
    in if argHideBodies a then EnableHideBodies s1 else s1)"
  have s2: "snXatu s2 = snXatu s" by (simp add: s2_def EnableLogTruncation_def EnableHideBodies_def Let_def)
  define s3 where "s3 = (if 0 < argApiPort a then fst (StartAPIServer (argApiBind a) (argApiPort a) (argApiAuth a) s2) else s2)"
  define s4 where "s4 = (if 0 < argMetricsPort a then fst (StartMetricsServer (argMetricsBind a) (argMetricsPort a) s3) else s3)"
  have "snXatu s4 = snXatu s" using s2 by (simp add: s4_def s3_def StartAPIServer_def StartMetricsServer_def)
  then obtain s'' err where "StartServer L (argBind a) (argPort a) (argNoapi a) s4 = (s'', Inl err)"
    using fails by blast
  then show ?thesis
    using assms(5)
    by (auto simp: runServers_def Let_def s4_def s3_def s2_def StartAPIServer_def StartMetricsServer_def split: if_splits)
qed

subsection \<open>Properties\<close>

text \<open>C4: From start-up to the sinks. Once the server has started, an engine_newPayload call seen
  before any client version is known leaves no trace on the sinks; after one observed
  engine_getClientVersion call that named a client, the next engine_newPayload call hands
  its own event once to one sink for each configured output, in their order.\<close>

theorem observed_calls_reach_sinks:
  assumes "NewSnooper W t (Some c) j = Inr sn0" and "xcEnabled c"
    and "StartServer L host port noAPI sn0 = (sn, Inr v)"
    and "HasPrefix (extractMethod (rqBody rq1)) ''engine_getClientVersion''" and "ctxData c1 = Map.empty"
    and "clientVersion_HandleResponse (responseEvent c1 rs1) = Some vs"
    and "HasPrefix (extractMethod (rqBody rq2)) ''engine_newPayload''" and "ctxData c2 = Map.empty"
  shows "\<exists>sn1 sn2 early ss.
    observe E2 E2' L2 V [1] rq2 rs2 c2 sn = Some early \<and> svc_calls (snXatu early) = svc_calls (snXatu sn) \<and>
    observe E1 E1' L1 V [1] rq1 rs1 c1 sn = Some sn1 \<and> observe E2 E2' L2 V [1] rq2 rs2 c2 sn1 = Some sn2 \<and>
    map sink_Name ss = sinkNames 0 (xcOutputs c) \<and>
    svc_calls (snXatu sn2) = svc_calls (snXatu sn) @
      map (\<lambda>s. let ev = newPayload_buildDecoratedEvent (uuid E2') (clientMeta E2')
                          (extractPayloadData (requestEvent c2 rq2)) (responseEvent c2 rs2)
               in SinkHandle s ev (sinkHandle L2 s ev)) ss"
proof -
  let ?ev = "newPayload_buildDecoratedEvent (uuid E2') (clientMeta E2')
    (extractPayloadData (requestEvent c2 rq2)) (responseEvent c2 rs2)"
  note new = NewSnooper_xatu [OF assms(1,2)]
  then have feeds: "feeds_outputs (xcOutputs c) (snXatu sn)" and only: "only_xatu serviceRouter (snManager sn)"
    and f: "snFetcher sn = snFetcher sn0"
    using StartServer_feeds [OF _ _ assms(3)] by auto
  have silent: "snFetcher sn \<noteq> None \<and> Option.bind (snFetcher sn) Get = None"
    using new f by (auto simp: NewExecutionMetadataFetcher_def Get_def)
  obtain early where early: "observe E2 E2' L2 V [1] rq2 rs2 c2 sn = Some early"
      "svc_calls (snXatu early) = svc_calls (snXatu sn)"
    using observe_newPayload [OF only serviceRouter_xatu assms(8,7), of E2 E2' L2 V rs2] silent
    by (auto simp: publish_silent)
  let ?sn1 = "applyEffect L1 V (UpdateMetadata vs)
    (sn\<lparr>snManager := (snManager sn)\<lparr>modules := [1 \<mapsto> XatuModule 1 (Some serviceRouter)]\<rparr>\<rparr>)"
  have sn1: "observe E1 E1' L1 V [1] rq1 rs1 c1 sn = Some ?sn1"
    by (rule observe_clientVersion [OF only serviceRouter_xatu assms(5,4,6)])
  have "vs \<noteq> []" using assms(6) by (auto simp: clientVersion_HandleResponse_def split: option.splits if_splits)
  then obtain md where md: "Option.bind (snFetcher ?sn1) Get = Some md"
    using silent by (auto simp: Update_def Get_def)
  have only1: "only_xatu serviceRouter (snManager ?sn1)" using only_xatu_update [OF only] by (simp add: only_xatu_def)
  obtain r' where sn2: "observe E2 E2' L2 V [1] rq2 rs2 c2 ?sn1 =
      Some (applyEffect L2 V (Publish ?ev) (?sn1\<lparr>snManager := (snManager ?sn1)\<lparr>modules := [1 \<mapsto> XatuModule 1 (Some r')]\<rparr>\<rparr>))"
    using observe_newPayload [OF only1 serviceRouter_xatu assms(8,7), of E2 E2' L2 V rs2] by blast
  obtain ss where "map sink_Name ss = sinkNames 0 (xcOutputs c)"
    "svc_calls (fst (svc_Publish L2 (Some md) ?ev (snXatu sn))) =
      svc_calls (snXatu sn) @ map (\<lambda>s. SinkHandle s ?ev (sinkHandle L2 s ?ev)) ss"
    using publish_feeds [OF feeds] by blast
  then have "svc_calls (snXatu (applyEffect L2 V (Publish ?ev)
      (?sn1\<lparr>snManager := (snManager ?sn1)\<lparr>modules := [1 \<mapsto> XatuModule 1 (Some r')]\<rparr>\<rparr>))) =
      svc_calls (snXatu sn) @ map (\<lambda>s. SinkHandle s ?ev (sinkHandle L2 s ?ev)) ss"
    using md by simp
  with early sn1 sn2 \<open>map sink_Name ss = _\<close> show ?thesis by (auto simp: Let_def)
qed

text \<open>A world for the examples.\<close>

definition sample_world :: world where
  "sample_world = \<lparr>parseURL = (\<lambda>t. Some \<lparr>tuString = t, tuHost = t, tuScheme = ''http''\<rparr>), readFile = (\<lambda>_. None)\<rparr>"

definition working_lib :: "'e sink_lib" where
  "working_lib = \<lparr>defaultsSet = Some, sinkNew = (\<lambda>_ _. True), sinkStart = (\<lambda>_. True), sinkStop = (\<lambda>_. True),
     sinkHandle = (\<lambda>_ _. True)\<rparr>"

definition engine_env :: "(unit, client_meta) env" where
  "engine_env =
     \<lparr>unmarshal = (\<lambda>_. None), jqParse = (\<lambda>_. None), jqRun = (\<lambda>_ _ _. None), writeOk = (\<lambda>_ _. True),
      clock = 7, uuid = ''id'', clientMeta = pub_ClientMeta ''v1'' None (NewPublisher sample_config :: event publisher),
      errText = []\<rparr>"

definition first_call :: call_ctx where
  "first_call = snd (newProxyCallContext 0 0 60000000000 False)"

definition version_request :: request_ctx where
  "version_request = engine_request\<lparr>rqBody := DataBody (JObj [(''method'', JStr ''engine_getClientVersionV1'')])\<rparr>"

definition version_response :: response_ctx where
  "version_response = engine_response\<lparr>rsBody := DataBody (JObj [(''result'', JArr [JNull])])\<rparr>"

definition sample_snooper :: "unit snooper" where
  "sample_snooper =
     (case NewSnooper sample_world ''t'' (Some sample_config) [] of Inr s \<Rightarrow> s | Inl _ \<Rightarrow> undefined)"

lemma sample_snooper_new: "NewSnooper sample_world ''t'' (Some sample_config) [] = Inr sample_snooper"
  by (simp add: sample_snooper_def NewSnooper_def sample_world_def NewService_def sample_config_def Validate_def
      OutputConfig_Validate_def output_types Let_def split_def)

lemma sample_started: "\<exists>sn v. StartServer working_lib ''h'' 1 True sample_snooper = (sn, Inr v)"
proof -
  have "snd (svc_Start working_lib (snXatu sample_snooper)) = None"
    by (simp add: sample_snooper_def NewSnooper_def sample_world_def NewService_def sample_config_def Validate_def
        OutputConfig_Validate_def output_types pub_SetMetadataProvider_def NewPublisher_def real_Start_def
        pub_Start_def createSink_def newSink_def working_lib_def log_call_def Let_def split_def)
  then show ?thesis
    by (cases "svc_Start working_lib (snXatu sample_snooper)") (auto simp: StartServer_def)
qed

theorem observed_calls_reach_sinks_witness:
  "\<exists>sn sn1 sn2 v. StartServer working_lib ''h'' 1 True sample_snooper = (sn, Inr v) \<and>
     observe engine_env engine_env working_lib (\<lambda>_. sample_metadata) [1] version_request version_response first_call sn = Some sn1 \<and>
     observe engine_env engine_env working_lib (\<lambda>_. sample_metadata) [1] engine_request engine_response first_call sn1 = Some sn2 \<and>
     length (svc_calls (snXatu sn2)) = length (svc_calls (snXatu sn)) + 1"
proof -
  have e: "xcEnabled sample_config" "length (xcOutputs sample_config) = 1" by (simp_all add: sample_config_def)
  have c: "ctxData first_call = Map.empty" by (simp add: first_call_def newProxyCallContext_def)
  have m: "HasPrefix (extractMethod (rqBody version_request)) ''engine_getClientVersion''"
    "HasPrefix (extractMethod (rqBody engine_request)) ''engine_newPayload''"
    by (simp_all add: version_request_def engine_request_def extractMethod_def str_field_def field_def)
  obtain vs where r: "clientVersion_HandleResponse (responseEvent first_call version_response) = Some vs"
    by (simp add: clientVersion_HandleResponse_def responseEvent_def version_response_def engine_response_def
        extractResult_def extractRPCError_def field_def obj_field_def)
  obtain sn v where s: "StartServer working_lib ''h'' 1 True sample_snooper = (sn, Inr v)"
    using sample_started by blast
  obtain sn1 sn2 ss where
    "observe engine_env engine_env working_lib (\<lambda>_. sample_metadata) [1] version_request version_response first_call sn = Some sn1"
    "observe engine_env engine_env working_lib (\<lambda>_. sample_metadata) [1] engine_request engine_response first_call sn1 = Some sn2"
    "map sink_Name ss = sinkNames 0 (xcOutputs sample_config)"
    "length (svc_calls (snXatu sn2)) = length (svc_calls (snXatu sn)) + length ss"
    using observed_calls_reach_sinks [OF sample_snooper_new e(1) s m(1) c r m(2) c, of engine_env engine_env working_lib
        "\<lambda>_. sample_metadata"
        engine_response engine_env engine_env working_lib]
    by auto
  moreover from this(3) have "length ss = 1" using e(2) by (metis length_map length_sinkNames)
  ultimately show ?thesis using s by auto
qed

text \<open>A new snooper lets calls through and has a fresh sequencer; with Xatu it has the Xatu
  module as module 1, with all three handlers, and a metadata fetcher that knows nothing yet;
  without Xatu it has neither. Its module manager is one from which the registry's
  invariants start.\<close>

theorem new_snooper_wiring:
  assumes "NewSnooper W t cfg j = Inr s"
  shows "mgr_reachable E (snManager s) \<and> snFlow s = initial_flow \<and> snOrdered s = NewOrderedProcessor \<and>
    (if svc_IsEnabled (snXatu s)
     then only_xatu serviceRouter (snManager s) \<and> (\<exists>f. snFetcher s = Some f \<and> Get f = None)
     else snManager s = NewModuleManager \<and> snFetcher s = None \<and> snXatu s = NoopService)"
proof (cases "svc_IsEnabled (snXatu s)")
  case True
  then obtain c where c: "cfg = Some c" "xcEnabled c"
    using assms by (auto simp: NewSnooper_def NewService_def Let_def split: option.splits sum.splits if_splits)
  have "\<exists>i mm r. GenerateModuleID NewModuleManager = (i, mm) \<and> snManager s = RegisterModule (XatuModule i r) None mm"
    using assms True by (auto simp: NewSnooper_def Let_def split: option.splits sum.splits if_splits prod.splits)
  then have "mgr_reachable E (snManager s)" using mgr_reachable.InitXatu by metis
  with NewSnooper_xatu [OF assms [unfolded c(1)] c(2)] True assms show ?thesis
    by (auto simp: NewExecutionMetadataFetcher_def Get_def NewSnooper_def Let_def split_def
        split: option.splits sum.splits if_splits)
next
  case False
  then show ?thesis
    using assms by (auto simp: NewSnooper_def NewService_def Let_def split_def mgr_reachable.Init
        split: option.splits sum.splits if_splits)
qed

theorem new_snooper_wiring_witness:
  "mgr_reachable engine_env (snManager sample_snooper) \<and> snFlow sample_snooper = initial_flow"
  using new_snooper_wiring [OF sample_snooper_new, of engine_env] by blast

text \<open>C36: An output of type kafka passes validation, yet with one the program never gets to serve
  a call: the main server is not started, whatever the sink library does.\<close>

theorem kafka_never_serves:
  fixes sn :: "'q snooper option"
  assumes "main en parseFlags W L = (r, up, sn)" and "parseFlags (environmentArgs en) = (a, args)"
    and "buildXatuConfig a = Inr c" and "out \<in> set (xcOutputs c)" and "ocType out = ''kafka''"
    and "ocAddress out \<noteq> []"
  shows "OutputConfig_Validate out = None \<and> r \<noteq> Serving \<and>
    list_all (\<lambda>v. case v of MainServer h p n \<Rightarrow> False | _ \<Rightarrow> True) up"
proof -
  have c: "xcEnabled c" using assms(3,4) by (auto simp: buildXatuConfig_def disabled_config_def split: if_splits sum.splits)
  have "r \<noteq> Serving \<and> list_all (\<lambda>v. case v of MainServer h p n \<Rightarrow> False | _ \<Rightarrow> True) up"
  proof (cases "argHelp a \<or> argVersion a \<or> chooseTarget en args = None")
    case True
    then show ?thesis using assms(1,2) by (auto simp: main_def split: if_splits)
  next
    case False
    then obtain t where t: "\<not> argHelp a" "\<not> argVersion a" "chooseTarget en args = Some t" by auto
    show ?thesis
    proof (cases "NewSnooper W t (Some c) (argJwtSecret a) :: init_error + 'q snooper")
      case (Inl err)
      then show ?thesis using assms(1-3) t by (auto simp: main_def)
    next
      case (Inr s)
      with assms(1-3) t have "runServers L a s = (r, up, the sn)" by (auto simp: main_def split: prod.splits)
      moreover have "fresh_service c (snXatu s)" "svc_IsEnabled (snXatu s)"
        using NewSnooper_xatu [OF Inr c] by auto
      ultimately show ?thesis using runServers_kafka assms(4,5) by blast
    qed
  qed
  with assms(5,6) show ?thesis by (simp add: OutputConfig_Validate_def output_types)
qed

definition kafka_args :: "cli_args" where
  "kafka_args = (environmentArgs \<lparr>getenv = \<lambda>_. [], parseDuration = \<lambda>_. None\<rparr>)\<lparr>xatuEnabled := True, xatuName := ''n'',
     xatuNetworkName := ''dev'', xatuNetworkID := 1, xatuOutputs := [''kafka:b:9092/t'']\<rparr>"

theorem kafka_never_serves_witness:
  "\<exists>r up sn. main kafka_environment (\<lambda>_. (kafka_args, [''snooper'', ''http://t''])) sample_world working_lib =
     (r, up, sn :: unit snooper option) \<and> r \<noteq> Serving"
proof -
  let ?out = "\<lparr>ocType = ''kafka'', ocAddress = ''b:9092/t''\<rparr>"
  obtain r up and sn :: "unit snooper option" where
    m: "main kafka_environment (\<lambda>_. (kafka_args, [''snooper'', ''http://t''])) sample_world working_lib = (r, up, sn)"
    by (metis prod_cases3)
  have t: "TrimSpace ''kafka:b:9092/t'' = ''kafka:b:9092/t''" by (simp add: TrimSpace_visible visible_def)
  have "parseAll ''output'' ParseOutputFlag (xatuOutputs kafka_args) = Inr [?out]"
    by (simp add: kafka_args_def ParseOutputFlag_def t output_types)
  moreover have "xatuLabels kafka_args = []" "xatuHeaders kafka_args = []" "xatuEnabled kafka_args"
    by (simp_all add: kafka_args_def environmentArgs_def getEnvStringSlice_def)
  ultimately obtain c where "buildXatuConfig kafka_args = Inr c" "?out \<in> set (xcOutputs c)"
    by (simp add: buildXatuConfig_def)
  with kafka_never_serves [OF m] m show ?thesis by auto
qed

text \<open>A snooper can be shut down once: the second time closes a closed channel and panics.\<close>

theorem second_shutdown_panics:
  assumes "\<not> stopClosed (snOrdered s)" and "map_option mfDone (snFetcher s) \<noteq> Some True"
  shows "\<exists>s'. Shutdown L s = Inr s' \<and> Shutdown L' s' = Inl CloseOfClosedChannel"
  using assms by (cases "snFetcher s") (auto simp: Shutdown_def Stop_def stopFetcher_def fetcher_Stop_def)

theorem second_shutdown_panics_witness:
  "\<exists>s'. Shutdown working_lib sample_snooper = Inr s' \<and> Shutdown working_lib s' = Inl CloseOfClosedChannel"
  by (rule second_shutdown_panics)
     (auto simp: sample_snooper_def NewSnooper_def sample_world_def NewService_def sample_config_def Validate_def
      OutputConfig_Validate_def output_types Let_def split_def NewOrderedProcessor_def NewExecutionMetadataFetcher_def)

text \<open>Credentials guard the separate API server only: a request to stop the flow that the API
  server turns away is carried out by the main server, unless it was started without the API.\<close>

theorem main_server_asks_no_credentials:
  assumes "rPath r = ''/_snooper/stop''" and "rMethod r = ''POST''" and "parseAuthConfig cfg \<noteq> []"
    and "\<not> authorised (parseAuthConfig cfg) (req_header_get r ''Authorization'')"
  shows "apiServerHandler cfg router r w = sendUnauthorized w \<and>
    fst (mainHandler False other target N f r w) = f\<lparr>flowEnabled := False\<rparr> \<and>
    fst (mainHandler True other target N f r w) = f"
  using assms
  by (simp add: apiServerHandler_def authMiddleware_def mainHandler_def api_route_def api_routes_def handleStop_def)

theorem main_server_asks_no_credentials_witness:
  "status_of (apiServerHandler ''u:p'' router (plain_request ''POST'' ''/_snooper/stop'' Map.empty) rw_new) = Some 401 \<and>
   fst (mainHandler False other ''t'' N initial_flow (plain_request ''POST'' ''/_snooper/stop'' Map.empty) rw_new) =
     initial_flow\<lparr>flowEnabled := False\<rparr>"
proof -
  let ?r = "plain_request ''POST'' ''/_snooper/stop'' Map.empty"
  have a: "parseAuthConfig ''u:p'' = [(''u'', ''p'')]"
    by (simp add: parseAuthConfig_def Split_def addCredential_def SplitN2_def Cut_def)
  have "\<not> authorised (parseAuthConfig ''u:p'') (req_header_get ?r ''Authorization'')"
    by (simp add: authorised_def plain_request_def req_header_get_def header_get_def)
  with main_server_asks_no_credentials [of ?r "''u:p''" router rw_new other "''t''" N initial_flow] show ?thesis
    by (simp add: plain_request_def a unauthorised_reply)
qed

end
