(* ===== verification/HookClient.thy ===== *)
theory HookClient
  imports Manager Auth
begin

text \<open>
  The hook client \<open>cmd/snooper-hook/main.go\<close> and the JSON form of the messages
  (\<open>modules/protocol\<close>). A waiting request's channel holds one response: it is an optional
  response in the map of pending requests. What the handlers of events log is a value. URL and
  JSON parsing and the web socket are parameters; the frames read are those of \<open>Manager\<close>.
\<close>

subsection \<open>Messages on the wire\<close>

fun call_value_json :: "call_value \<Rightarrow> json" where
  "call_value_json (Any v) = v"
| "call_value_json (IntVal n) = JNum (of_int n)"
| "call_value_json (Handler k) = JNull"

definition json_u64 :: "u64 \<Rightarrow> json" where
  "json_u64 w = JNum (of_nat (unat w))"

text \<open>\<open>omitempty\<close> leaves a field out.\<close>

definition omit :: "bool \<Rightarrow> bytes \<Rightarrow> json \<Rightarrow> (bytes \<times> json) list" where
  "omit zero k v = (if zero then [] else [(k, v)])"

fun wire_json :: "msg_data \<Rightarrow> json" where
  "wire_json NoData = JNull"
| "wire_json (JsonData v) = v"
| "wire_json (RegisterData d) =
     JObj ([(''success'', JBool (rrSuccess d))] @ omit (rrModuleID d = 0) ''module_id'' (json_u64 (rrModuleID d)) @
       omit (rrMessage d = []) ''message'' (JStr (rrMessage d)))"
| "wire_json (HookData d) =
     JObj [(''module_id'', json_u64 (heModuleID d)), (''hook_type'', JStr (heHookType d)),
       (''request_id'', json_u64 (heRequestID d)), (''data'', JNull), (''content_type'', JStr (heContentType d))]"
| "wire_json (CounterData d) =
     JObj [(''module_id'', json_u64 (ceModuleID d)), (''count'', JNum (of_int (ceCount d))),
       (''request_type'', JStr (ceRequestType d))]"
| "wire_json (TracerData d) =
     JObj ([(''module_id'', json_u64 (teModuleID d)), (''request_id'', json_u64 (teRequestID d)),
       (''duration_ms'', JNum (of_int (teDuration d))), (''response_size'', JNum (of_int (teResponseSize d))),
       (''request_size'', JNum (of_int (teRequestSize d))), (''status_code'', JNum (of_int (teStatusCode d)))] @
       (case teRequestData d of None \<Rightarrow> [] | Some v \<Rightarrow> [(''request_data'', call_value_json v)]) @
       omit (teResponseData d = JNull) ''response_data'' (teResponseData d))"

text \<open>What the other side has after decoding.\<close>

definition received :: "ws_message \<Rightarrow> ws_message" where
  "received msg =
     msg\<lparr>wmData := (if wire_json (wmData msg) = JNull then NoData else JsonData (wire_json (wmData msg)))\<rparr>"

subsection \<open>Flags and connection\<close>

definition validTypes :: "bytes list" where
  "validTypes = [''request_snooper'', ''response_snooper'', ''request_counter'', ''response_tracer'']"

record hook_config =
  hkURL :: bytes
  hkModuleType :: bytes
  hkModuleName :: bytes
  hkConfig :: "(bytes \<times> json) list"
  hkVerbose :: bool

text \<open>\<open>parseFlags\<close> after the flag parser: \<open>None\<close> is the fatal exit. The configuration text must
  hold an object or \<open>null\<close>.\<close>

definition hook_parseFlags :: "(bytes \<Rightarrow> json option) \<Rightarrow> bytes \<Rightarrow> hook_config \<Rightarrow> hook_config option" where
  "hook_parseFlags unmarshalJSON configStr cfg0 =
     (let parsed = (if configStr \<noteq> ''{}''
                    then (case unmarshalJSON configStr of
                            Some (JObj kvs) \<Rightarrow> Some kvs
                          | Some JNull \<Rightarrow> Some []
                          | _ \<Rightarrow> None)
                    else Some [])
      in case parsed of
           None \<Rightarrow> None
         | Some kvs \<Rightarrow>
             if hkModuleType cfg0 \<notin> set validTypes then None else Some (cfg0\<lparr>hkConfig := kvs\<rparr>))"

text \<open>The URL without its credentials, and the header for them.\<close>

definition hook_basic_auth :: "bytes \<times> bytes \<Rightarrow> bytes" where
  "hook_basic_auth up = ''Basic '' @ b64_encode (fst up @ '':'' @ snd up)"

definition hook_Connect :: "(bytes \<Rightarrow> (bytes \<times> (bytes \<times> bytes) option) option) \<Rightarrow> hook_config \<Rightarrow> (bytes \<times> bytes option) option" where
  "hook_Connect parseWsURL cfg =
     (case parseWsURL (hkURL cfg) of
        None \<Rightarrow> None
      | Some (u, None) \<Rightarrow> Some (u, None)
      | Some (u, Some up) \<Rightarrow> Some (u, Some (hook_basic_auth up)))"

subsection \<open>Requests\<close>

record hook_client =
  hcRequestCounter :: u64
  hcPending :: "u64 \<rightharpoonup> (ws_message \<times> bytes option) option"
  hcModuleID :: u64
  hcCancelled :: bool

definition new_hook_client :: hook_client where
  "new_hook_client = \<lparr>hcRequestCounter = 0, hcPending = Map.empty, hcModuleID = 0, hcCancelled = False\<rparr>"

definition hook_request :: "u64 \<Rightarrow> bytes \<Rightarrow> msg_data \<Rightarrow> bool \<Rightarrow> int \<Rightarrow> ws_message" where
  "hook_request i meth data bin now =
     \<lparr>wmRequestID = i, wmResponseID = 0, wmModuleID = 0, wmMethod = meth, wmData = data, wmError = None,
      wmTimestamp = now, wmBinary = bin\<rparr>"

text \<open>\<open>sendRequest\<close> up to its select: the id, the frames written, or the error of a write, after
  which the request is forgotten.\<close>

definition hook_forget :: "u64 \<Rightarrow> hook_client \<Rightarrow> hook_client" where
  "hook_forget i hc = hc\<lparr>hcPending := (hcPending hc)(i := None)\<rparr>"

definition sendRequest ::
  "(frame \<Rightarrow> bool) \<Rightarrow> bytes \<Rightarrow> msg_data \<Rightarrow> bytes option \<Rightarrow> int \<Rightarrow> hook_client \<Rightarrow>
   (bytes + u64) \<times> frame list \<times> hook_client" where
  "sendRequest wsWrite meth data binaryData now hc =
     (let i = hcRequestCounter hc + 1;
          msg = JsonFrame (hook_request i meth data (binaryData \<noteq> None) now);
          hc1 = hc\<lparr>hcRequestCounter := i, hcPending := (hcPending hc)(i \<mapsto> None)\<rparr>
      in if \<not> wsWrite msg then (Inl ''failed to send request'', [], hook_forget i hc1)
         else case binaryData of
                None \<Rightarrow> (Inr i, [msg], hc1)
              | Some b \<Rightarrow>
                  if wsWrite (BinaryFrame b) then (Inr i, [msg, BinaryFrame b], hc1)
                  else (Inl ''failed to send binary message'', [msg], hook_forget i hc1))"

text \<open>The select: a response, or the end of the context with or without cancellation; \<open>None\<close> while
  nothing is ready. With both ready, \<open>pick\<close> says which one Go takes.\<close>

definition awaitResponse ::
  "bool \<Rightarrow> bool \<Rightarrow> u64 \<Rightarrow> hook_client \<Rightarrow> ((bytes + ws_message \<times> bytes option) \<times> hook_client) option" where
  "awaitResponse timeout pick i hc =
     (let ended = timeout \<or> hcCancelled hc;
          failure = Inl (if hcCancelled hc then ''context cancelled'' else ''request timeout'')
      in case hcPending hc i of
           Some (Some resp) \<Rightarrow> Some (if ended \<and> \<not> pick then failure else Inr resp, hook_forget i hc)
         | _ \<Rightarrow> if ended then Some (failure, hook_forget i hc) else None)"

definition registerRequest :: "hook_config \<Rightarrow> msg_data" where
  "registerRequest cfg =
     JsonData (JObj [(''type'', JStr (hkModuleType cfg)), (''name'', JStr (hkModuleName cfg)),
       (''config'', JObj (hkConfig cfg))])"

text \<open>\<open>RegisterModule\<close> on the response: the id of the module or the error.\<close>

definition hook_registered :: "ws_message \<Rightarrow> bytes + u64" where
  "hook_registered response =
     (case wmError response of
        Some err \<Rightarrow> Inl (''registration failed: '' @ err)
      | None \<Rightarrow>
          (case as_obj (message_json (wmData response)) of
             None \<Rightarrow> Inl ''invalid registration response''
           | Some regResp \<Rightarrow>
               (case (bool_field regResp ''success'', num_field regResp ''module_id'') of
                  (Some True, Some q) \<Rightarrow> Inr (of_int (trunc_rat q))
                | _ \<Rightarrow> (case str_field regResp ''message'' of
                          Some msg \<Rightarrow> Inl (''registration failed: '' @ msg)
                        | None \<Rightarrow> Inl ''invalid registration response''))))"

definition hook_RegisterModule :: "ws_message \<Rightarrow> hook_client \<Rightarrow> (bytes + unit) \<times> hook_client" where
  "hook_RegisterModule response hc =
     (case hook_registered response of
        Inl err \<Rightarrow> (Inl err, hc)
      | Inr i \<Rightarrow> (Inr (), hc\<lparr>hcModuleID := i\<rparr>))"

subsection \<open>Events\<close>

datatype hook_log =
    HookLogged bytes rat bytes "bytes option"
  | CounterLogged int bytes
  | TracerLogged rat int int int int json json
  | UnknownMethod bytes
  | InvalidData

definition num_or_zero :: "(bytes \<times> json) list \<Rightarrow> bytes \<Rightarrow> rat" where
  "num_or_zero kvs k = (case num_field kvs k of None \<Rightarrow> 0 | Some q \<Rightarrow> q)"

definition str_or_empty :: "(bytes \<times> json) list \<Rightarrow> bytes \<Rightarrow> bytes" where
  "str_or_empty kvs k = (case str_field kvs k of None \<Rightarrow> [] | Some s \<Rightarrow> s)"

text \<open>\<open>pretty\<close> decodes a body into an object and prints it indented.\<close>

definition handleHookEvent :: "(bytes \<Rightarrow> bytes option) \<Rightarrow> ws_message \<Rightarrow> bytes option \<Rightarrow> hook_log" where
  "handleHookEvent pretty msg data =
     (case as_obj (message_json (wmData msg)) of
        None \<Rightarrow> InvalidData
      | Some d \<Rightarrow>
          HookLogged (str_or_empty d ''hook_type'') (num_or_zero d ''request_id'') (str_or_empty d ''content_type'')
            (pretty (case data of None \<Rightarrow> [] | Some b \<Rightarrow> b)))"

definition handleCounterEvent :: "ws_message \<Rightarrow> hook_log" where
  "handleCounterEvent msg =
     (case as_obj (message_json (wmData msg)) of
        None \<Rightarrow> InvalidData
      | Some d \<Rightarrow> CounterLogged (trunc_rat (num_or_zero d ''count'')) (str_or_empty d ''request_type''))"

definition handleTracerEvent :: "ws_message \<Rightarrow> hook_log" where
  "handleTracerEvent msg =
     (case as_obj (message_json (wmData msg)) of
        None \<Rightarrow> InvalidData
      | Some d \<Rightarrow>
          TracerLogged (num_or_zero d ''request_id'') (trunc_rat (num_or_zero d ''duration_ms''))
            (trunc_rat (num_or_zero d ''status_code'')) (trunc_rat (num_or_zero d ''request_size''))
            (trunc_rat (num_or_zero d ''response_size'')) (field d ''request_data'') (field d ''response_data''))"

definition hook_handleJSONMessage ::
  "(bytes \<Rightarrow> bytes option) \<Rightarrow> ws_message \<Rightarrow> bytes option \<Rightarrow> hook_client \<Rightarrow> hook_client \<times> hook_log option" where
  "hook_handleJSONMessage pretty msg data hc =
     (if wmResponseID msg \<noteq> 0
      then (case hcPending hc (wmResponseID msg) of
              Some None \<Rightarrow> (hc\<lparr>hcPending := (hcPending hc)(wmResponseID msg \<mapsto> Some (msg, data))\<rparr>, None)
            | Some (Some _) \<Rightarrow> (hc, None)
            | None \<Rightarrow> (hc, None))
      else (hc, Some (if wmMethod msg = ''hook_event'' then handleHookEvent pretty msg data
                      else if wmMethod msg = ''counter_event'' then handleCounterEvent msg
                      else if wmMethod msg = ''tracer_event'' then handleTracerEvent msg
                      else UnknownMethod (wmMethod msg))))"

text \<open>One turn of the reading loop; a read error also cancels the client, an undecodable text only
  ends the loop.\<close>

fun hook_readFrame :: "reader \<Rightarrow> incoming \<Rightarrow> hook_client \<Rightarrow> reader \<times> reading \<times> hook_client" where
  "hook_readFrame r ReadError hc = (r, Leave, hc\<lparr>hcCancelled := True\<rparr>)"
| "hook_readFrame r (Text None) hc = (r, Leave, hc)"
| "hook_readFrame r (Text (Some msg)) hc =
     (if wmBinary msg then (r\<lparr>expectingBinary := True, lastJSONMessage := Some msg\<rparr>, Continue, hc)
      else (r, Deliver msg None, hc))"
| "hook_readFrame r (Binary data) hc =
     (case lastJSONMessage r of
        Some msg \<Rightarrow> if expectingBinary r
                    then (r\<lparr>expectingBinary := False, lastJSONMessage := None\<rparr>, Deliver msg (Some data), hc)
                    else (r, Continue, hc)
      | None \<Rightarrow> (r, Continue, hc))"

fun handleMessages ::
  "(bytes \<Rightarrow> bytes option) \<Rightarrow> reader \<Rightarrow> incoming list \<Rightarrow> hook_client \<Rightarrow> hook_client \<times> hook_log list" where
  "handleMessages pretty r [] hc = (hc, [])"
| "handleMessages pretty r (f # fs) hc =
     (case hook_readFrame r f hc of
        (r', Continue, hc1) \<Rightarrow> handleMessages pretty r' fs hc1
      | (r', Leave, hc1) \<Rightarrow> (hc1, [])
      | (r', Deliver msg data, hc1) \<Rightarrow>
          (case hook_handleJSONMessage pretty msg data hc1 of
             (hc2, lg) \<Rightarrow>
               (case handleMessages pretty r' fs hc2 of
                  (hc3, lgs) \<Rightarrow> (hc3, (case lg of None \<Rightarrow> lgs | Some l \<Rightarrow> l # lgs)))))"

subsection \<open>Lemmas\<close>

lemma trunc_rat_nat [simp]: "trunc_rat (of_nat n) = int n"
  using trunc_rat_int [of "int n"] by simp

lemma trunc_rat_word [simp]: "trunc_rat (unsigned (w :: u64)) = uint w"
  using trunc_rat_int [of "uint w"] by simp

text \<open>The reading loop is the server's, cancellation aside.\<close>

lemma hook_readFrame_server:
  "hook_readFrame r f hc = (case readFrame r f of (r', a) \<Rightarrow> (r', a, if f = ReadError then hc\<lparr>hcCancelled := True\<rparr> else hc))"
  by (cases "(r, f)" rule: readFrame.cases) (auto split: option.splits)

lemma registered_message:
  assumes "i \<noteq> 0"
  shows "hook_registered (received (reply_message msg now
      (RegisterData \<lparr>rrSuccess = True, rrModuleID = i, rrMessage = m\<rparr>) None)) = Inr i"
  using assms
  by (simp add: hook_registered_def received_def reply_message_def omit_def bool_field_def num_field_def field_def
      json_u64_def)

lemma refused_message: "hook_registered (received (reply_message msg now NoData (Some err))) = Inl (''registration failed: '' @ err)"
  by (simp add: hook_registered_def received_def reply_message_def)

subsection \<open>Properties\<close>

text \<open>C23: A registration from end to end. When the manager builds the module a hook client asks
  for, the client gets the reply to its own request and takes from it the id under which the
  module stands in the registry; when the manager refuses, the client reports the manager's
  reason.\<close>

theorem registration_handshake:
  assumes "handleModuleRegistration E conn msg mm [] = (mm', out)" and "wmRequestID msg = n"
    and "\<And>f. writeOk E conn f" and "moduleCounter mm + 1 \<noteq> 0"
    and "register_request_of_json (message_json (wmData msg)) = Some req"
  shows "\<exists>reply. out = [(conn, JsonFrame reply)] \<and> wmResponseID reply = n \<and>
    (case buildModule E conn (moduleCounter mm + 1) req of
       Inl err \<Rightarrow> hook_registered (received reply) = Inl (''registration failed: '' @ err)
     | Inr (m, fc) \<Rightarrow> hook_registered (received reply) = Inr (moduleCounter mm + 1) \<and>
         modules mm' (moduleCounter mm + 1) \<noteq> None)"
proof (cases "buildModule E conn (moduleCounter mm + 1) req")
  case (Inl err)
  then show ?thesis
    using assms by (auto simp: handleModuleRegistration_def GenerateModuleID_def sendErrorResponse_def send_reply_def
        refused_message) (simp add: reply_message_def)
next
  case (Inr mf)
  obtain m fc where mf: "mf = (m, fc)" by (cases mf)
  have "module_ID m = moduleCounter mm + 1" using Inr mf buildModule_facts by blast
  with Inr mf show ?thesis
    using assms by (auto simp: handleModuleRegistration_def GenerateModuleID_def sendResponse_def send_reply_def
        registered_message on_conn_def RegisterModule_def Let_def) (simp add: reply_message_def)
qed

theorem registration_handshake_witness:
  "\<exists>mm' reply. handleModuleRegistration quiet_env 5
     (hook_request 3 ''register_module'' (registerRequest \<lparr>hkURL = [], hkModuleType = ''request_counter'',
        hkModuleName = ''c'', hkConfig = [], hkVerbose = False\<rparr>) False 1) NewModuleManager [] =
     (mm', [(5, JsonFrame reply)]) \<and> wmResponseID reply = 3 \<and> hook_registered (received reply) = Inr 1"
proof -
  let ?cfg = "\<lparr>hkURL = [], hkModuleType = ''request_counter'', hkModuleName = ''c'', hkConfig = [], hkVerbose = False\<rparr>"
  let ?msg = "hook_request 3 ''register_module'' (registerRequest ?cfg) False 1"
  let ?req = "\<lparr>rrqType = ''request_counter'', rrqName = ''c'', rrqConfig = []\<rparr>"
  have req: "register_request_of_json (message_json (wmData ?msg)) = Some ?req"
    by (simp add: hook_request_def registerRequest_def string_of_field_def map_of_field_def field_values_def
        fold_name_ascii to_lower_def upper_letters_def lower_letters_def)
  have b: "buildModule quiet_env 5 i ?req = Inr (RequestCounter (NewRequestCounter i 5),
      \<lparr>requestFilter = None, responseFilter = None\<rparr>)" for i
    by (simp add: buildModule_def newModule_def parseFilterConfig_def obj_field_def field_def compile_if_set_def)
  obtain mm' out where h: "handleModuleRegistration quiet_env 5 ?msg NewModuleManager [] = (mm', out)" by fastforce
  have ok: "wmRequestID ?msg = 3" "\<And>f. writeOk quiet_env 5 f" "moduleCounter NewModuleManager + 1 = 1"
    "moduleCounter NewModuleManager + 1 \<noteq> 0"
    by (simp_all add: hook_request_def quiet_env_def NewModuleManager_def)
  from registration_handshake [OF h ok(1,2,4) req] show ?thesis
    unfolding b ok(3) using h by auto
qed


text \<open>A hook client given a user and password of the API server's configuration is let in.\<close>

theorem hook_client_admitted:
  assumes "wf_credentials creds" and "up \<in> set creds"
    and "req_header_get r ''Authorization'' = hook_basic_auth up"
  shows "apiServerHandler (render_credentials creds) router r w = router r w"
proof -
  obtain u p where up: "up = (u, p)" by (cases up)
  with assms(1,2) have u: "CHR '':'' \<notin> set u" "map_of creds u = Some p" "creds \<noteq> []"
    by (auto simp: wf_credentials_def)
  have "hook_basic_auth up = basic_prefix @ b64_encode (u @ CHR '':'' # p)"
    by (simp add: hook_basic_auth_def basic_prefix_def up)
  with authorised_complete [OF u(1,2)] u(3) assms(1,3) show ?thesis
    by (simp add: apiServerHandler_def parse_render authMiddleware_def)
qed

theorem hook_client_admitted_witness:
  "apiServerHandler (render_credentials [(''op'', ''a:b'')]) router (auth_request (hook_basic_auth (''op'', ''a:b''))) w =
     router (auth_request (hook_basic_auth (''op'', ''a:b''))) w"
  by (rule hook_client_admitted [where up = "(''op'', ''a:b'')"])
     (simp_all add: wf_credentials_def auth_request_def req_header_get_def header_get_def)

text \<open>The types a hook client accepts are exactly those the manager knows.\<close>

theorem hook_types_known:
  "typ \<in> set validTypes \<longleftrightarrow> newModule typ i conn \<noteq> None"
  by (auto simp: validTypes_def newModule_def)

end
