(* ===== verification/Utils.thy ===== *)
theory Utils
  imports Logging
begin

text \<open>
  The package \<open>utils\<close>: the build version, the log formatter and the hex encoder, which no other
  part of the program uses. The text formatter and the colour printer are parameters.
\<close>

subsection \<open>Version\<close>

definition GetBuildVersion :: "bytes \<Rightarrow> bytes \<Rightarrow> bytes" where
  "GetBuildVersion buildRelease buildVersion =
     (if buildRelease = [] then ''git-'' @ buildVersion
      else buildRelease @ '' (git-'' @ buildVersion @ '')'')"

subsection \<open>Formatter\<close>

record formatter =
  noColor :: bool
  disableColors :: bool
  forceColors :: bool

definition DisableColors :: "formatter \<Rightarrow> formatter" where
  "DisableColors f = f\<lparr>noColor := True, disableColors := True\<rparr>"

definition EnableColors :: "formatter \<Rightarrow> formatter" where
  "EnableColors f = f\<lparr>noColor := False, disableColors := False, forceColors := True\<rparr>"

text \<open>\<open>textFormat\<close> is the wrapped formatter and \<open>colored\<close> printing in a colour, if there is one.\<close>

fun entry_color :: "log_value option \<Rightarrow> bytes option" where
  "entry_color (Some (LogColor c)) = Some c"
| "entry_color _ = None"

fun entry_body :: "log_value option \<Rightarrow> bytes option" where
  "entry_body (Some (LogRaw b)) = Some b"
| "entry_body (Some (LogStr b)) = Some b"
| "entry_body _ = None"

definition Format ::
  "(log_fields \<Rightarrow> bytes option) \<Rightarrow> (bytes option \<Rightarrow> bytes \<Rightarrow> bytes) \<Rightarrow> log_fields \<Rightarrow> bytes option" where
  "Format textFormat colored entry0 =
     (let colorPrint = entry_color (map_of entry0 ''color'');
          entry1 = (if colorPrint = None then entry0 else AList.delete ''color'' entry0);
          bd = entry_body (map_of entry0 ''body'');
          entry2 = (if bd = None then entry1 else AList.delete ''body'' entry1)
      in case textFormat entry2 of
           None \<Rightarrow> None
         | Some line \<Rightarrow>
             Some (case bd of
                     None \<Rightarrow> line
                   | Some b \<Rightarrow> if 0 < length b then line @ colored colorPrint b @ [LF, LF] else line))"

subsection \<open>Hex encoder\<close>

definition chunkSize :: nat where
  "chunkSize = 512"

record hexencoder =
  hexIn :: bytes
  hexErr :: bool

definition NewHexEncoder :: hexencoder where
  "NewHexEncoder = \<lparr>hexIn = replicate chunkSize (CHR 0x00), hexErr = False\<rparr>"

text \<open>\<open>Read\<close> into a buffer \<open>p\<close>: \<open>rd n\<close> is what the wrapped reader gives for \<open>n\<close> bytes, data and
  whether an error (\<open>io.EOF\<close> is one) comes with it. The result is the buffer, the count and
  the error.\<close>

definition hex_Read :: "(nat \<Rightarrow> bytes \<times> bool) \<Rightarrow> bytes \<Rightarrow> hexencoder \<Rightarrow> bytes \<times> nat \<times> bool \<times> hexencoder" where
  "hex_Read rd p e =
     (let inLen = min (length p div 2) chunkSize;
          (data, err) = rd inLen;
          input = data @ drop (length data) (hexIn e);
          e' = e\<lparr>hexIn := input, hexErr := err\<rparr>
      in if 0 < length data \<and> \<not> err
         then (hex_encode (take inLen input) @ drop (2 * inLen) p, 2 * inLen, err, e')
         else (p, length data, err, e'))"

text \<open>A full read is encoded; after a short one the rest of the old input buffer is encoded too,
  and data that arrives together with the end is not encoded at all.\<close>

theorem hex_Read_full:
  assumes "length p = 2 * n" and "0 < n" and "n \<le> chunkSize" and "length data = n"
  shows "fst (hex_Read (\<lambda>_. (data, False)) p e) = hex_encode data"
  using assms by (auto simp: hex_Read_def Let_def)

theorem hex_Read_short:
  assumes "length p = 2 * n" and "n \<le> chunkSize" and "0 < length data" and "length data < n"
  shows "fst (hex_Read (\<lambda>_. (data, False)) p NewHexEncoder) =
      hex_encode (data @ replicate (n - length data) (CHR 0x00)) \<and>
    hex_Read (\<lambda>_. (data, True)) p NewHexEncoder =
      (p, length data, True, \<lparr>hexIn = data @ replicate (chunkSize - length data) (CHR 0x00), hexErr = True\<rparr>)"
  using assms by (auto simp: hex_Read_def NewHexEncoder_def min_def Let_def)

end
