(* ===== verification/LogOrder.thy ===== *)
theory LogOrder
  imports OrderedProcessor
begin

text \<open>
  The goroutines that log: each call of \<open>logRequest\<close>, \<open>logResponse\<close> and
  \<open>logEventResponse\<close> takes a sequence number, waits for its turn, runs the modules and
  writes the log record, and completes its sequence in a deferred call. Many run at once,
  so the system is a step relation in which any goroutine may move. A goroutine is named
  by its sequence number. \<open>order\<close> records, in history, the order in which goroutines
  went past \<open>WaitForSequence\<close> with \<open>true\<close>; \<open>timedOut\<close> those that did so because the
  five-second timer fired.
\<close>

datatype gpc = Started | Blocked chan | Processing | Leaving | Finished

record sys =
  oproc :: op_state
  pcs :: "u64 \<rightharpoonup> gpc"
  timedOut :: "u64 set"
  order :: "u64 list"

definition init_sys :: sys where
  "init_sys = \<lparr>oproc = NewOrderedProcessor, pcs = Map.empty, timedOut = {}, order = []\<rparr>"

definition setPc :: "u64 \<Rightarrow> gpc \<Rightarrow> op_state \<Rightarrow> sys \<Rightarrow> sys" where
  "setPc seq g p t = t\<lparr>oproc := p, pcs := (pcs t)(seq \<mapsto> g)\<rparr>"

definition enter :: "u64 \<Rightarrow> op_state \<Rightarrow> sys \<Rightarrow> sys" where
  "enter seq p t = (setPc seq Processing p t)\<lparr>order := order t @ [seq]\<rparr>"

text \<open>
  The rule \<open>issue\<close> carries the one bound of the model: fewer than \<open>2 ^ 64 - 2\<close> records are
  logged in the lifetime of the process.
\<close>

inductive log_step :: "sys \<Rightarrow> sys \<Rightarrow> bool" where
  issue: "roomForNext (oproc t) \<Longrightarrow> GetNextSequence (oproc t) = (seq, p) \<Longrightarrow>
    log_step t (setPc seq Started p t)"
| undecodable: "pcs t seq = Some Started \<Longrightarrow> CompleteSequence seq (oproc t) = Some (Inr p) \<Longrightarrow>
    log_step t (setPc seq Finished p t)"
| ready: "pcs t seq = Some Started \<Longrightarrow> WaitBegin seq (oproc t) = Some (Inr (Ready, p)) \<Longrightarrow>
    log_step t (enter seq p t)"
| block: "pcs t seq = Some Started \<Longrightarrow> WaitBegin seq (oproc t) = Some (Inr (Waiting c, p)) \<Longrightarrow>
    log_step t (setPc seq (Blocked c) p t)"
| wake: "pcs t seq = Some (Blocked c) \<Longrightarrow> wait_enabled c WaiterClosed (oproc t) \<Longrightarrow>
    WaitEnd seq WaiterClosed (oproc t) = (True, p) \<Longrightarrow> log_step t (enter seq p t)"
| stopped: "pcs t seq = Some (Blocked c) \<Longrightarrow> wait_enabled c StopClosed (oproc t) \<Longrightarrow>
    WaitEnd seq StopClosed (oproc t) = (False, p) \<Longrightarrow> log_step t (setPc seq Leaving p t)"
| timeout: "pcs t seq = Some (Blocked c) \<Longrightarrow> wait_enabled c TimerFired (oproc t) \<Longrightarrow>
    WaitEnd seq TimerFired (oproc t) = (True, p) \<Longrightarrow>
    log_step t ((enter seq p t)\<lparr>timedOut := insert seq (timedOut t)\<rparr>)"
| complete: "pcs t seq = Some Processing \<or> pcs t seq = Some Leaving \<Longrightarrow>
    CompleteSequence seq (oproc t) = Some (Inr p) \<Longrightarrow> log_step t (setPc seq Finished p t)"
| stop: "Stop (oproc t) = Inr p \<Longrightarrow> log_step t (t\<lparr>oproc := p\<rparr>)"

inductive_cases log_stepE: "log_step t u"

inductive reachable :: "sys \<Rightarrow> bool" where
  start: "reachable init_sys"
| step: "reachable t \<Longrightarrow> log_step t u \<Longrightarrow> reachable u"

subsection \<open>The invariant\<close>

definition inTurn :: "sys \<Rightarrow> u64 list" where
  "inTurn t = filter (\<lambda>k. k \<notin> timedOut t) (order t)"

definition pcs_inv :: "sys \<Rightarrow> bool" where
  "pcs_inv t \<longleftrightarrow>
     (\<forall>k. k \<in> activeSequences (oproc t) \<longleftrightarrow> (\<exists>g. pcs t k = Some g \<and> g \<noteq> Finished)) \<and>
     (\<forall>k. pcs t k \<noteq> None \<longleftrightarrow> 1 \<le> k \<and> k \<le> sequenceCounter (oproc t)) \<and>
     (\<forall>k. pcs t k = Some Started \<longrightarrow> waiters (oproc t) k = None) \<and>
     (\<forall>k c. waiters (oproc t) k = Some c \<longrightarrow> pcs t k \<noteq> None)"

definition wake_inv :: "sys \<Rightarrow> bool" where
  "wake_inv t \<longleftrightarrow>
     (\<forall>k c. pcs t k = Some (Blocked c) \<longrightarrow>
        waiters (oproc t) k = Some c \<or> c \<in> closedChans (oproc t)) \<and>
     (\<forall>k c. pcs t k = Some (Blocked c) \<longrightarrow> c \<in> closedChans (oproc t) \<longrightarrow>
        k \<le> nextSequence (oproc t))"

definition order_inv :: "sys \<Rightarrow> bool" where
  "order_inv t \<longleftrightarrow>
     (\<forall>k. pcs t k = Some Processing \<longrightarrow> k \<in> set (order t)) \<and>
     (\<forall>k \<in> set (order t). pcs t k = Some Processing \<or> pcs t k = Some Finished) \<and>
     (\<forall>k \<in> set (order t) - timedOut t. k \<le> nextSequence (oproc t)) \<and>
     timedOut t \<subseteq> set (order t) \<and> distinct (order t) \<and> sorted_wrt (<) (inTurn t)"

definition sys_inv :: "sys \<Rightarrow> bool" where
  "sys_inv t \<longleftrightarrow>
     op_inv (oproc t) \<and> normalised (oproc t) \<and> pcs_inv t \<and> wake_inv t \<and> order_inv t"

lemmas sys_invs = pcs_inv_def wake_inv_def order_inv_def

lemma sys_inv_init: "sys_inv init_sys"
  using op_inv_init
  by (auto simp: sys_inv_def sys_invs init_sys_def inTurn_def NewOrderedProcessor_def)

lemma sys_invD:
  assumes "sys_inv t"
  shows "op_inv (oproc t)" "normalised (oproc t)"
    "k \<in> activeSequences (oproc t) \<longleftrightarrow> (\<exists>g. pcs t k = Some g \<and> g \<noteq> Finished)"
    "pcs t k \<noteq> None \<longleftrightarrow> 1 \<le> k \<and> k \<le> sequenceCounter (oproc t)"
    "pcs t k = Some Started \<Longrightarrow> waiters (oproc t) k = None"
    "pcs t k = Some (Blocked c) \<Longrightarrow> waiters (oproc t) k = Some c \<or> c \<in> closedChans (oproc t)"
    "pcs t k = Some (Blocked c) \<Longrightarrow> c \<in> closedChans (oproc t) \<Longrightarrow> k \<le> nextSequence (oproc t)"
    "k \<in> set (order t) \<Longrightarrow> pcs t k = Some Processing \<or> pcs t k = Some Finished"
    "k \<in> set (order t) \<Longrightarrow> k \<notin> timedOut t \<Longrightarrow> k \<le> nextSequence (oproc t)"
    "timedOut t \<subseteq> set (order t)" "distinct (order t)" "sorted_wrt (<) (inTurn t)"
    "pcs t k = Some Processing \<Longrightarrow> k \<in> set (order t)"
    "waiters (oproc t) k = Some c \<Longrightarrow> pcs t k \<noteq> None"
  using assms unfolding sys_inv_def sys_invs by blast+

text \<open>A live goroutine has not been passed over: its number is at least \<open>nextSequence\<close>.\<close>

lemma live_ge_next:
  assumes "sys_inv t" and "pcs t k = Some g" and "g \<noteq> Finished"
  shows "nextSequence (oproc t) \<le> k" "k \<le> sequenceCounter (oproc t)"
  using assms sys_invD(1,3) [OF assms(1)] active_range by blast+

subsection \<open>Every step keeps the invariant\<close>

lemma setPc_simps [simp]:
  "oproc (setPc seq g p t) = p" "pcs (setPc seq g p t) = (pcs t)(seq \<mapsto> g)"
  "order (setPc seq g p t) = order t" "timedOut (setPc seq g p t) = timedOut t"
  "inTurn (setPc seq g p t) = inTurn t"
  by (simp_all add: setPc_def inTurn_def)

lemma enter_simps [simp]:
  "oproc (enter seq p t) = p" "pcs (enter seq p t) = (pcs t)(seq \<mapsto> Processing)"
  "order (enter seq p t) = order t @ [seq]" "timedOut (enter seq p t) = timedOut t"
  by (simp_all add: enter_def)

lemma not_entered:
  assumes "sys_inv t" and "pcs t seq = Some g" and "g \<noteq> Finished" "g \<noteq> Processing"
  shows "seq \<notin> set (order t)" "seq \<notin> timedOut t"
  using sys_invD(8) [OF assms(1), of seq] sys_invD(10) [OF assms(1)] assms(2-4) by auto

lemma issue_inv:
  assumes inv: "sys_inv t" and room: "roomForNext (oproc t)"
    and get: "GetNextSequence (oproc t) = (seq, p)"
  shows "sys_inv (setPc seq Started p t)"
proof -
  note I = sys_invD [OF inv]
  note G = GetNextSequence_inv [OF I(1) I(2) room get]
  have p: "waiters p = waiters (oproc t)" "closedChans p = closedChans (oproc t)"
    "nextSequence p = nextSequence (oproc t)" "sequenceCounter p = seq"
    "activeSequences p = insert seq (activeSequences (oproc t))"
    using get by (auto simp: GetNextSequence_def Let_def)
  have lt: "sequenceCounter (oproc t) < seq" and one: "1 \<le> seq"
    and le: "k \<le> seq \<longleftrightarrow> k \<le> sequenceCounter (oproc t) \<or> k = seq" for k
    using succ_counter [OF room] room
    by (auto simp: G(4) word_less_nat_alt word_le_nat_alt le_Suc_eq word_unat_eq_iff)
  have fresh: "pcs t seq = None" using I(4) [of seq] lt by auto
  then have nw: "waiters (oproc t) seq = None"
    using I(14) [of seq] by (cases "waiters (oproc t) seq") auto
  have "pcs_inv (setPc seq Started p t)"
    unfolding pcs_inv_def using I(3,4,5,14) nw one le by (auto simp: p)
  moreover have "wake_inv (setPc seq Started p t)"
    unfolding wake_inv_def using I(6,7) by (auto simp: p)
  moreover have "order_inv (setPc seq Started p t)"
    unfolding order_inv_def using I(8-13) I(8) [of seq] fresh by (auto simp: p)
  ultimately show ?thesis using G(1,2) by (simp add: sys_inv_def)
qed

lemma finish_inv:
  assumes inv: "sys_inv t" and live: "pcs t seq = Some g" "g \<noteq> Finished"
    and comp: "CompleteSequence seq (oproc t) = Some (Inr p)"
  shows "sys_inv (setPc seq Finished p t)"
proof -
  note I = sys_invD [OF inv]
  note C = CompleteSequence_effect [OF I(1) comp]
  have wN: "waiters p k = None" if "waiters (oproc t) k = None" for k
    using C(9) [of k] that by simp
  have wS: "waiters (oproc t) k = Some c \<Longrightarrow> waiters p k = Some c \<or> c \<in> closedChans p \<and> k \<le> nextSequence p" for k c
    using C(9) [of k] C(10) [of k c] by auto
  have wS': "waiters p k = Some c \<Longrightarrow> waiters (oproc t) k = Some c" for k c
    using C(9) [of k] by (auto split: if_splits)
  have "pcs_inv (setPc seq Finished p t)"
    unfolding pcs_inv_def using I(3,4,5,14) live wN wS' by (auto simp: C(3,4))
  moreover have "wake_inv (setPc seq Finished p t)"
    unfolding wake_inv_def
  proof (intro conjI allI impI)
    fix k c
    assume "pcs (setPc seq Finished p t) k = Some (Blocked c)"
    then have b: "pcs t k = Some (Blocked c)" by (auto split: if_splits)
    then show "waiters (oproc (setPc seq Finished p t)) k = Some c \<or>
        c \<in> closedChans (oproc (setPc seq Finished p t))"
      using I(6) [OF b] wS [of k c] C(8) by auto
    assume "c \<in> closedChans (oproc (setPc seq Finished p t))"
    moreover have "c \<notin> closedChans p" if "waiters p k = Some c"
      using waiters_open [OF C(1) that] by simp
    ultimately show "k \<le> nextSequence (oproc (setPc seq Finished p t))"
      using I(6,7) [OF b] wS [of k c] order.trans [OF _ C(5)] by auto
  qed
  moreover have "order_inv (setPc seq Finished p t)"
    unfolding order_inv_def using I(8-13) live by (auto intro: order.trans [OF _ C(5)])
  ultimately show ?thesis using C(1,2) by (simp add: sys_inv_def)
qed

lemma block_inv:
  assumes inv: "sys_inv t" and started: "pcs t seq = Some Started"
    and begin_: "WaitBegin seq (oproc t) = Some (Inr (Waiting c, p))"
  shows "sys_inv (setPc seq (Blocked c) p t)"
proof -
  note I = sys_invD [OF inv]
  let ?q = "oproc t"
  have c: "c = chanCount ?q" and later: "nextSequence ?q < seq"
    and p: "p = ?q\<lparr>chanCount := Suc (chanCount ?q), waiters := (waiters ?q)(seq \<mapsto> chanCount ?q)\<rparr>"
    using begin_ WaitBegin_normalised [OF I(2), of seq] by (auto split: if_splits)
  have "op_inv p"
    unfolding p by (rule register_inv) (use I(1) later I(5) [OF started] in auto)
  moreover have "normalised p" unfolding p using I(2) by simp
  moreover have "pcs_inv (setPc seq (Blocked c) p t)"
    unfolding pcs_inv_def using I(3,4,5,14) started by (auto simp: p)
  moreover have "c \<notin> closedChans ?q" using I(1) by (auto simp: op_inv_def c)
  then have "wake_inv (setPc seq (Blocked c) p t)"
    unfolding wake_inv_def using I(6,7) by (auto simp: p c)
  moreover have "order_inv (setPc seq (Blocked c) p t)"
    unfolding order_inv_def using I(8-13) not_entered [OF inv started] by (auto simp: p)
  ultimately show ?thesis by (simp add: sys_inv_def)
qed

lemma enter_pcs_wake:
  assumes inv: "sys_inv t" and live: "pcs t seq = Some g" "g \<noteq> Finished"
  shows "pcs_inv (enter seq (oproc t) t)" "wake_inv (enter seq (oproc t) t)"
proof -
  note I = sys_invD [OF inv]
  show "pcs_inv (enter seq (oproc t) t)"
    unfolding pcs_inv_def using I(3,4,5,14) live by auto
  show "wake_inv (enter seq (oproc t) t)"
    unfolding wake_inv_def using I(6,7) live by auto
qed

lemma enter_inv:
  assumes inv: "sys_inv t" and live: "pcs t seq = Some g" "g \<noteq> Finished" "g \<noteq> Processing"
    and turn: "seq \<le> nextSequence (oproc t)"
  shows "sys_inv (enter seq (oproc t) t)"
proof -
  note I = sys_invD [OF inv] and N = not_entered [OF inv live]
  have "inTurn (enter seq (oproc t) t) = inTurn t @ [seq]"
    using N by (simp add: inTurn_def)
  moreover have "k < seq" if "k \<in> set (inTurn t)" for k
  proof -
    from that have "k \<in> set (order t)" "k \<notin> timedOut t" by (auto simp: inTurn_def)
    then have "k \<le> nextSequence (oproc t)" "k \<noteq> seq" using I(9) N by auto
    with live_ge_next(1) [OF inv live(1,2)] show ?thesis by simp
  qed
  ultimately have "order_inv (enter seq (oproc t) t)"
    unfolding order_inv_def using I(8-13) N turn by (auto simp: sorted_wrt_append)
  with I(1,2) enter_pcs_wake [OF inv live(1,2)] show ?thesis by (simp add: sys_inv_def)
qed

lemma leave_inv:
  assumes inv: "sys_inv t" and blocked: "pcs t seq = Some (Blocked c)"
  shows "sys_inv (setPc seq Leaving (oproc t) t)"
proof -
  note I = sys_invD [OF inv]
  have "pcs_inv (setPc seq Leaving (oproc t) t)"
    unfolding pcs_inv_def using I(3,4,5,14) blocked by auto
  moreover have "wake_inv (setPc seq Leaving (oproc t) t)"
    unfolding wake_inv_def using I(6,7) by auto
  moreover have "order_inv (setPc seq Leaving (oproc t) t)"
    unfolding order_inv_def using I(8-13) not_entered [OF inv blocked] by auto
  ultimately show ?thesis using I(1,2) by (simp add: sys_inv_def)
qed

lemma timeout_inv:
  assumes inv: "sys_inv t" and blocked: "pcs t seq = Some (Blocked c)"
    and p: "p = (oproc t)\<lparr>waiters := (waiters (oproc t))(seq := None)\<rparr>"
  shows "sys_inv ((enter seq p t)\<lparr>timedOut := insert seq (timedOut t)\<rparr>)" (is "sys_inv ?u")
proof -
  note I = sys_invD [OF inv] and N = not_entered [OF inv blocked, simplified]
  have "pcs_inv ?u"
    unfolding pcs_inv_def using I(3,4,5,14) blocked by (auto simp: p)
  moreover have "wake_inv ?u"
    unfolding wake_inv_def using I(6,7) by (auto simp: p)
  moreover have "inTurn ?u = inTurn t"
    using N by (auto simp: inTurn_def intro: filter_cong)
  then have "order_inv ?u"
    unfolding order_inv_def using I(8-13) N by (auto simp: p)
  ultimately show ?thesis
    using unregister_inv [OF I(1)] I(2) by (simp add: sys_inv_def p)
qed

lemma log_step_inv: "log_step t u \<Longrightarrow> sys_inv t \<Longrightarrow> sys_inv u"
proof (induction rule: log_step.induct)
  case (issue t seq p)
  then show ?case by (intro issue_inv)
next
  case (undecodable t seq p)
  then show ?case by (intro finish_inv) auto
next
  case (ready t seq p)
  with WaitBegin_normalised [of "oproc t" seq] have "p = oproc t" "seq \<le> nextSequence (oproc t)"
    using sys_invD(2) [of t] by (auto split: if_splits)
  with ready show ?case by (auto intro: enter_inv)
next
  case (block t seq c p)
  then show ?case by (intro block_inv)
next
  case (wake t seq c p)
  with sys_invD(7) [of t seq c] show ?case by (auto intro!: enter_inv)
next
  case (stopped t seq c p)
  then show ?case by (auto intro!: leave_inv)
next
  case (timeout t seq c p)
  then show ?case by (intro timeout_inv) auto
next
  case (complete t seq p)
  then show ?case by (auto intro: finish_inv)
next
  case (stop t p)
  then show ?case
    using Stop_inv [of "oproc t" p]
    by (auto simp: sys_inv_def sys_invs inTurn_def)
qed

lemma reachable_inv: "reachable t \<Longrightarrow> sys_inv t"
  by (induction rule: reachable.induct) (auto intro: sys_inv_init log_step_inv)

subsection \<open>Turns\<close>

text \<open>A goroutine that is past its wait, and not by the timer, is the one whose turn it is.\<close>

lemma turn_is_next:
  assumes "sys_inv t" and "pcs t k = Some Processing" and "k \<notin> timedOut t"
  shows "k = nextSequence (oproc t)"
  using sys_invD(9) [OF assms(1) sys_invD(13) [OF assms(1,2)] assms(3)]
    live_ge_next(1) [OF assms(1,2)] by simp

lemma earlier_finished:
  assumes inv: "sys_inv t" and "pcs t k = Some Processing" and "k \<notin> timedOut t"
    and "1 \<le> j" "j < k"
  shows "pcs t j = Some Finished"
proof -
  have k: "k = nextSequence (oproc t)" "k \<le> sequenceCounter (oproc t)"
    using turn_is_next live_ge_next(2) assms by blast+
  with assms(4,5) have "pcs t j \<noteq> None" using sys_invD(4) [OF inv, of j] by simp
  then obtain g where g: "pcs t j = Some g" by blast
  with live_ge_next(1) [OF inv g] k(1) assms(5) show ?thesis by (cases "g = Finished") auto
qed

subsection \<open>Draining\<close>

text \<open>The work the goroutines have left: an upper bound on the steps they still take.\<close>

fun weight :: "gpc option \<Rightarrow> nat" where
  "weight None = 0"
| "weight (Some Started) = 3"
| "weight (Some (Blocked c)) = 2"
| "weight (Some Processing) = 1"
| "weight (Some Leaving) = 1"
| "weight (Some Finished) = 0"

definition work :: "sys \<Rightarrow> nat" where
  "work t = (\<Sum>k \<in> UNIV. weight (pcs t k))"

text \<open>A step of a goroutine already there that neither the timer nor a shutdown causes.\<close>

definition quiet :: "sys \<Rightarrow> sys \<Rightarrow> bool" where
  "quiet t u \<longleftrightarrow>
     log_step t u \<and> timedOut u = timedOut t \<and> stopClosed (oproc u) = stopClosed (oproc t) \<and>
     dom (pcs u) = dom (pcs t)"

lemma weight_0: "weight g = 0 \<longleftrightarrow> g = None \<or> g = Some Finished"
  by (cases g rule: weight.cases) auto

lemma work_0: "work t = 0 \<longleftrightarrow> (\<forall>k g. pcs t k = Some g \<longrightarrow> g = Finished)"
proof -
  have "work t = 0 \<longleftrightarrow> (\<forall>k. weight (pcs t k) = 0)" by (simp add: work_def)
  also have "\<dots> \<longleftrightarrow> (\<forall>k. pcs t k = None \<or> pcs t k = Some Finished)" by (simp only: weight_0)
  also have "\<dots> \<longleftrightarrow> (\<forall>k g. pcs t k = Some g \<longrightarrow> g = Finished)" by (metis option.exhaust option.inject option.distinct(1))
  finally show ?thesis .
qed

lemma work_0_ran: "work t = 0 \<longleftrightarrow> ran (pcs t) \<subseteq> {Finished}"
  unfolding work_0 by (auto simp: ran_def)

lemma work_update:
  assumes "pcs u = (pcs t)(seq \<mapsto> g)" and "weight (Some g) < weight (pcs t seq)"
  shows "work u < work t"
  unfolding work_def
proof (rule sum_strict_mono_ex1)
  show "\<forall>k \<in> UNIV. weight (pcs u k) \<le> weight (pcs t k)"
    using assms by simp
  show "\<exists>k \<in> UNIV. weight (pcs u k) < weight (pcs t k)"
    using assms by (intro bexI [of _ seq]) simp_all
qed simp

lemma quiet_enter:
  assumes "log_step t (enter k (oproc t) t)" and "pcs t k = Some h" and "1 < weight (Some h)"
  shows "quiet t (enter k (oproc t) t)"
  using assms by (auto simp: quiet_def)

lemma quiet_finish:
  assumes "log_step t (setPc k Finished p t)" and "pcs t k = Some h" and "0 < weight (Some h)"
    and "stopClosed p = stopClosed (oproc t)"
  shows "quiet t (setPc k Finished p t)"
  using assms by (auto simp: quiet_def)

lemma quiet_work:
  assumes "quiet t u" and inv: "sys_inv t"
  shows "work u < work t"
proof -
  have "log_step t u" using assms(1) by (simp add: quiet_def)
  then show ?thesis using assms
  proof (cases rule: log_step.cases)
    case (issue seq p)
    then have "pcs t seq = None"
      using sys_invD(4) [OF inv, of seq] succ_counter [of "oproc t"]
      by (auto simp: GetNextSequence_def Let_def word_le_nat_alt)
    with issue assms(1) show ?thesis by (auto simp: quiet_def)
  next
    case (timeout seq c p)
    with not_entered(2) [OF inv timeout(2)] assms(1) show ?thesis by (auto simp: quiet_def)
  next
    case (stop p)
    with assms(1) show ?thesis by (auto simp: quiet_def Stop_def split: if_splits)
  qed (auto intro!: work_update)
qed

lemma progress:
  assumes inv: "sys_inv t" and busy: "0 < work t"
  shows "\<exists>u. quiet t u"
proof -
  note I = sys_invD [OF inv]
  let ?k = "nextSequence (oproc t)"
  obtain j g where "pcs t j = Some g" "g \<noteq> Finished"
    using busy work_0 [of t] by auto
  then have "?k \<le> sequenceCounter (oproc t)"
    using live_ge_next [OF inv] by (meson order.trans)
  then have "?k \<in> activeSequences (oproc t)"
    using I(2) by (simp add: normalised_def mustSkip_def)
  then obtain h where h: "pcs t ?k = Some h" "h \<noteq> Finished" using I(3) by blast
  obtain p where p: "CompleteSequence ?k (oproc t) = Some (Inr p)"
    using CompleteSequence_total [OF I(1)] .
  note sc = CompleteSequence_effect(7) [OF I(1) p]
  show ?thesis
  proof (cases h)
    case Started
    with h WaitBegin_normalised [OF I(2), of ?k] have "log_step t (enter ?k (oproc t) t)"
      by (intro ready) auto
    then show ?thesis using quiet_enter [OF _ h(1)] Started by auto
  next
    case (Blocked c)
    have "waiters (oproc t) ?k = None" using waiters_low [OF I(1)] by simp
    with I(6) [of ?k c] h Blocked have "c \<in> closedChans (oproc t)" by auto
    with h Blocked have "log_step t (enter ?k (oproc t) t)" by (intro wake) auto
    then show ?thesis using quiet_enter [OF _ h(1)] Blocked by auto
  next
    case Processing
    with h p have "log_step t (setPc ?k Finished p t)" by (intro complete) auto
    then show ?thesis using quiet_finish [OF _ h(1) _ sc] Processing by auto
  next
    case Leaving
    with h p have "log_step t (setPc ?k Finished p t)" by (intro complete) auto
    then show ?thesis using quiet_finish [OF _ h(1) _ sc] Leaving by auto
  qed (use h in simp)
qed

lemma drains: "sys_inv t \<Longrightarrow> \<exists>u. rtranclp quiet t u \<and> work u = 0"
proof (induction "work t" arbitrary: t rule: less_induct)
  case less
  show ?case
  proof (cases "work t = 0")
    case False
    then obtain u where u: "quiet t u" using progress less.prems by blast
    then have "sys_inv u" "work u < work t"
      using less.prems by (auto simp: quiet_def dest: log_step_inv intro: quiet_work)
    from less.hyps [OF this(2,1)] u show ?thesis
      by (meson converse_rtranclp_into_rtranclp)
  qed auto
qed

subsection \<open>What the goroutines promise to the calls\<close>

text \<open>The calls of the proxy only rely on the following of the goroutines that log: numbers once
  issued stay issued and finished ones finished, the history grows by numbers that are issued
  and not finished, and without further issues all that was issued can finish.\<close>

definition before :: "'a \<Rightarrow> 'a \<Rightarrow> 'a list \<Rightarrow> bool" where
  "before x y zs \<longleftrightarrow> (\<exists>us vs ws. zs = us @ x # vs @ y # ws)"

lemma before_append: "before x y zs \<Longrightarrow> before x y (zs @ xs)"
  unfolding before_def by (metis append.assoc append_Cons)

lemma before_snoc:
  assumes "x \<in> set zs" and "y \<in> set xs"
  shows "before x y (zs @ xs)"
proof -
  obtain us vs us' ws where "zs = us @ x # vs" "xs = us' @ y # ws"
    using assms by (meson split_list)
  then have "zs @ xs = us @ x # (vs @ us') @ y # ws" by simp
  then show ?thesis unfolding before_def by blast
qed

locale turn_log =
  fixes reach :: "'s \<Rightarrow> bool" and step :: "'s \<Rightarrow> 's \<Rightarrow> bool"
    and issued finished :: "'s \<Rightarrow> 'n set" and history :: "'s \<Rightarrow> 'n list"
  assumes reach_step: "reach t \<Longrightarrow> step t u \<Longrightarrow> reach u"
    and finished_mono: "reach t \<Longrightarrow> step t u \<Longrightarrow> finished t \<subseteq> finished u"
    and history_grows: "reach t \<Longrightarrow> step t u \<Longrightarrow>
      \<exists>xs. history u = history t @ xs \<and> set xs \<subseteq> issued t - finished t"
    and history_issued: "reach t \<Longrightarrow> set (history t) \<subseteq> issued t"
    and finishes: "reach t \<Longrightarrow>
      \<exists>u. (\<lambda>t u. step t u \<and> issued u = issued t)\<^sup>*\<^sup>* t u \<and> finished u = issued u"
begin

definition settled :: "'n \<Rightarrow> 'n \<Rightarrow> 's \<Rightarrow> bool" where
  "settled q s t \<longleftrightarrow> q \<in> finished t \<and>
     (q \<in> set (history t) \<longrightarrow> s \<in> set (history t) \<longrightarrow> before q s (history t))"

lemma settled_fresh: "reach t \<Longrightarrow> q \<in> finished t \<Longrightarrow> s \<notin> issued t \<Longrightarrow> settled q s t"
  using history_issued [of t] by (auto simp: settled_def)

lemma settled_step:
  assumes "reach t" and "step t u" and "settled q s t"
  shows "settled q s u"
proof -
  obtain xs where xs: "history u = history t @ xs" "set xs \<subseteq> issued t - finished t"
    using history_grows [OF assms(1,2)] by blast
  moreover have "q \<in> finished t" "q \<in> finished u"
    using assms(3) finished_mono [OF assms(1,2)] by (auto simp: settled_def)
  ultimately show ?thesis
    using assms(3) by (auto simp: settled_def intro: before_append before_snoc)
qed

lemma issues_kept: "(\<lambda>t u. step t u \<and> issued u = issued t)\<^sup>*\<^sup>* t u \<Longrightarrow> issued u = issued t"
  by (induction rule: rtranclp_induct) auto

end

definition issued_numbers :: "sys \<Rightarrow> u64 set" where
  "issued_numbers t = dom (pcs t)"

definition finished_numbers :: "sys \<Rightarrow> u64 set" where
  "finished_numbers t = {k. pcs t k = Some Finished}"

lemma finished_stay:
  assumes "log_step t u" and inv: "sys_inv t"
  shows "finished_numbers t \<subseteq> finished_numbers u"
  using assms
proof (cases rule: log_step.cases)
  case (issue seq p)
  then have "pcs t seq = None"
    using sys_invD(4) [OF inv, of seq] succ_counter [of "oproc t"]
    by (auto simp: GetNextSequence_def Let_def word_le_nat_alt)
  with issue show ?thesis by (auto simp: finished_numbers_def)
qed (auto simp: finished_numbers_def)

lemma order_grows: "log_step t u \<Longrightarrow>
    \<exists>xs. order u = order t @ xs \<and> set xs \<subseteq> issued_numbers t - finished_numbers t"
  by (elim log_stepE) (auto simp: issued_numbers_def finished_numbers_def)

lemma quiet_issued: "quiet t u \<Longrightarrow> log_step t u \<and> issued_numbers u = issued_numbers t"
  by (simp add: quiet_def issued_numbers_def)

lemma quiet_finishes:
  assumes "sys_inv t"
  shows "\<exists>u. (\<lambda>t u. log_step t u \<and> issued_numbers u = issued_numbers t)\<^sup>*\<^sup>* t u \<and>
    finished_numbers u = issued_numbers u"
proof -
  obtain u where q: "quiet\<^sup>*\<^sup>* t u" and w: "work u = 0" using drains [OF assms] by blast
  from q have "(\<lambda>t u. log_step t u \<and> issued_numbers u = issued_numbers t)\<^sup>*\<^sup>* t u"
    by (rule rtranclp_mono [THEN predicate2D, rotated]) (auto dest: quiet_issued)
  moreover from w have "finished_numbers u = issued_numbers u"
    by (auto simp: work_0 finished_numbers_def issued_numbers_def)
  ultimately show ?thesis by blast
qed

interpretation tl: turn_log reachable log_step issued_numbers finished_numbers order
proof unfold_locales
  show "set (order t) \<subseteq> issued_numbers t" if "reachable t" for t
    using sys_invD(8) [OF reachable_inv [OF that]] by (auto simp: issued_numbers_def)
qed (auto intro: reachable.step finished_stay [THEN subsetD] order_grows quiet_finishes reachable_inv)

subsection \<open>Two example runs\<close>

text \<open>Two records are issued; the second waits. In \<open>on_time\<close> the first takes its turn; in
  \<open>too_late\<close> the second one's timer fires before it does.\<close>

definition two_issued :: sys where
  "two_issued =
     (let p1 = snd (GetNextSequence NewOrderedProcessor); p2 = snd (GetNextSequence p1)
      in setPc 2 Started p2 (setPc 1 Started p1 init_sys))"

definition second_waits :: sys where
  "second_waits =
     setPc 2 (Blocked 0)
       ((oproc two_issued)\<lparr>chanCount := 1, waiters := [2 \<mapsto> 0]\<rparr>) two_issued"

definition on_time :: sys where
  "on_time = enter 1 (oproc second_waits) second_waits"

definition too_late :: sys where
  "too_late =
     (let p = snd (WaitEnd 2 TimerFired (oproc second_waits));
          t = (enter 2 p second_waits)\<lparr>timedOut := {2}\<rparr>
      in enter 1 p t)"

lemmas example_defs = two_issued_def second_waits_def on_time_def too_late_def init_sys_def
  NewOrderedProcessor_def GetNextSequence_def setPc_def enter_def roomForNext_def

lemma reachable_two_issued: "reachable two_issued"
proof -
  let ?p = "snd (GetNextSequence NewOrderedProcessor)"
  have "log_step init_sys (setPc 1 Started ?p init_sys)"
    by (rule issue) (simp_all add: example_defs)
  moreover have "log_step (setPc 1 Started ?p init_sys) two_issued"
    unfolding two_issued_def Let_def by (rule issue) (simp_all add: example_defs)
  ultimately show ?thesis by (blast intro: reachable.intros)
qed

lemma reachable_second_waits: "reachable second_waits"
proof -
  have "normalised (oproc two_issued)"
    using reachable_two_issued reachable_inv sys_invD(2) by blast
  then have "log_step two_issued second_waits"
    unfolding second_waits_def
    by (intro block)
      (simp_all add: WaitBegin_normalised, simp_all add: example_defs word_le_nat_alt)
  with reachable_two_issued show ?thesis by (rule reachable.step)
qed

lemma reachable_on_time: "reachable on_time"
proof -
  have "normalised (oproc second_waits)"
    using reachable_second_waits reachable_inv sys_invD(2) by blast
  then have "log_step second_waits on_time"
    unfolding on_time_def
    by (intro ready) (simp_all add: WaitBegin_normalised, simp_all add: example_defs)
  with reachable_second_waits show ?thesis by (rule reachable.step)
qed

lemma reachable_too_late: "reachable too_late"
proof -
  let ?p = "snd (WaitEnd 2 TimerFired (oproc second_waits))"
  let ?t = "(enter 2 ?p second_waits)\<lparr>timedOut := insert 2 (timedOut second_waits)\<rparr>"
  have "log_step second_waits ?t"
    by (rule timeout [where c = 0]) (simp_all add: example_defs)
  with reachable_second_waits have r: "reachable ?t" by (rule reachable.step)
  then have "normalised (oproc ?t)" using reachable_inv sys_invD(2) by blast
  then have "log_step ?t (enter 1 ?p ?t)"
    by (intro ready) (simp_all add: WaitBegin_normalised, simp_all add: example_defs)
  with r have "reachable (enter 1 ?p ?t)" by (rule reachable.step)
  moreover have "enter 1 ?p ?t = too_late"
    unfolding too_late_def Let_def by (simp add: example_defs)
  ultimately show ?thesis by simp
qed

subsection \<open>Properties\<close>

text \<open>C1: Log records are written in the order in which their sequence numbers were issued:
  leaving out the goroutines whose timer fired, the history of turns is strictly
  increasing, no goroutine takes two turns, and with no timeout at all the whole history
  is sorted.\<close>

theorem turns_in_issue_order:
  assumes "reachable t"
  shows "sorted_wrt (<) (inTurn t) \<and> distinct (order t) \<and>
    (timedOut t = {} \<longrightarrow> sorted_wrt (<) (order t))"
  using sys_invD(11,12) [OF reachable_inv [OF assms]] by (auto simp: inTurn_def)

lemma turns_in_issue_order_witness:
  "reachable on_time \<and> order on_time = [1] \<and> sorted_wrt (<) (order on_time)"
  using reachable_on_time turns_in_issue_order [OF reachable_on_time] by (simp add: example_defs)

text \<open>C10: One turn at a time: while a goroutine is in its turn (and not because its timer
  fired), every goroutine with an earlier number has finished, and no other goroutine is
  in such a turn.\<close>

theorem turn_is_exclusive:
  assumes "reachable t" and "pcs t k = Some Processing" and "k \<notin> timedOut t"
  shows "(\<forall>j. 1 \<le> j \<and> j < k \<longrightarrow> pcs t j = Some Finished) \<and>
    (\<forall>j. pcs t j = Some Processing \<and> j \<notin> timedOut t \<longrightarrow> j = k)"
  using earlier_finished turn_is_next reachable_inv [OF assms(1)] assms(2,3) by blast

lemma turn_is_exclusive_witness:
  "reachable on_time \<and> pcs on_time 1 = Some Processing \<and> 1 \<notin> timedOut on_time \<and>
   {j. pcs on_time j = Some Processing \<and> j \<notin> timedOut on_time} = {1}"
proof -
  have h: "pcs on_time 1 = Some Processing" "1 \<notin> timedOut on_time" by (simp_all add: example_defs)
  have "\<forall>j. pcs on_time j = Some Processing \<and> j \<notin> timedOut on_time \<longrightarrow> j = 1"
    using turn_is_exclusive [OF reachable_on_time h] by blast
  with h reachable_on_time show ?thesis by blast
qed

text \<open>C2: No deadlock and no lost wake-up: as long as a goroutine has not finished, some
  goroutine can move without a timer firing or a shutdown; each such move lowers the
  outstanding work, so that from every reachable state such moves lead to a state where
  every goroutine has finished.\<close>

theorem logging_drains:
  assumes "reachable t"
  shows "(\<exists>u. rtranclp quiet t u \<and> ran (pcs u) \<subseteq> {Finished}) \<and>
    (\<forall>u. quiet t u \<longrightarrow> work u < work t) \<and>
    ((\<nexists>u. quiet t u) \<longrightarrow> ran (pcs t) \<subseteq> {Finished})"
  using drains [OF reachable_inv [OF assms]] quiet_work progress reachable_inv [OF assms]
  by (metis work_0_ran neq0_conv)

lemma logging_drains_witness:
  "reachable second_waits \<and> pcs second_waits 2 = Some (Blocked 0) \<and>
   (\<exists>u. rtranclp quiet second_waits u \<and> ran (pcs u) \<subseteq> {Finished})"
  using reachable_second_waits logging_drains [OF reachable_second_waits]
  by (simp add: example_defs)

text \<open>C11: No operation of a reachable system panics or hangs: \<open>WaitForSequence\<close> and
  \<open>CompleteSequence\<close> come back with a state for every sequence number, and a channel
  they would close is open.\<close>

theorem no_double_close:
  assumes "reachable t"
  shows "(\<exists>p. CompleteSequence k (oproc t) = Some (Inr p)) \<and>
    (\<exists>r. WaitBegin k (oproc t) = Some (Inr r)) \<and>
    (\<forall>j c. waiters (oproc t) j = Some c \<longrightarrow> c \<notin> closedChans (oproc t))"
proof -
  note I = sys_invD(1,2) [OF reachable_inv [OF assms]]
  show ?thesis
    using CompleteSequence_total [OF I(1)] WaitBegin_normalised [OF I(2)] waiters_open [OF I(1)]
    by metis
qed

lemma no_double_close_witness:
  "reachable second_waits \<and> (\<exists>p. CompleteSequence 1 (oproc second_waits) = Some (Inr p))"
  using reachable_second_waits no_double_close [OF reachable_second_waits] by blast

text \<open>C39: The five-second timer gives the order up: \<open>WaitForSequence\<close> reports \<open>true\<close> when the
  timer fires, and there is a reachable history in which record 2 is written before
  record 1.\<close>

theorem timer_breaks_order:
  "reachable too_late \<and> order too_late = [2, 1] \<and> \<not> sorted_wrt (<) (order too_late) \<and>
   fst (WaitEnd 2 TimerFired (oproc second_waits)) \<and> nextSequence (oproc second_waits) < 2"
  using reachable_too_late by (simp add: example_defs)

end
