(* ===== verification/CallLog.thy ===== *)
theory CallLog
  imports LogOrder
begin

text \<open>
  The log records of one call: \<open>createRequestProcessingStream\<close> and
  \<open>createResponseProcessingStream\<close> of \<open>snooper/proxycall.go\<close>. When the tee of a request body
  is closed, its callback, in a goroutine of its own, logs the request and then closes
  \<open>reqSentChan\<close>; the callback of the response body first waits for that channel. Both callbacks
  run at most once for a call, since a tee logs once (theory \<open>TeeLog\<close>). Server-sent events are
  logged by the goroutine that serves the call and do not wait. The goroutines take their turns
  as in theory \<open>LogOrder\<close>, whose contract \<open>turn_log\<close> is all that is used of it.
\<close>

datatype request_log = LoggingRequest u64 | SentClosed u64

fun request_number :: "request_log \<Rightarrow> u64" where
  "request_number (LoggingRequest q) = q"
| "request_number (SentClosed q) = q"

record call_log =
  goroutines :: sys
  reqLog :: "u64 \<rightharpoonup> request_log"
  rspLog :: "u64 \<rightharpoonup> u64"
  evLog :: "(u64 \<times> u64) set"

definition init_calls :: call_log where
  "init_calls = \<lparr>goroutines = init_sys, reqLog = Map.empty, rspLog = Map.empty, evLog = {}\<rparr>"

text \<open>\<open>request_begins\<close>, \<open>response_begins\<close> and \<open>event_begins\<close> are the calls of
  \<open>GetNextSequence\<close> at the head of the three log functions; what follows in them are the
  steps \<open>inside\<close>.\<close>

inductive call_step :: "call_log \<Rightarrow> call_log \<Rightarrow> bool" where
  request_begins: "reqLog t i = None \<Longrightarrow> roomForNext (oproc (goroutines t)) \<Longrightarrow>
    GetNextSequence (oproc (goroutines t)) = (q, p) \<Longrightarrow>
    call_step t (t\<lparr>goroutines := setPc q Started p (goroutines t),
      reqLog := (reqLog t)(i \<mapsto> LoggingRequest q)\<rparr>)"
| request_sent: "reqLog t i = Some (LoggingRequest q) \<Longrightarrow> pcs (goroutines t) q = Some Finished \<Longrightarrow>
    call_step t (t\<lparr>reqLog := (reqLog t)(i \<mapsto> SentClosed q)\<rparr>)"
| response_begins: "reqLog t i = Some (SentClosed q) \<Longrightarrow> rspLog t i = None \<Longrightarrow>
    roomForNext (oproc (goroutines t)) \<Longrightarrow> GetNextSequence (oproc (goroutines t)) = (s, p) \<Longrightarrow>
    call_step t (t\<lparr>goroutines := setPc s Started p (goroutines t), rspLog := (rspLog t)(i \<mapsto> s)\<rparr>)"
| event_begins: "roomForNext (oproc (goroutines t)) \<Longrightarrow>
    GetNextSequence (oproc (goroutines t)) = (e, p) \<Longrightarrow>
    call_step t (t\<lparr>goroutines := setPc e Started p (goroutines t), evLog := insert (i, e) (evLog t)\<rparr>)"
| inside: "log_step (goroutines t) g \<Longrightarrow> dom (pcs g) = dom (pcs (goroutines t)) \<Longrightarrow>
    call_step t (t\<lparr>goroutines := g\<rparr>)"

inductive calls_reachable :: "call_log \<Rightarrow> bool" where
  calls_start: "calls_reachable init_calls"
| calls_step: "calls_reachable t \<Longrightarrow> call_step t u \<Longrightarrow> calls_reachable u"

inductive_cases call_stepE: "call_step t u"

subsection \<open>Invariant\<close>

text \<open>Whatever a call does, its goroutines move by one step of theirs or not at all.\<close>

lemma goroutines_move:
  assumes "call_step t u"
  shows "goroutines u = goroutines t \<or> log_step (goroutines t) (goroutines u)"
  using assms by cases (auto intro: log_step.intros)

lemma goroutines_reachable: "calls_reachable t \<Longrightarrow> reachable (goroutines t)"
proof (induction rule: calls_reachable.induct)
  case (calls_step t u)
  with goroutines_move [OF calls_step.hyps(2)] show ?case by (auto intro: reachable.step)
qed (simp add: init_calls_def reachable.start)

lemma new_number:
  assumes "reachable g" and "roomForNext (oproc g)" and "GetNextSequence (oproc g) = (s, p)"
  shows "s \<notin> issued_numbers g" "k \<in> issued_numbers g \<Longrightarrow> k < s"
proof -
  note inv = reachable_inv [OF assms(1)]
  have "s = sequenceCounter (oproc g) + 1"
    using assms(3) by (auto simp: GetNextSequence_def Let_def)
  with succ_counter [OF assms(2)] have lt: "k < s" if "k \<in> issued_numbers g" for k
    using that sys_invD(4) [OF inv, of k]
    by (auto simp: issued_numbers_def dom_def word_le_nat_alt word_less_nat_alt)
  then show "k \<in> issued_numbers g \<Longrightarrow> k < s" .
  from lt show "s \<notin> issued_numbers g" by blast
qed

definition call_inv :: "call_log \<Rightarrow> bool" where
  "call_inv t \<longleftrightarrow>
     (\<forall>i q. reqLog t i = Some (SentClosed q) \<longrightarrow> q \<in> finished_numbers (goroutines t)) \<and>
     (\<forall>i r. reqLog t i = Some r \<longrightarrow> request_number r \<in> issued_numbers (goroutines t)) \<and>
     (\<forall>i s. rspLog t i = Some s \<longrightarrow>
        (\<exists>q. reqLog t i = Some (SentClosed q) \<and> q < s \<and> tl.settled q s (goroutines t)))"

lemma call_invD:
  assumes "call_inv t"
  shows "reqLog t i = Some (SentClosed q) \<Longrightarrow> q \<in> finished_numbers (goroutines t)"
    "reqLog t i = Some r \<Longrightarrow> request_number r \<in> issued_numbers (goroutines t)"
    "rspLog t i = Some s \<Longrightarrow>
       \<exists>q. reqLog t i = Some (SentClosed q) \<and> q < s \<and> tl.settled q s (goroutines t)"
  using assms unfolding call_inv_def by blast+

text \<open>A step of the goroutines alone keeps the invariant.\<close>

lemma call_inv_goroutines:
  assumes inv: "call_inv t" and r: "reachable (goroutines t)" and st: "log_step (goroutines t) g"
    and grow: "issued_numbers (goroutines t) \<subseteq> issued_numbers g"
  shows "call_inv (t\<lparr>goroutines := g\<rparr>)"
  using call_invD [OF inv] tl.finished_mono [OF r st] grow tl.settled_step [OF r st]
  unfolding call_inv_def by simp blast

lemma issue_facts:
  assumes "reachable g" and "roomForNext (oproc g)" and "GetNextSequence (oproc g) = (s, p)"
  shows "log_step g (setPc s Started p g)" "issued_numbers (setPc s Started p g) = insert s (issued_numbers g)"
  using assms by (auto intro: log_step.issue simp: issued_numbers_def)

lemma call_step_inv: "call_step t u \<Longrightarrow> calls_reachable t \<Longrightarrow> call_inv t \<Longrightarrow> call_inv u"
proof (induction rule: call_step.induct)
  case (request_begins t i q p)
  note r = goroutines_reachable [OF request_begins.prems(1)]
  note f = issue_facts [OF r request_begins.hyps(2,3)]
  have "call_inv (t\<lparr>goroutines := setPc q Started p (goroutines t)\<rparr>)"
    by (rule call_inv_goroutines [OF request_begins.prems(2) r f(1)]) (auto simp: f(2))
  moreover have "rspLog t i = None"
    using call_invD(3) [OF request_begins.prems(2), of i] request_begins.hyps(1)
    by (cases "rspLog t i") auto
  ultimately show ?case by (auto simp: call_inv_def f(2))
next
  case (request_sent t i q)
  then have "q \<in> finished_numbers (goroutines t)" "q \<in> issued_numbers (goroutines t)"
    by (auto simp: finished_numbers_def issued_numbers_def)
  with request_sent call_invD(3) [OF request_sent.prems(2), of i] show ?case
    unfolding call_inv_def by (auto split: if_splits)
next
  case (response_begins t i q s p)
  note r = goroutines_reachable [OF response_begins.prems(1)] and inv = response_begins.prems(2)
  note f = issue_facts [OF r response_begins.hyps(3,4)] and n = new_number [OF r response_begins.hyps(3,4)]
  have q: "q \<in> finished_numbers (goroutines t)" "q \<in> issued_numbers (goroutines t)"
    using call_invD(1,2) [OF inv response_begins.hyps(1)] by auto
  have "tl.settled q s (setPc s Started p (goroutines t))"
    by (rule tl.settled_step [OF r f(1) tl.settled_fresh [OF r q(1) n(1)]])
  moreover have "call_inv (t\<lparr>goroutines := setPc s Started p (goroutines t)\<rparr>)"
    by (rule call_inv_goroutines [OF inv r f(1)]) (auto simp: f(2))
  ultimately show ?case
    using n(2) [OF q(2)] response_begins.hyps(1) by (auto simp: call_inv_def)
next
  case (event_begins t e p i)
  note r = goroutines_reachable [OF event_begins.prems(1)]
  note f = issue_facts [OF r event_begins.hyps]
  have "call_inv (t\<lparr>goroutines := setPc e Started p (goroutines t)\<rparr>)"
    by (rule call_inv_goroutines [OF event_begins.prems(2) r f(1)]) (auto simp: f(2))
  then show ?case by (simp add: call_inv_def)
next
  case (inside t g)
  then show ?case
    by (intro call_inv_goroutines) (auto simp: goroutines_reachable issued_numbers_def)
qed

lemma calls_reachable_inv: "calls_reachable t \<Longrightarrow> call_inv t"
proof (induction rule: calls_reachable.induct)
  case calls_start
  then show ?case by (simp add: call_inv_def init_calls_def)
next
  case (calls_step t u)
  then show ?case by (blast intro: call_step_inv)
qed

subsection \<open>Progress\<close>

text \<open>Steps of the goroutines, none of them new, are steps of the calls.\<close>

lemma lift_goroutines:
  assumes "(\<lambda>g h. log_step g h \<and> issued_numbers h = issued_numbers g)\<^sup>*\<^sup>* (goroutines t) g"
  shows "call_step\<^sup>*\<^sup>* t (t\<lparr>goroutines := g\<rparr>)"
  using assms
proof (induction rule: rtranclp_induct)
  case (step g h)
  then have "call_step (t\<lparr>goroutines := g\<rparr>) (t\<lparr>goroutines := h\<rparr>)"
    using call_step.inside [of "t\<lparr>goroutines := g\<rparr>" h] by (simp add: issued_numbers_def)
  with step.IH show ?case by (rule rtranclp.rtrancl_into_rtrancl)
qed simp

lemma calls_reachable_steps: "call_step\<^sup>*\<^sup>* t u \<Longrightarrow> calls_reachable t \<Longrightarrow> calls_reachable u"
  by (induction rule: rtranclp_induct) (auto intro: calls_step)

lemma all_finish:
  assumes "calls_reachable t"
  obtains u where "call_step\<^sup>*\<^sup>* t u" "reqLog u = reqLog t" "rspLog u = rspLog t"
    "finished_numbers (goroutines u) = issued_numbers (goroutines u)"
    "issued_numbers (goroutines u) = issued_numbers (goroutines t)"
proof -
  obtain g where g: "(\<lambda>g h. log_step g h \<and> issued_numbers h = issued_numbers g)\<^sup>*\<^sup>* (goroutines t) g"
    "finished_numbers g = issued_numbers g"
    using tl.finishes [OF goroutines_reachable [OF assms]] by blast
  from that [OF lift_goroutines [OF g(1)]] g(2) tl.issues_kept [OF g(1)] show ?thesis by simp
qed

subsection \<open>Two example runs\<close>

text \<open>A call whose request and response have taken their turns, and one of which an event has,
  although its request has not been logged.\<close>

definition first_issued :: op_state where
  "first_issued = snd (GetNextSequence NewOrderedProcessor)"

definition first_done :: op_state where
  "first_done = first_issued\<lparr>activeSequences := {}, nextSequence := 2\<rparr>"

definition first_turn :: sys where
  "first_turn = enter 1 first_issued (setPc 1 Started first_issued init_sys)"

definition second_turn :: sys where
  "second_turn =
     (let p = snd (GetNextSequence first_done)
      in enter 2 p (setPc 2 Started p (setPc 1 Finished first_done first_turn)))"

definition exchange_logged :: call_log where
  "exchange_logged =
     \<lparr>goroutines = second_turn, reqLog = [9 \<mapsto> SentClosed 1], rspLog = [9 \<mapsto> 2], evLog = {}\<rparr>"

definition event_first :: call_log where
  "event_first = \<lparr>goroutines = first_turn, reqLog = Map.empty, rspLog = Map.empty, evLog = {(9, 1)}\<rparr>"

lemmas run_defs = first_issued_def first_done_def first_turn_def second_turn_def exchange_logged_def
  event_first_def init_calls_def example_defs Let_def

lemma first_completes: "CompleteSequence 1 first_issued = Some (Inr first_done)"
proof -
  have "mustSkip (first_issued\<lparr>activeSequences := {}\<rparr>)"
    and "skipOne (first_issued\<lparr>activeSequences := {}\<rparr>) = Inr first_done"
    and "\<not> mustSkip first_done"
    by (simp_all add: mustSkip_def skipOne_def run_defs word_le_nat_alt)
  moreover have "first_issued\<lparr>activeSequences := activeSequences first_issued - {1}\<rparr> =
      first_issued\<lparr>activeSequences := {}\<rparr>"
    by (simp add: run_defs)
  ultimately show ?thesis
    by (simp add: CompleteSequence_def skipCompletedSequences.simps [of "first_issued\<lparr>activeSequences := {}\<rparr>"]
        skipCompletedSequences.simps [of first_done])
qed

lemma event_first_reachable: "calls_reachable event_first"
proof -
  let ?g = "setPc 1 Started first_issued init_sys"
  let ?t = "init_calls\<lparr>goroutines := ?g, evLog := {(9, 1)}\<rparr>"
  have "call_step init_calls ?t"
    using call_step.event_begins [of init_calls 1 first_issued 9] by (simp add: run_defs)
  with calls_start have t: "calls_reachable ?t" by (rule calls_step)
  then have "normalised first_issued"
    using reachable_inv [OF goroutines_reachable, THEN sys_invD(2)] by fastforce
  then have "log_step ?g first_turn"
    unfolding first_turn_def
    by (intro ready) (simp_all add: WaitBegin_normalised, simp_all add: run_defs)
  then have "call_step ?t event_first"
    using call_step.inside [of ?t first_turn] by (simp add: event_first_def init_calls_def first_turn_def)
  with t show ?thesis by (rule calls_step)
qed

lemma exchange_logged_reachable: "calls_reachable exchange_logged"
proof -
  let ?g1 = "setPc 1 Started first_issued init_sys" and ?p = "snd (GetNextSequence first_done)"
  let ?g3 = "setPc 1 Finished first_done first_turn"
  let ?g4 = "setPc 2 Started ?p ?g3"
  let ?t1 = "init_calls\<lparr>goroutines := ?g1, reqLog := [9 \<mapsto> LoggingRequest 1]\<rparr>"
  let ?t4 = "exchange_logged\<lparr>goroutines := ?g4\<rparr>"
  have "call_step init_calls ?t1"
    using call_step.request_begins [of init_calls 9 1 first_issued] by (simp add: run_defs)
  with calls_start have t1: "calls_reachable ?t1" by (rule calls_step)
  then have "normalised first_issued"
    using reachable_inv [OF goroutines_reachable, THEN sys_invD(2)] by fastforce
  then have "log_step ?g1 first_turn"
    unfolding first_turn_def
    by (intro ready) (simp_all add: WaitBegin_normalised, simp_all add: run_defs)
  then have "call_step ?t1 (?t1\<lparr>goroutines := first_turn\<rparr>)"
    using call_step.inside [of ?t1 first_turn] by (simp add: first_turn_def)
  with t1 have t2: "calls_reachable (?t1\<lparr>goroutines := first_turn\<rparr>)" by (rule calls_step)
  have "log_step first_turn ?g3"
    by (rule complete) (simp_all add: first_turn_def first_completes)
  then have "call_step (?t1\<lparr>goroutines := first_turn\<rparr>) (?t1\<lparr>goroutines := ?g3\<rparr>)"
    using call_step.inside [of "?t1\<lparr>goroutines := first_turn\<rparr>" ?g3] by (simp add: first_turn_def)
  with t2 have t3: "calls_reachable (?t1\<lparr>goroutines := ?g3\<rparr>)" by (rule calls_step)
  let ?t3 = "init_calls\<lparr>goroutines := ?g3, reqLog := [9 \<mapsto> SentClosed 1]\<rparr>"
  have "call_step (?t1\<lparr>goroutines := ?g3\<rparr>) ?t3"
    using call_step.request_sent [of "?t1\<lparr>goroutines := ?g3\<rparr>" 9 1] by (simp add: init_calls_def)
  with t3 have t3: "calls_reachable ?t3" by (rule calls_step)
  have "call_step ?t3 ?t4"
    using call_step.response_begins [of ?t3 9 1 2 ?p] by (simp add: run_defs)
  with t3 have t4: "calls_reachable ?t4" by (rule calls_step)
  then have "normalised ?p"
    using reachable_inv [OF goroutines_reachable, THEN sys_invD(2)] by fastforce
  then have "log_step ?g4 second_turn"
    unfolding second_turn_def Let_def
    by (intro ready) (simp_all add: WaitBegin_normalised, simp_all add: run_defs)
  then have "call_step ?t4 exchange_logged"
    using call_step.inside [of ?t4 second_turn]
    by (simp add: exchange_logged_def second_turn_def Let_def insert_commute)
  with t4 show ?thesis by (rule calls_step)
qed

subsection \<open>Properties\<close>

text \<open>C3: The record of a response never comes before the record of its own request, timers of the
  sequencer and shutdown included: a response takes its number only after its request's
  goroutine has finished, so a request not written by then is never written.\<close>

theorem request_logged_before_response:
  assumes "calls_reachable t" and "rspLog t i = Some s"
  shows "\<exists>q. reqLog t i = Some (SentClosed q) \<and> q < s \<and> pcs (goroutines t) q = Some Finished \<and>
    (q \<in> set (order (goroutines t)) \<longrightarrow> s \<in> set (order (goroutines t)) \<longrightarrow>
       before q s (order (goroutines t)))"
proof -
  obtain q where "reqLog t i = Some (SentClosed q)" "q < s" "tl.settled q s (goroutines t)"
    using call_invD(3) [OF calls_reachable_inv [OF assms(1)] assms(2)] by blast
  then show ?thesis by (auto simp: tl.settled_def finished_numbers_def)
qed

theorem request_logged_before_response_witness:
  "calls_reachable exchange_logged \<and> order (goroutines exchange_logged) = [1, 2] \<and>
   before 1 2 (order (goroutines exchange_logged))"
proof -
  have o: "order (goroutines exchange_logged) = [1, 2]" by (simp add: run_defs)
  have "rspLog exchange_logged 9 = Some 2" by (simp add: exchange_logged_def)
  from request_logged_before_response [OF exchange_logged_reachable this] o
  have "before 1 2 (order (goroutines exchange_logged))" by (auto simp: exchange_logged_def)
  with o exchange_logged_reachable show ?thesis by blast
qed



text \<open>A response whose request's tee is never closed is never logged, and a server-sent event does
  not wait at all: it can be written before its request is.\<close>

theorem unsent_request_blocks_response:
  "calls_reachable t \<Longrightarrow> reqLog t i = None \<Longrightarrow> rspLog t i = None"
  using call_invD(3) [OF calls_reachable_inv, of t i] by (cases "rspLog t i") auto

theorem event_may_precede_request:
  "calls_reachable event_first \<and> (9, 1) \<in> evLog event_first \<and>
   1 \<in> set (order (goroutines event_first)) \<and> reqLog event_first 9 = None"
  using event_first_reachable by (simp add: run_defs)

end
