(* ===== verification/TeeLog.thy ===== *)
theory TeeLog
  imports GoStrings
begin

text \<open>
  The tee that feeds the log: \<open>logReadCloser\<close> and its constructors in \<open>snooper/logging.go\<close>, which
  the two processing streams of \<open>snooper/proxycall.go\<close> (theory \<open>CallLog\<close>) are built from. A body is the list of what its reader
  will hand out: chunks of bytes, then the end or an error that stays. A read with a buffer of
  \<open>n\<close> bytes takes at most \<open>n\<close> of the next chunk. The log callback runs in a goroutine of
  its own; here it is the list of what it is called with.
\<close>

datatype stream_item = Chunk bytes | ReadErr

datatype read_end = ReadOk | ReadEOF | ReadFailed

fun stream_read :: "nat \<Rightarrow> stream_item list \<Rightarrow> bytes \<times> read_end \<times> stream_item list" where
  "stream_read n [] = ([], ReadEOF, [])"
| "stream_read n (ReadErr # items) = ([], ReadFailed, ReadErr # items)"
| "stream_read n (Chunk c # items) =
     (if length c \<le> n then (c, ReadOk, items) else (take n c, ReadOk, Chunk (drop n c) # items))"

text \<open>What can still be read before the end or the error.\<close>

fun payload :: "stream_item list \<Rightarrow> bytes" where
  "payload [] = []"
| "payload (ReadErr # items) = []"
| "payload (Chunk c # items) = c @ payload items"

record log_read_closer =
  lrcSource :: "stream_item list"
  lrcBuf :: bytes
  lrcClosed :: bool
  lrcSourceClosed :: nat
  lrcLogged :: "bytes list"

definition createTeeLogStream :: "stream_item list \<Rightarrow> log_read_closer" where
  "createTeeLogStream strm =
     \<lparr>lrcSource = strm, lrcBuf = [], lrcClosed = False, lrcSourceClosed = 0, lrcLogged = []\<rparr>"

text \<open>\<open>Read\<close> goes through \<open>io.TeeReader\<close>: what was read is also written to the buffer.\<close>

definition lrc_Read :: "nat \<Rightarrow> log_read_closer \<Rightarrow> bytes \<times> read_end \<times> log_read_closer" where
  "lrc_Read n r =
     (let (data, e, src) = stream_read n (lrcSource r)
      in (data, e, r\<lparr>lrcSource := src, lrcBuf := lrcBuf r @ data\<rparr>))"

text \<open>\<open>io.Copy (io.Discard, r.reader)\<close>: reads of the copy buffer's size until one is not
  successful.\<close>

definition copyBuffer :: nat where
  "copyBuffer = 8192"

definition stream_size :: "stream_item list \<Rightarrow> nat" where
  "stream_size items = length items + sum_list (map (\<lambda>x. case x of Chunk c \<Rightarrow> length c | ReadErr \<Rightarrow> 0) items)"

function drain :: "log_read_closer \<Rightarrow> log_read_closer" where
  "drain r =
     (case lrc_Read copyBuffer r of
        (data, ReadOk, r') \<Rightarrow> drain r'
      | (data, _, r') \<Rightarrow> r')"
  by pat_completeness auto
termination
proof (relation "measure (\<lambda>r. stream_size (lrcSource r))")
  fix r data and r' :: log_read_closer and e rest
  assume "(data, rest) = lrc_Read copyBuffer r" "(e, r') = rest" "e = ReadOk"
  then show "(r', r) \<in> measure (\<lambda>r. stream_size (lrcSource r))"
    by (cases "(copyBuffer, lrcSource r)" rule: stream_read.cases)
       (auto simp: lrc_Read_def stream_size_def copyBuffer_def split: if_splits)
qed auto

declare drain.simps [simp del]

definition lrc_Close :: "log_read_closer \<Rightarrow> log_read_closer" where
  "lrc_Close r =
     (if lrcClosed r then r
      else let r1 = drain (r\<lparr>lrcClosed := True\<rparr>)
           in r1\<lparr>lrcSourceClosed := lrcSourceClosed r1 + 1, lrcLogged := lrcLogged r1 @ [lrcBuf r1]\<rparr>)"

text \<open>A client's reads, one buffer size each, and what they return together.\<close>

fun reads :: "nat list \<Rightarrow> log_read_closer \<Rightarrow> bytes \<times> log_read_closer" where
  "reads [] r = ([], r)"
| "reads (n # ns) r =
     (let (data, e, r1) = lrc_Read n r; (more, r2) = reads ns r1 in (data @ more, r2))"

subsection \<open>Lemmas\<close>

lemma stream_read_payload:
  "stream_read n items = (data, e, rest) \<Longrightarrow> payload items = data @ payload rest"
  by (cases "(n, items)" rule: stream_read.cases) (auto split: if_splits)

lemma stream_read_stop:
  "stream_read n items = (data, e, rest) \<Longrightarrow> e \<noteq> ReadOk \<Longrightarrow> data = [] \<and> payload rest = []"
  by (cases "(n, items)" rule: stream_read.cases) (auto split: if_splits)

lemma lrc_Read_total:
  assumes "lrc_Read n r = (data, e, r')"
  shows "lrcBuf r' = lrcBuf r @ data" "lrcBuf r' @ payload (lrcSource r') = lrcBuf r @ payload (lrcSource r)"
    "lrcClosed r' = lrcClosed r" "lrcLogged r' = lrcLogged r" "lrcSourceClosed r' = lrcSourceClosed r"
    "e \<noteq> ReadOk \<Longrightarrow> payload (lrcSource r') = []"
  using assms
  by (auto simp: lrc_Read_def split: prod.splits dest: stream_read_payload stream_read_stop)

lemma drain_facts:
  "lrcBuf (drain r) = lrcBuf r @ payload (lrcSource r) \<and> lrcClosed (drain r) = lrcClosed r \<and>
   lrcLogged (drain r) = lrcLogged r \<and> lrcSourceClosed (drain r) = lrcSourceClosed r"
proof (induction r rule: drain.induct)
  case (1 r)
  obtain data e r' where r': "lrc_Read copyBuffer r = (data, e, r')" by (cases "lrc_Read copyBuffer r")
  note t = lrc_Read_total [OF r']
  show ?case
  proof (cases "e = ReadOk")
    case True
    with 1 r' t show ?thesis by (subst (1 2 3 4) drain.simps) simp
  next
    case False
    with r' t have "drain r = r'" by (subst drain.simps) (auto split: read_end.split)
    with t False show ?thesis by simp
  qed
qed

lemma reads_total:
  assumes "reads ns r = (data, r')"
  shows "lrcBuf r' = lrcBuf r @ data \<and> lrcBuf r' @ payload (lrcSource r') = lrcBuf r @ payload (lrcSource r) \<and>
    lrcClosed r' = lrcClosed r \<and> lrcLogged r' = lrcLogged r \<and> lrcSourceClosed r' = lrcSourceClosed r"
  using assms
proof (induction ns arbitrary: r data)
  case (Cons n ns)
  obtain d e r1 where r1: "lrc_Read n r = (d, e, r1)" by (cases "lrc_Read n r")
  obtain more r2 where r2: "reads ns r1 = (more, r2)" by (cases "reads ns r1")
  from Cons.prems r1 r2 have "data = d @ more" "r' = r2" by auto
  with Cons.IH [of r1 more] r2 lrc_Read_total [OF r1] show ?case by auto
qed simp

lemma lrc_Close_closed: "lrcClosed r \<Longrightarrow> lrc_Close r = r"
  by (simp add: lrc_Close_def)

lemma lrc_Close_marks: "lrcClosed (lrc_Close r)"
  by (simp add: lrc_Close_def Let_def drain_facts)

subsection \<open>Property\<close>

text \<open>C7: However a client reads a body through the tee, in whatever pieces and however little of
  it, what it reads is a beginning of the body, and closing calls the log once with the
  whole body up to its end or read error and closes the source once; closing again does
  nothing.\<close>

theorem tee_logs_whole_body:
  assumes "reads ns (createTeeLogStream strm) = (data, r)"
  shows "prefix data (payload strm) \<and> lrcLogged (lrc_Close r) = [payload strm] \<and>
    lrcSourceClosed (lrc_Close r) = 1 \<and> lrc_Close (lrc_Close r) = lrc_Close r"
proof -
  have r: "lrcBuf r = data" "data @ payload (lrcSource r) = payload strm" "\<not> lrcClosed r" "lrcLogged r = []"
    "lrcSourceClosed r = 0"
    using reads_total [OF assms] by (auto simp: createTeeLogStream_def)
  then have "lrcLogged (lrc_Close r) = [payload strm]" "lrcSourceClosed (lrc_Close r) = 1"
    by (simp_all add: lrc_Close_def Let_def drain_facts)
  moreover have "prefix data (payload strm)" using r(2) by (metis prefixI)
  moreover have "lrc_Close (lrc_Close r) = lrc_Close r" by (rule lrc_Close_closed [OF lrc_Close_marks])
  ultimately show ?thesis by blast
qed

theorem tee_logs_whole_body_witness:
  "\<exists>data r. reads [2, 3] (createTeeLogStream [Chunk ''hello'', Chunk ''!'', ReadErr]) = (data, r) \<and>
     data = ''hello'' \<and> lrcLogged (lrc_Close r) = [''hello!'']"
proof -
  obtain data r where r: "reads [2, 3] (createTeeLogStream [Chunk ''hello'', Chunk ''!'', ReadErr]) = (data, r)"
    and d: "data = ''hello''"
    by (simp add: createTeeLogStream_def lrc_Read_def Let_def)
  from tee_logs_whole_body [OF r] r d show ?thesis by auto
qed

end
