(* ===== verification/Spec2Isabelle.thy ===== *)
theory Spec2Isabelle
  imports Startup HookClient Utils CallLog Truncate FlowApi Auth Manager TeeLog EventStream ProxyCall Metrics Logging
begin

text \<open>
  rpc-snooper: a verification development.

  The program is a proxy that stands between a client and a JSON-RPC or REST server (an
  Ethereum node), forwards every call and shows what passes: it writes log records in the
  order the calls were seen, gives requests and responses to observing modules that clients
  register over a web socket, publishes decorated events to the Xatu service, and counts
  calls for Prometheus. All Go code of \<open>src/\<close> that keeps state or decides anything is
  modelled; what is left out is listed at the end.

  \<^bold>\<open>How a call runs.\<close> \<open>Snooper.ServeHTTP\<close> passes the flow gate, builds the upstream request,
  sends it, and copies the answer to the client. Both bodies run through a tee whose callback,
  in a goroutine of its own, logs what went by; the response's callback first waits for the
  request's. A log function draws a number from the ordered processor, decompresses the
  body, waits for its turn, hands the data to the module manager, writes the record and
  completes its number. The module manager asks the filters of each module and runs it; a
  module sends frames over its connection, or, for the built-in Xatu module, routes the call
  to an event handler, which publishes when the response of a pending request arrives. The
  publisher drops events until metadata of the execution client is known, from the fetcher
  or from an observed response.

  \<^bold>\<open>Theories.\<close> Library: \<open>Prelude\<close> (types, lists, maps, 64-bit counters, the collections
  \<open>go_defs\<close> and \<open>step_inv\<close>), \<open>GoStrings\<close>, \<open>Encoding\<close>, \<open>Json\<close>, \<open>Unmarshal\<close> and \<open>Http\<close> model the
  part of Go's standard library the program uses.

  \<^item> \<open>OrderedProcessor\<close>: \<open>snooper/ordered_processor.go\<close>. One function per method;
    \<open>WaitForSequence\<close> is split where it gives its mutex up. \<open>LogOrder\<close>: the goroutines in
    \<open>logRequest\<close>, \<open>logResponse\<close>, \<open>logEventResponse\<close> as a step relation on top of it.
    \<open>CallLog\<close>: the request and response callbacks of a call (\<open>snooper/proxycall.go\<close>) on top
    of that. Shown: turns are taken in the order of issue and one at a time, no wait is
    forgotten, no channel is closed twice, a response is never logged before its request, and
    what the five-second timer gives up.
  \<^item> \<open>TeeLog\<close> (\<open>logReadCloser\<close> of \<open>snooper/logging.go\<close>), \<open>EventStream\<close>
    (\<open>processEventStreamResponse\<close>), \<open>CallCtx\<close> (\<open>ProxyCallContext\<close> and its watcher goroutine),
    \<open>FlowApi\<close> (\<open>snooper/api.go\<close> and the gate), \<open>ProxyCall\<close> (\<open>processProxyCall\<close>, \<open>ServeHTTP\<close>).
    Shown: the client gets the upstream's status, header and bytes unchanged, the upstream
    gets the client's request, the log gets the whole body once, events are forwarded line by
    line, the deadline counts from the last sign of life, the gate follows the history of API
    calls; and how overlong lines, CRLF streams, broken bodies and failed calls end.
  \<^item> \<open>Logging\<close> (the log functions after their turn), \<open>Truncate\<close> (\<open>snooper/truncate.go\<close>).
    Shown: display flags change the records only, hidden bodies do not appear in them,
    truncation is bounded, idempotent and keeps the shape of a document, and the
    fast path of \<open>formatHexBodyForLog\<close> prints the same.
  \<^item> \<open>Filters\<close> (\<open>modules/filters.go\<close>), \<open>Builtin\<close> (\<open>modules/builtin\<close>, \<open>modules/protocol\<close>),
    \<open>Manager\<close> (\<open>modules/manager.go\<close>), \<open>HookClient\<close> (\<open>cmd/snooper-hook\<close>, the other end
    of the socket). Shown: what a filter lets through, that every registered module belongs to
    one live connection and goes with it, that frames read are frames sent, the registration
    handshake, and that the hook client reads every event with the values it was sent with.
  \<^item> \<open>XatuHandlers\<close>, \<open>ClientVersion\<close> (the handlers and the router of \<open>xatu\<close>), \<open>XatuService\<close>
    (\<open>xatu/publisher.go\<close>, \<open>xatu/xatu.go\<close>), \<open>XatuConfig\<close> (\<open>xatu/config.go\<close>, environment
    and flags of \<open>cmd/snooper/main.go\<close>), \<open>Metadata\<close> (\<open>snooper/execution_metadata.go\<close>).
    Shown: a response publishes one event built from its own request, sinks are used only
    while they run, the retry loop ends exactly when an attempt succeeds or is stopped, with
    its waits, and configurations and secrets survive their text form.
  \<^item> \<open>Auth\<close> (the API server's credentials), \<open>Metrics\<close> (\<open>metrics/metrics.go\<close>), \<open>Utils\<close>,
    \<open>Startup\<close> (\<open>NewSnooper\<close>, the servers, \<open>Shutdown\<close>, \<open>main\<close>). \<open>Startup\<close> composes the
    parts: from start-up through the module manager, the handlers and the metadata to the
    sinks.

  \<^bold>\<open>Correspondence.\<close> A definition has the name of the Go function it models, with a prefix where
  two share one (\<open>pub_Start\<close>, \<open>svc_Start\<close>, \<open>lrc_Close\<close>, \<open>hex_Read\<close>); a struct is a record
  or, where an interface has several implementations, a datatype. State is passed and
  returned. Errors are values: \<open>option\<close> or a sum with what the message prints. A Go map is a
  function into \<open>option\<close>, or an association list where its visiting order matters; that order is
  then an argument. \<open>uint64\<close> counters are 64-bit words; times are integers in nanoseconds.
  Code under a mutex is one step. Third-party code is an argument or a record of functions
  (\<open>env\<close>, \<open>codec\<close>, \<open>network\<close>, \<open>fetch_io\<close>, \<open>sink_lib\<close>), with no assumption about it
  unless a theorem names one.

  \<^bold>\<open>Interfaces.\<close> Six contracts are locales, each interpreted on the model where its provider is:
  \<open>text_codec\<close> (decimal and hexadecimal numbers, hex and base64, in \<open>Encoding\<close>), \<open>call_data\<close>
  (\<open>types.ProxyCallContext\<close>, in \<open>CallCtx\<close>), \<open>turn_log\<close> (what the goroutines of
  \<open>LogOrder\<close> promise to the calls), \<open>observing_module\<close> (\<open>types.Module\<close>, in \<open>Builtin\<close>),
  \<open>correlating_handler\<close> (the two handlers with pending calls, in \<open>XatuHandlers\<close>),
  \<open>publishing_service\<close> (\<open>Service\<close> and \<open>Publisher\<close>, in \<open>XatuService\<close>).

  \<^bold>\<open>Bounds and loops.\<close> Loops whose end is not obvious are partial functions into \<open>option\<close>, where
  \<open>None\<close> is a run that does not end: \<open>skipCompletedSequences\<close> (shown to return under the
  invariant), \<open>jq_scan\<close> and \<open>jq_collect\<close> (a query may yield for ever; the module operations
  then return \<open>None\<close> too), \<open>retryLoop\<close> (ends exactly when \<open>retries_end\<close> says). The
  others have termination proofs: the drain of a tee, the event stream (each line shortens
  the rest), trimming, case folding. There is no fuel. Bounds are the code's: 4096 bytes of
  \<open>bufio.Reader\<close>, 8192 read at a time when a tee is drained (the size does not matter to
  what is read), 5 deadline updates in the channel, thresholds of truncation, 30 and 60 seconds. The one
  bound of the model is that fewer than \<open>2 ^ 64 - 2\<close> log records are written.

  \<^bold>\<open>Not modelled.\<close> Listening on ports and TLS, the web socket and HTTP libraries, Prometheus
  (its registry and listener), logrus and terminal colours, signals, the flag, URL and
  duration parsers, gzip and brotli, gojq, JWT signing, JSON text (documents are values; numbers
  are exact where Go rounds those above \<open>2 ^ 53\<close>), the output library of Xatu and the
  Ethereum core library that parses version strings: they are code outside \<open>src/\<close> and appear as
  parameters. Log messages that only report an error are dropped. Data races on
  \<open>cancelled\<close> and \<open>callDuration\<close>, which the code reads without a lock, are resolved by
  taking steps as atomic. The tests and benchmarks are not part of the program.
\<close>

end
